(* ===== verification/Prelude.thy ===== *)
theory Prelude
  imports Main "HOL-Library.Word"
begin

text \<open>
  Shared vocabulary of the development.

  A Go function that talks to the host and may fail is a state transformer: it takes the state of
  the outside world and returns either an error or a value, together with the next state. The
  combinators below spell the three shapes in which the source writes such code: \<open>ret\<close> (return a
  value), \<open>fail\<close> (return an error), \<open>seqE\<close> (call, and return at once \<^verbatim>\<open>if err != nil\<close>), and
  \<open>mapErr\<close> (wrap the error of a call). \<open>spec\<close> is the corresponding Hoare triple, which reads the
  result and the final state; its rules are collected in \<open>spec_intros\<close>.
\<close>

type_synonym u64 = "64 word"
type_synonym u8 = "8 word"
type_synonym bytes = "u8 list"
type_synonym ('w, 'e, 'a) go = "'w \<Rightarrow> ('e + 'a) \<times> 'w"

named_theorems spec_intros "introduction rules for Hoare triples over fallible host calls"
named_theorems cmd_simps "command lines the client library renders for the daemon"
named_theorems tag_simps "facts on lvm tags and the prefixes that mark them"

section \<open>Fallible state transformers\<close>

definition ret :: "'a \<Rightarrow> ('w, 'e, 'a) go" where
  "ret a w = (Inr a, w)"

definition fail :: "'e \<Rightarrow> ('w, 'e, 'a) go" where
  "fail e w = (Inl e, w)"

definition seqE :: "('w, 'e, 'a) go \<Rightarrow> ('a \<Rightarrow> ('w, 'e, 'b) go) \<Rightarrow> ('w, 'e, 'b) go" where
  "seqE m f w = (case m w of (Inl e, w') \<Rightarrow> (Inl e, w') | (Inr a, w') \<Rightarrow> f a w')"

definition mapErr :: "('e \<Rightarrow> 'f) \<Rightarrow> ('w, 'e, 'a) go \<Rightarrow> ('w, 'f, 'a) go" where
  "mapErr g m w = (case m w of (Inl e, w') \<Rightarrow> (Inl (g e), w') | (Inr a, w') \<Rightarrow> (Inr a, w'))"

text \<open>A total caller branches on the outcome, as \<^verbatim>\<open>if err != nil { ... }\<close> with a body does.\<close>

definition outcome :: "('w, 'e, 'a) go \<Rightarrow> ('e + 'a \<Rightarrow> 'w \<Rightarrow> 'b) \<Rightarrow> 'w \<Rightarrow> 'b" where
  "outcome m f w = (case m w of (r, w') \<Rightarrow> f r w')"

definition is_err :: "'e + 'a \<Rightarrow> bool" where
  "is_err r = (case r of Inl _ \<Rightarrow> True | Inr _ \<Rightarrow> False)"

lemma is_err_simps [simp]: "is_err (Inl e)" "\<not> is_err (Inr a)"
  by (simp_all add: is_err_def)

lemma not_is_err_iff: "\<not> is_err r \<longleftrightarrow> (\<exists>a. r = Inr a)"
  by (cases r) auto

lemma ret_apply [simp]: "ret a w = (Inr a, w)"
  by (simp add: ret_def)

lemma fail_apply [simp]: "fail e w = (Inl e, w)"
  by (simp add: fail_def)

lemma seqE_ret [simp]: "seqE (ret a) f = f a"
  by (rule ext) (simp add: seqE_def)

lemma seqE_fail [simp]: "seqE (fail e) f = fail e"
  by (rule ext) (simp add: seqE_def)

lemma ret_eta: "ret a = Pair (Inr a)"
  by (rule ext) simp

lemma seqE_Pair [simp]: "seqE (Pair (Inr a)) f = f a" "seqE (Pair (Inl e)) f = Pair (Inl e)"
  by (rule ext, simp add: seqE_def)+

lemma seqE_Inl: "m w = (Inl e, w') \<Longrightarrow> seqE m f w = (Inl e, w')"
  by (simp add: seqE_def)

lemma seqE_Inr: "m w = (Inr a, w') \<Longrightarrow> seqE m f w = f a w'"
  by (simp add: seqE_def)

lemma seqE_cases:
  assumes "seqE m f w = (r, w')"
  obtains (err) e where "m w = (Inl e, w')" and "r = Inl e"
  | (ok) a w1 where "m w = (Inr a, w1)" and "f a w1 = (r, w')"
  using assms by (auto simp: seqE_def split: prod.splits sum.splits)

lemma mapErr_cases:
  assumes "mapErr g m w = (r, w')"
  obtains (err) e where "m w = (Inl e, w')" and "r = Inl (g e)"
  | (ok) a where "m w = (Inr a, w')" and "r = Inr a"
  using assms by (auto simp: mapErr_def split: prod.splits sum.splits)

lemma seqE_assoc: "seqE (seqE m f) g = seqE m (\<lambda>a. seqE (f a) g)"
  by (rule ext) (simp add: seqE_def split: prod.splits sum.splits)

section \<open>Hoare triples\<close>

definition spec :: "('w \<Rightarrow> bool) \<Rightarrow> ('w, 'e, 'a) go \<Rightarrow> ('e + 'a \<Rightarrow> 'w \<Rightarrow> bool) \<Rightarrow> bool" where
  "spec P m Q \<longleftrightarrow> (\<forall>w r w'. P w \<longrightarrow> m w = (r, w') \<longrightarrow> Q r w')"

lemma specI: "(\<And>w r w'. P w \<Longrightarrow> m w = (r, w') \<Longrightarrow> Q r w') \<Longrightarrow> spec P m Q"
  by (simp add: spec_def)

lemma specD: "spec P m Q \<Longrightarrow> P w \<Longrightarrow> m w = (r, w') \<Longrightarrow> Q r w'"
  by (simp add: spec_def)

lemma spec_ret [spec_intros]: "(\<And>w. P w \<Longrightarrow> Q (Inr a) w) \<Longrightarrow> spec P (ret a) Q"
  by (simp add: spec_def)

lemma spec_fail [spec_intros]: "(\<And>w. P w \<Longrightarrow> Q (Inl e) w) \<Longrightarrow> spec P (fail e) Q"
  by (simp add: spec_def)

lemma spec_seqE:
  assumes "spec P m R" and "\<And>e w. R (Inl e) w \<Longrightarrow> Q (Inl e) w"
    and "\<And>a. spec (R (Inr a)) (f a) Q"
  shows "spec P (seqE m f) Q"
  by (rule specI, erule seqE_cases)
    (use assms in \<open>auto dest: specD [OF assms(1)] specD [OF assms(3)]\<close>)

lemma spec_mapErr:
  assumes "spec P m (\<lambda>r w. case r of Inl e \<Rightarrow> Q (Inl (g e)) w | Inr a \<Rightarrow> Q (Inr a) w)"
  shows "spec P (mapErr g m) Q"
  by (rule specI, erule mapErr_cases) (auto dest!: specD [OF assms])

lemma spec_if [spec_intros]:
  "(b \<Longrightarrow> spec P m Q) \<Longrightarrow> (\<not> b \<Longrightarrow> spec P m' Q) \<Longrightarrow> spec P (if b then m else m') Q"
  by simp

lemma spec_pre: "spec P' m Q \<Longrightarrow> (\<And>w. P w \<Longrightarrow> P' w) \<Longrightarrow> spec P m Q"
  unfolding spec_def by blast

lemma spec_post: "spec P m Q' \<Longrightarrow> (\<And>r w. Q' r w \<Longrightarrow> Q r w) \<Longrightarrow> spec P m Q"
  unfolding spec_def by blast

lemma spec_conj: "spec P m Q \<Longrightarrow> spec P m Q' \<Longrightarrow> spec P m (\<lambda>r w. Q r w \<and> Q' r w)"
  by (simp add: spec_def)

section \<open>Lists and maps\<close>

lemma filter_eq_singleton_iff:
  "distinct xs \<Longrightarrow> filter P xs = [x] \<longleftrightarrow> {y \<in> set xs. P y} = {x}"
proof
  assume "distinct xs" and eq: "{y \<in> set xs. P y} = {x}"
  then have "distinct (filter P xs)" and s: "set (filter P xs) = {x}" by auto
  then have "length (filter P xs) = 1"
    using distinct_card [of "filter P xs"] by simp
  with s show "filter P xs = [x]"
    by (cases "filter P xs") auto
next
  assume "filter P xs = [x]"
  then have "set (filter P xs) = {x}" by simp
  then show "{y \<in> set xs. P y} = {x}" by auto
qed

lemma map_upd_other [simp]: "n \<noteq> m \<Longrightarrow> (f(m := x)) n = f n"
  by simp

end
