(* ===== verification/GoStd.thy ===== *)
theory GoStd
  imports Prelude "HOL-Library.Sublist" "HOL-Library.Log_Nat"
begin

text \<open>
  What the source uses of the Go standard library: \<^verbatim>\<open>strings\<close>, \<^verbatim>\<open>strconv\<close>, float64 arithmetic and
  \<^verbatim>\<open>encoding/json\<close>. A Go string is a byte string, here a list of 8-bit characters.

  \<^item> \<open>ParseUint\<close> and \<open>FormatUint\<close> are base 10 at 64 bits, the only way the source calls them.
  \<^item> A float64 is a rational rounded to 53 significant bits (to nearest, ties to even), an infinity
    or NaN; \<open>ParseFloat\<close> reads the decimal notation, the one lvm prints. Hexadecimal literals, digit
    separators and the spelled-out infinities are refused.
  \<^item> \<open>json_parse\<close> is a lexer followed by a stack machine, both structurally recursive. It accepts
    the grammar \<^verbatim>\<open>encoding/json\<close> accepts; the texts of its diagnostics are not reproduced.
\<close>

unbundle bit_operations_syntax

section \<open>strings\<close>

definition HasPrefix :: "string \<Rightarrow> string \<Rightarrow> bool" where
  "HasPrefix s p = prefix p s"

definition HasSuffix :: "string \<Rightarrow> string \<Rightarrow> bool" where
  "HasSuffix s p = prefix (rev p) (rev s)"

definition CutPrefix :: "string \<Rightarrow> string \<Rightarrow> string option" where
  "CutPrefix s p = (if prefix p s then Some (drop (length p) s) else None)"

definition TrimPrefix :: "string \<Rightarrow> string \<Rightarrow> string" where
  "TrimPrefix s p = (if prefix p s then drop (length p) s else s)"

definition TrimSuffix :: "string \<Rightarrow> string \<Rightarrow> string" where
  "TrimSuffix s p = (if HasSuffix s p then take (length s - length p) s else s)"

fun Contains :: "string \<Rightarrow> string \<Rightarrow> bool" where
  "Contains [] sub = (sub = [])"
| "Contains (c # cs) sub = (prefix sub (c # cs) \<or> Contains cs sub)"

fun Split :: "char \<Rightarrow> string \<Rightarrow> string list" where
  "Split sep [] = [[]]"
| "Split sep (c # cs) =
     (if c = sep then [] # Split sep cs
      else case Split sep cs of [] \<Rightarrow> [[c]] | x # xs \<Rightarrow> (c # x) # xs)"

fun Join :: "string list \<Rightarrow> string \<Rightarrow> string" where
  "Join [] sep = []"
| "Join [x] sep = x"
| "Join (x # y # xs) sep = x @ sep @ Join (y # xs) sep"

fun Cut :: "string \<Rightarrow> char \<Rightarrow> (string \<times> string) option" where
  "Cut [] sep = None"
| "Cut (c # cs) sep =
     (if c = sep then Some ([], cs) else map_option (\<lambda>(a, b). (c # a, b)) (Cut cs sep))"

definition is_space :: "char \<Rightarrow> bool" where
  "is_space c = (of_char c \<in> {9::nat, 10, 11, 12, 13, 32})"

definition TrimSpace :: "string \<Rightarrow> string" where
  "TrimSpace s = rev (dropWhile is_space (rev (dropWhile is_space s)))"

definition lower_char :: "char \<Rightarrow> char" where
  "lower_char c = (let n = of_char c :: nat in if 65 \<le> n \<and> n \<le> 90 then char_of (n + 32) else c)"

definition ToLower :: "string \<Rightarrow> string" where
  "ToLower s = map lower_char s"

lemma CutPrefix_append [simp]: "CutPrefix (p @ s) p = Some s"
  by (simp add: CutPrefix_def)

lemma CutPrefix_None_iff: "CutPrefix s p = None \<longleftrightarrow> \<not> prefix p s"
  by (simp add: CutPrefix_def)

lemma CutPrefix_Some_iff: "CutPrefix s p = Some v \<longleftrightarrow> s = p @ v"
  by (auto simp: CutPrefix_def prefix_def)

lemma Split_nonempty [simp]: "Split sep s \<noteq> []"
  by (cases s) (auto split: list.splits)

lemma Split_no_sep: "sep \<notin> set s \<Longrightarrow> Split sep s = [s]"
  by (induction s) auto

lemma Split_append_sep: "sep \<notin> set x \<Longrightarrow> Split sep (x @ sep # rest) = x # Split sep rest"
  by (induction x) auto

lemma Split_Join:
  "xs \<noteq> [] \<Longrightarrow> (\<forall>x \<in> set xs. sep \<notin> set x) \<Longrightarrow> Split sep (Join xs [sep]) = xs"
  by (induction xs "[sep]" rule: Join.induct) (auto simp: Split_no_sep Split_append_sep)

section \<open>strconv: unsigned integers\<close>

definition is_digit :: "char \<Rightarrow> bool" where
  "is_digit c = (48 \<le> (of_char c :: nat) \<and> (of_char c :: nat) \<le> 57)"

definition digit_val :: "char \<Rightarrow> nat" where
  "digit_val c = of_char c - 48"

definition digit_char :: "nat \<Rightarrow> char" where
  "digit_char d = char_of (48 + d)"

fun digits_of :: "nat \<Rightarrow> string" where
  "digits_of n = (if n < 10 then [digit_char n] else digits_of (n div 10) @ [digit_char (n mod 10)])"

declare digits_of.simps [simp del]

definition FormatUint :: "u64 \<Rightarrow> string" where
  "FormatUint n = digits_of (unat n)"

definition FormatInt :: "int \<Rightarrow> string" where
  "FormatInt n = (if n < 0 then ''-'' @ digits_of (nat (- n)) else digits_of (nat n))"

definition hex_digit :: "nat \<Rightarrow> char" where
  "hex_digit d = char_of (if d < 10 then 48 + d else 87 + d)"

definition quote_char :: "char \<Rightarrow> string" where
  "quote_char c =
     (let n = of_char c :: nat; bs = char_of (92::nat) in
      if n = 34 \<or> n = 92 then [bs, c]
      else if n = 7 then [bs, CHR ''a''] else if n = 8 then [bs, CHR ''b'']
      else if n = 9 then [bs, CHR ''t''] else if n = 10 then [bs, CHR ''n'']
      else if n = 11 then [bs, CHR ''v''] else if n = 12 then [bs, CHR ''f'']
      else if n = 13 then [bs, CHR ''r'']
      else if n < 32 \<or> n = 127 then [bs, CHR ''x'', hex_digit (n div 16), hex_digit (n mod 16)]
      else [c])"

text \<open>The \<^verbatim>\<open>%q\<close> verb on the strings lvm admits.\<close>

definition Quote :: "string \<Rightarrow> string" where
  "Quote s = [char_of (34::nat)] @ concat (map quote_char s) @ [char_of (34::nat)]"

datatype num_error = ErrSyntax | ErrRange

fun uint_loop :: "nat \<Rightarrow> string \<Rightarrow> num_error + nat" where
  "uint_loop n [] = Inr n"
| "uint_loop n (c # cs) =
     (if \<not> is_digit c then Inl ErrSyntax
      else let n' = 10 * n + digit_val c in
        if 2 ^ 64 \<le> n' then Inl ErrRange else uint_loop n' cs)"

definition ParseUint :: "string \<Rightarrow> num_error + u64" where
  "ParseUint s =
     (if s = [] then Inl ErrSyntax
      else case uint_loop 0 s of Inl e \<Rightarrow> Inl e | Inr n \<Rightarrow> Inr (of_nat n))"

definition NumError_text :: "string \<Rightarrow> string \<Rightarrow> num_error \<Rightarrow> string" where
  "NumError_text func s e =
     ''strconv.'' @ func @ '': parsing '' @ Quote s @ '': '' @
       (case e of ErrSyntax \<Rightarrow> ''invalid syntax'' | ErrRange \<Rightarrow> ''value out of range'')"

lemma digit_char_props:
  assumes "d < 10"
  shows "is_digit (digit_char d)" and "digit_val (digit_char d) = d"
proof -
  have "of_char (digit_char d) = 48 + d"
    using assms by (simp add: digit_char_def)
  then show "is_digit (digit_char d)" and "digit_val (digit_char d) = d"
    using assms by (simp_all add: is_digit_def digit_val_def)
qed

lemma digit_char_simps [simp]:
  "digit_char 0 = CHR ''0''" "digit_char 1 = CHR ''1''" "digit_char (Suc 0) = CHR ''1''"
  "digit_char 2 = CHR ''2''" "digit_char 3 = CHR ''3''" "digit_char 4 = CHR ''4''"
  "digit_char 5 = CHR ''5''" "digit_char 6 = CHR ''6''" "digit_char 7 = CHR ''7''"
  "digit_char 8 = CHR ''8''" "digit_char 9 = CHR ''9''"
  by code_simp+

lemma uint_loop_append:
  "uint_loop n (xs @ ys) = (case uint_loop n xs of Inl e \<Rightarrow> Inl e | Inr m \<Rightarrow> uint_loop m ys)"
  by (induction n xs rule: uint_loop.induct) (auto simp: Let_def)

lemma digits_of_nonempty [simp]: "digits_of n \<noteq> []"
  by (subst digits_of.simps) simp

lemma uint_loop_digits: "n < 2 ^ 64 \<Longrightarrow> uint_loop 0 (digits_of n) = Inr n"
proof (induction n rule: digits_of.induct)
  case (1 n)
  show ?case
  proof (cases "n < 10")
    case True
    with 1(2) show ?thesis
      by (subst digits_of.simps) (simp add: digit_char_props)
  next
    case False
    with 1 have "uint_loop 0 (digits_of (n div 10)) = Inr (n div 10)" by simp
    with False 1(2) show ?thesis
      by (subst digits_of.simps) (simp add: uint_loop_append digit_char_props)
  qed
qed

lemma ParseUint_FormatUint [simp]: "ParseUint (FormatUint n) = Inr n"
proof -
  have "unat n < 2 ^ 64" using unsigned_less [of n] by simp
  then have "uint_loop 0 (digits_of (unat n)) = Inr (unat n)" by (rule uint_loop_digits)
  then show ?thesis by (simp add: ParseUint_def FormatUint_def)
qed

lemma FormatUint_nonempty [simp]: "FormatUint n \<noteq> []"
  by (simp add: FormatUint_def)

lemma FormatUint_inject: "FormatUint m = FormatUint n \<longleftrightarrow> m = n"
  by (metis ParseUint_FormatUint sum.inject(2))

lemma digits_of_digits: "c \<in> set (digits_of n) \<Longrightarrow> is_digit c"
proof (induction n rule: digits_of.induct)
  case (1 n)
  then show ?case
    by (cases "n < 10") (auto simp: digits_of.simps [of n] digit_char_props)
qed

section \<open>float64\<close>

datatype float64 = Fin rat | PosInf | NegInf | NaN

definition pow2 :: "int \<Rightarrow> rat" where
  "pow2 e = (if 0 \<le> e then 2 ^ nat e else 1 / 2 ^ nat (- e))"

text \<open>The exponent of a positive rational: the largest \<open>e\<close> with \<open>2^e \<le> q\<close>.\<close>

definition exponent2 :: "rat \<Rightarrow> int" where
  "exponent2 q =
     (let (n, d) = quotient_of q; e = bitlen n - bitlen d in if pow2 e \<le> q then e else e - 1)"

definition round_half_even :: "rat \<Rightarrow> int" where
  "round_half_even x =
     (let f = \<lfloor>x\<rfloor>; r = x - of_int f in
      if r < 1 / 2 then f else if 1 / 2 < r then f + 1 else if even f then f else f + 1)"

definition f64_round :: "rat \<Rightarrow> float64" where
  "f64_round q =
     (if q = 0 then Fin 0
      else let a = \<bar>q\<bar>; ulp = pow2 (max (exponent2 a - 52) (- 1074));
               v = of_int (round_half_even (a / ulp)) * ulp in
        if pow2 1024 \<le> v then (if q < 0 then NegInf else PosInf)
        else Fin (if q < 0 then - v else v))"

definition f64_of_u64 :: "u64 \<Rightarrow> float64" where
  "f64_of_u64 n = f64_round (of_int (uint n))"

fun f64_mul :: "float64 \<Rightarrow> float64 \<Rightarrow> float64" where
  "f64_mul (Fin a) (Fin b) = f64_round (a * b)"
| "f64_mul NaN _ = NaN"
| "f64_mul _ NaN = NaN"
| "f64_mul (Fin a) y = (if a = 0 then NaN else if (0 < a) = (y = PosInf) then PosInf else NegInf)"
| "f64_mul x (Fin b) = (if b = 0 then NaN else if (0 < b) = (x = PosInf) then PosInf else NegInf)"
| "f64_mul x y = (if x = y then PosInf else NegInf)"

fun f64_div :: "float64 \<Rightarrow> rat \<Rightarrow> float64" where
  "f64_div (Fin a) b = f64_round (a / b)"
| "f64_div x b = x"

text \<open>
  Conversion to uint64 truncates. Outside the range of uint64 the language leaves the value to the
  implementation; amd64 delivers the sign bit.
\<close>

fun u64_of_f64 :: "float64 \<Rightarrow> u64" where
  "u64_of_f64 (Fin a) =
     (let t = (if 0 \<le> a then \<lfloor>a\<rfloor> else - \<lfloor>- a\<rfloor>) in
      if - (2 ^ 63) \<le> t \<and> t < 2 ^ 64 then word_of_int t else word_of_int (2 ^ 63))"
| "u64_of_f64 _ = word_of_int (2 ^ 63)"

text \<open>A decimal literal: digits, an optional fraction, an optional exponent.\<close>

fun span_digits :: "string \<Rightarrow> string \<times> string" where
  "span_digits [] = ([], [])"
| "span_digits (c # cs) =
     (if is_digit c then (let (ds, r) = span_digits cs in (c # ds, r)) else ([], c # cs))"

definition dec_val :: "string \<Rightarrow> nat" where
  "dec_val ds = foldl (\<lambda>n c. 10 * n + digit_val c) 0 ds"

definition parse_exp :: "string \<Rightarrow> int option" where
  "parse_exp s =
     (case s of
        [] \<Rightarrow> Some 0
      | c # cs \<Rightarrow>
          if lower_char c \<noteq> CHR ''e'' then None
          else let (neg, ds) = (case cs of
                  [] \<Rightarrow> (False, [])
                | d # ds \<Rightarrow> if d = CHR ''-'' then (True, ds)
                           else if d = CHR ''+'' then (False, ds) else (False, cs)) in
            if ds \<noteq> [] \<and> list_all is_digit ds
            then Some (if neg then - int (dec_val ds) else int (dec_val ds)) else None)"

definition pow10 :: "int \<Rightarrow> rat" where
  "pow10 e = (if 0 \<le> e then 10 ^ nat e else 1 / 10 ^ nat (- e))"

definition ParseFloat :: "string \<Rightarrow> num_error + float64" where
  "ParseFloat s =
     (let (neg, s1) = (case s of
             [] \<Rightarrow> (False, [])
           | c # cs \<Rightarrow> if c = CHR ''-'' then (True, cs)
                      else if c = CHR ''+'' then (False, cs) else (False, s));
          (ip, s2) = span_digits s1;
          (fp, s3) = (case s2 of
             [] \<Rightarrow> ([], [])
           | c # cs \<Rightarrow> if c = CHR ''.'' then span_digits cs else ([], s2)) in
      if ip @ fp = [] then Inl ErrSyntax
      else case parse_exp s3 of
        None \<Rightarrow> Inl ErrSyntax
      | Some e \<Rightarrow>
          let q = of_nat (dec_val (ip @ fp)) * pow10 (e - int (length fp));
              f = f64_round (if neg then - q else q) in
          (if f = PosInf \<or> f = NegInf then Inl ErrRange else Inr f))"

end
