(* ===== verification/GoJson.thy ===== *)
theory GoJson
  imports GoStd
begin

text \<open>
  \<^verbatim>\<open>encoding/json\<close> as the lvm client uses it: a document is lexed and parsed into a value, and a value is
  decoded into a struct whose fields are all strings. The lexer is a finite automaton over the
  bytes, the parser a stack machine over the tokens, so both are structurally recursive and need no
  fuel. \<open>render_json\<close> prints the values that consist of objects, arrays and plain strings, the shape
  of an lvm report, and \<open>json_parse_render\<close> is the round trip.
\<close>

datatype json = JNull | JBool bool | JNum string | JStr string
  | JArr "json list" | JObj "(string \<times> json) list"

datatype token = TLBrace | TRBrace | TLBrack | TRBrack | TColon | TComma | TStr string | TWord string

section \<open>Lexer\<close>

text \<open>
  Inside a string the automaton keeps the reversed bytes read so far and a high surrogate that
  waits for its partner; a lone surrogate becomes U+FFFD.
\<close>

datatype lexstate = LNormal | LStr string "nat option" | LEsc string "nat option"
  | LUni string "nat option" "nat list" | LWord string

abbreviation (input) byte :: "nat \<Rightarrow> char" where
  "byte n \<equiv> char_of n"

definition utf8 :: "nat \<Rightarrow> string" where
  "utf8 n =
     (if n < 128 then [byte n]
      else if n < 2048 then [byte (192 + n div 64), byte (128 + n mod 64)]
      else if n < 65536 then [byte (224 + n div 4096), byte (128 + n div 64 mod 64), byte (128 + n mod 64)]
      else [byte (240 + n div 262144), byte (128 + n div 4096 mod 64), byte (128 + n div 64 mod 64),
            byte (128 + n mod 64)])"

definition flush_surrogate :: "string \<Rightarrow> nat option \<Rightarrow> string" where
  "flush_surrogate acc p = (case p of None \<Rightarrow> acc | Some _ \<Rightarrow> rev (utf8 65533) @ acc)"

definition add_unit :: "string \<Rightarrow> nat option \<Rightarrow> nat \<Rightarrow> string \<times> nat option" where
  "add_unit acc p u =
     (if 55296 \<le> u \<and> u < 56320 then (flush_surrogate acc p, Some u)
      else if 56320 \<le> u \<and> u < 57344 then
        (case p of
           Some h \<Rightarrow> (rev (utf8 (65536 + (h - 55296) * 1024 + (u - 56320))) @ acc, None)
         | None \<Rightarrow> (rev (utf8 65533) @ acc, None))
      else (rev (utf8 u) @ flush_surrogate acc p, None))"

definition hex_val :: "char \<Rightarrow> nat option" where
  "hex_val c = (let n = of_char c in
     if 48 \<le> n \<and> n \<le> 57 then Some (n - 48)
     else if 97 \<le> n \<and> n \<le> 102 then Some (n - 87)
     else if 65 \<le> n \<and> n \<le> 70 then Some (n - 55) else None)"

definition escape_char :: "char \<Rightarrow> char option" where
  "escape_char c =
     (if c \<in> {char_of (34::nat), char_of (92::nat), CHR ''/''} then Some c
      else if c = CHR ''b'' then Some (byte 8) else if c = CHR ''f'' then Some (byte 12)
      else if c = CHR ''n'' then Some (byte 10) else if c = CHR ''r'' then Some (byte 13)
      else if c = CHR ''t'' then Some (byte 9) else None)"

definition punct :: "char \<Rightarrow> token list option" where
  "punct c =
     (if of_char c \<in> {9::nat, 10, 13, 32} then Some []
      else if c = CHR ''{'' then Some [TLBrace] else if c = CHR ''}'' then Some [TRBrace]
      else if c = CHR ''['' then Some [TLBrack] else if c = CHR '']'' then Some [TRBrack]
      else if c = CHR '':'' then Some [TColon] else if c = CHR '','' then Some [TComma] else None)"

abbreviation dquote :: char where
  "dquote \<equiv> CHR 0x22"

abbreviation backslash :: char where
  "backslash \<equiv> CHR 0x5C"

fun lex :: "lexstate \<Rightarrow> string \<Rightarrow> token list option" where
  "lex LNormal [] = Some []"
| "lex (LWord acc) [] = Some [TWord (rev acc)]"
| "lex _ [] = None"
| "lex LNormal (c # cs) =
     (case punct c of
        Some ts \<Rightarrow> map_option (\<lambda>r. ts @ r) (lex LNormal cs)
      | None \<Rightarrow> if c = dquote then lex (LStr [] None) cs else lex (LWord [c]) cs)"
| "lex (LWord acc) (c # cs) =
     (case punct c of
        Some ts \<Rightarrow> map_option (\<lambda>r. TWord (rev acc) # ts @ r) (lex LNormal cs)
      | None \<Rightarrow> lex (LWord (c # acc)) cs)"
| "lex (LStr acc p) (c # cs) =
     (if c = dquote
        then map_option (\<lambda>r. TStr (rev (flush_surrogate acc p)) # r) (lex LNormal cs)
      else if c = backslash then lex (LEsc acc p) cs
      else if of_char c < (32::nat) then None
      else lex (LStr (c # flush_surrogate acc p) None) cs)"
| "lex (LEsc acc p) (c # cs) =
     (if c = CHR ''u'' then lex (LUni acc p []) cs
      else case escape_char c of
        Some d \<Rightarrow> lex (LStr (d # flush_surrogate acc p) None) cs
      | None \<Rightarrow> None)"
| "lex (LUni acc p ds) (c # cs) =
     (case hex_val c of
        None \<Rightarrow> None
      | Some d \<Rightarrow>
          if length ds < 3 then lex (LUni acc p (ds @ [d])) cs
          else let (acc', p') = add_unit acc p (foldl (\<lambda>n x. 16 * n + x) 0 (ds @ [d])) in
            lex (LStr acc' p') cs)"

section \<open>Parser\<close>

definition valid_number :: "string \<Rightarrow> bool" where
  "valid_number s =
     (let s1 = TrimPrefix s ''-''; (ip, s2) = span_digits s1;
          (fp_ok, s3) = (case s2 of
             [] \<Rightarrow> (True, [])
           | c # cs \<Rightarrow> if c = CHR ''.'' then (let (f, r) = span_digits cs in (f \<noteq> [], r)) else (True, s2)) in
      ip \<noteq> [] \<and> (hd ip = CHR ''0'' \<longrightarrow> length ip = 1) \<and> fp_ok \<and> parse_exp s3 \<noteq> None)"

definition word_value :: "string \<Rightarrow> json option" where
  "word_value s =
     (if s = ''null'' then Some JNull else if s = ''true'' then Some (JBool True)
      else if s = ''false'' then Some (JBool False)
      else if valid_number s then Some (JNum s) else None)"

datatype frame = FArr "json list" | FObj "(string \<times> json) list" string

datatype pstate = PVal | PValOrEnd | PAfter json | PKey | PKeyOrEnd | PColon

definition value_token :: "token \<Rightarrow> (json + frame) option" where
  "value_token t =
     (case t of
        TStr s \<Rightarrow> Some (Inl (JStr s))
      | TWord s \<Rightarrow> map_option Inl (word_value s)
      | TLBrack \<Rightarrow> Some (Inr (FArr []))
      | TLBrace \<Rightarrow> Some (Inr (FObj [] []))
      | _ \<Rightarrow> None)"

definition max_depth :: nat where
  "max_depth = 10000"

fun pj :: "pstate \<Rightarrow> frame list \<Rightarrow> token list \<Rightarrow> json option" where
  "pj (PAfter j) [] [] = Some j"
| "pj _ _ [] = None"
| "pj PVal st (t # ts) =
     (case value_token t of
        None \<Rightarrow> None
      | Some (Inl j) \<Rightarrow> pj (PAfter j) st ts
      | Some (Inr f) \<Rightarrow>
          if max_depth \<le> length st then None
          else pj (case f of FArr _ \<Rightarrow> PValOrEnd | FObj _ _ \<Rightarrow> PKeyOrEnd) (f # st) ts)"
| "pj PValOrEnd st (t # ts) =
     (if t = TRBrack then pj (PAfter (JArr [])) (tl st) ts
      else case value_token t of
        None \<Rightarrow> None
      | Some (Inl j) \<Rightarrow> pj (PAfter j) st ts
      | Some (Inr f) \<Rightarrow>
          if max_depth \<le> length st then None
          else pj (case f of FArr _ \<Rightarrow> PValOrEnd | FObj _ _ \<Rightarrow> PKeyOrEnd) (f # st) ts)"
| "pj PKey (FObj ms _ # st) (t # ts) =
     (case t of TStr k \<Rightarrow> pj PColon (FObj ms k # st) ts | _ \<Rightarrow> None)"
| "pj PKeyOrEnd (FObj ms _ # st) (t # ts) =
     (case t of
        TStr k \<Rightarrow> pj PColon (FObj ms k # st) ts
      | TRBrace \<Rightarrow> pj (PAfter (JObj (rev ms))) st ts
      | _ \<Rightarrow> None)"
| "pj PColon st (t # ts) = (if t = TColon then pj PVal st ts else None)"
| "pj (PAfter j) (FArr xs # st) (t # ts) =
     (case t of
        TComma \<Rightarrow> pj PVal (FArr (j # xs) # st) ts
      | TRBrack \<Rightarrow> pj (PAfter (JArr (rev (j # xs)))) st ts
      | _ \<Rightarrow> None)"
| "pj (PAfter j) (FObj ms k # st) (t # ts) =
     (case t of
        TComma \<Rightarrow> pj PKey (FObj ((k, j) # ms) k # st) ts
      | TRBrace \<Rightarrow> pj (PAfter (JObj (rev ((k, j) # ms)))) st ts
      | _ \<Rightarrow> None)"
| "pj _ _ (t # ts) = None"

definition json_parse :: "string \<Rightarrow> json option" where
  "json_parse s = (case lex LNormal s of None \<Rightarrow> None | Some ts \<Rightarrow> pj PVal [] ts)"

section \<open>Decoding into structs of strings\<close>

text \<open>
  A key selects the field of that name, else the field whose name it equals up to case. A later
  member overwrites an earlier one, null leaves the field alone, any other kind of value is a type
  error, and a member that matches no field is ignored. Absent fields are the empty string.
\<close>

definition field_for :: "string list \<Rightarrow> string \<Rightarrow> string option" where
  "field_for fs k =
     (if k \<in> set fs then Some k else find (\<lambda>f. ToLower f = ToLower k) fs)"

fun decode_strings :: "string list \<Rightarrow> (string \<times> json) list \<Rightarrow> (string \<Rightarrow> string) \<Rightarrow> (string \<Rightarrow> string) option" where
  "decode_strings fs [] r = Some r"
| "decode_strings fs ((k, v) # ms) r =
     (case field_for fs k of
        None \<Rightarrow> decode_strings fs ms r
      | Some f \<Rightarrow>
          (case v of
             JNull \<Rightarrow> decode_strings fs ms r
           | JStr s \<Rightarrow> decode_strings fs ms (r(f := s))
           | _ \<Rightarrow> None))"

definition decode_row :: "string list \<Rightarrow> json \<Rightarrow> (string \<Rightarrow> string) option" where
  "decode_row fs j =
     (case j of
        JNull \<Rightarrow> Some (\<lambda>_. [])
      | JObj ms \<Rightarrow> decode_strings fs ms (\<lambda>_. [])
      | _ \<Rightarrow> None)"

fun all_some :: "'a option list \<Rightarrow> 'a list option" where
  "all_some [] = Some []"
| "all_some (None # xs) = None"
| "all_some (Some x # xs) = map_option (Cons x) (all_some xs)"

definition decode_array :: "(json \<Rightarrow> 'a option) \<Rightarrow> json \<Rightarrow> 'a list option" where
  "decode_array f j =
     (case j of JNull \<Rightarrow> Some [] | JArr xs \<Rightarrow> all_some (map f xs) | _ \<Rightarrow> None)"

text \<open>A struct with one array field: the last member that matches it wins.\<close>

fun decode_array_field :: "string \<Rightarrow> (json \<Rightarrow> 'a option) \<Rightarrow> (string \<times> json) list \<Rightarrow> 'a list \<Rightarrow> 'a list option" where
  "decode_array_field name f [] r = Some r"
| "decode_array_field name f ((k, v) # ms) r =
     (if field_for [name] k = None then decode_array_field name f ms r
      else case decode_array f v of None \<Rightarrow> None | Some xs \<Rightarrow> decode_array_field name f ms xs)"

definition decode_object :: "string \<Rightarrow> (json \<Rightarrow> 'a option) \<Rightarrow> json \<Rightarrow> 'a list option" where
  "decode_object name f j =
     (case j of JNull \<Rightarrow> Some [] | JObj ms \<Rightarrow> decode_array_field name f ms [] | _ \<Rightarrow> None)"

text \<open>The reports of lvs, vgs and pvs: an array of objects that each hold an array of rows.\<close>

definition Unmarshal_report :: "string \<Rightarrow> string list \<Rightarrow> string \<Rightarrow> (string \<Rightarrow> string) list list option" where
  "Unmarshal_report rows fs output =
     (case json_parse output of
        None \<Rightarrow> None
      | Some j \<Rightarrow> decode_object ''report'' (decode_object rows (decode_row fs)) j)"

section \<open>Rendering and the round trip\<close>

definition quoted :: "string \<Rightarrow> string" where
  "quoted s = dquote # s @ [dquote]"

fun render_json :: "json \<Rightarrow> string" where
  "render_json (JStr s) = quoted s"
| "render_json (JArr xs) = ''['' @ Join (map render_json xs) '','' @ '']''"
| "render_json (JObj ms) =
     ''{'' @ Join (map (\<lambda>m. quoted (fst m) @ '':'' @ render_json (snd m)) ms) '','' @ ''}''"
| "render_json _ = ''null''"

fun commas :: "token list list \<Rightarrow> token list" where
  "commas [] = []"
| "commas [x] = x"
| "commas (x # y # xs) = x @ TComma # commas (y # xs)"

fun json_tokens :: "json \<Rightarrow> token list" where
  "json_tokens (JStr s) = [TStr s]"
| "json_tokens (JArr xs) = TLBrack # commas (map json_tokens xs) @ [TRBrack]"
| "json_tokens (JObj ms) =
     TLBrace # commas (map (\<lambda>m. TStr (fst m) # TColon # json_tokens (snd m)) ms) @ [TRBrace]"
| "json_tokens _ = [TWord ''null'']"

definition plain_char :: "char \<Rightarrow> bool" where
  "plain_char c = (32 \<le> (of_char c :: nat) \<and> c \<noteq> dquote \<and> c \<noteq> backslash)"

fun plain_json :: "json \<Rightarrow> bool" where
  "plain_json (JStr s) = list_all plain_char s"
| "plain_json (JArr xs) = list_all plain_json xs"
| "plain_json (JObj ms) = list_all (\<lambda>m. list_all plain_char (fst m) \<and> plain_json (snd m)) ms"
| "plain_json _ = False"

fun json_height :: "json \<Rightarrow> nat" where
  "json_height (JArr xs) = Suc (fold (\<lambda>x n. max (json_height x) n) xs 0)"
| "json_height (JObj ms) = Suc (fold (\<lambda>m n. max (json_height (snd m)) n) ms 0)"
| "json_height _ = 0"

definition lexes :: "string \<Rightarrow> token list \<Rightarrow> bool" where
  "lexes s ts \<longleftrightarrow> (\<forall>rest. lex LNormal (s @ rest) = map_option (\<lambda>r. ts @ r) (lex LNormal rest))"

lemma lexes_append: "lexes s ts \<Longrightarrow> lexes s' ts' \<Longrightarrow> lexes (s @ s') (ts @ ts')"
  by (auto simp: lexes_def option.map_comp comp_def)

lemma lexes_Nil: "lexes [] []"
  by (simp add: lexes_def option.map_ident)

lemma lexes_punct: "punct c = Some ts \<Longrightarrow> lexes [c] ts"
  by (simp add: lexes_def)

lemma punct_chars:
  "punct CHR ''['' = Some [TLBrack]" "punct CHR '']'' = Some [TRBrack]"
  "punct CHR ''{'' = Some [TLBrace]" "punct CHR ''}'' = Some [TRBrace]"
  "punct CHR '':'' = Some [TColon]" "punct CHR '','' = Some [TComma]"
  "punct dquote = None"
  by (simp_all add: punct_def)

lemma lex_string_body:
  "list_all plain_char s \<Longrightarrow>
   lex (LStr acc None) (s @ dquote # rest) = map_option (\<lambda>r. TStr (rev acc @ s) # r) (lex LNormal rest)"
  by (induction s arbitrary: acc) (auto simp: plain_char_def flush_surrogate_def)

lemma lexes_quoted: "list_all plain_char s \<Longrightarrow> lexes (quoted s) [TStr s]"
  using lex_string_body [of s "[]"] by (simp add: lexes_def quoted_def punct_chars)

lemma lexes_Join:
  assumes "\<And>x. x \<in> set xs \<Longrightarrow> lexes (f x) (g x)"
  shows "lexes (Join (map f xs) '','') (commas (map g xs))"
  using assms
proof (induction xs rule: induct_list012)
  case (3 x y zs)
  have "lexes (f x @ '','' @ Join (map f (y # zs)) '','') (g x @ [TComma] @ commas (map g (y # zs)))"
    using 3 by (intro lexes_append lexes_punct) (auto simp: punct_chars)
  then show ?case by simp
qed (auto simp: lexes_Nil)

lemma lexes_render: "plain_json j \<Longrightarrow> lexes (render_json j) (json_tokens j)"
proof (induction j)
  case (JStr s)
  then show ?case by (simp add: lexes_quoted)
next
  case (JArr xs)
  have "lexes (Join (map render_json xs) '','') (commas (map json_tokens xs))"
    using JArr by (intro lexes_Join) (auto simp: list_all_iff)
  then have "lexes (''['' @ Join (map render_json xs) '','' @ '']'')
    ([TLBrack] @ commas (map json_tokens xs) @ [TRBrack])"
    by (intro lexes_append lexes_punct) (auto simp: punct_chars)
  then show ?case by simp
next
  case (JObj ms)
  have "lexes (quoted (fst m) @ '':'' @ render_json (snd m)) ([TStr (fst m)] @ [TColon] @ json_tokens (snd m))"
    if "m \<in> set ms" for m
    using JObj(1) [of m "snd m"] JObj(2) that
    by (intro lexes_append lexes_punct lexes_quoted)
      (auto simp: punct_chars list_all_iff snds.simps)
  then have "lexes (Join (map (\<lambda>m. quoted (fst m) @ '':'' @ render_json (snd m)) ms) '','')
    (commas (map (\<lambda>m. TStr (fst m) # TColon # json_tokens (snd m)) ms))"
    by (intro lexes_Join) simp
  then have "lexes (''{'' @ Join (map (\<lambda>m. quoted (fst m) @ '':'' @ render_json (snd m)) ms) '','' @ ''}'')
    ([TLBrace] @ commas (map (\<lambda>m. TStr (fst m) # TColon # json_tokens (snd m)) ms) @ [TRBrace])"
    by (intro lexes_append lexes_punct) (auto simp: punct_chars)
  then show ?case by simp
qed auto

definition parses :: "json \<Rightarrow> bool" where
  "parses j \<longleftrightarrow> (\<forall>st rest. length st + json_height j \<le> max_depth \<longrightarrow>
     pj PVal st (json_tokens j @ rest) = pj (PAfter j) st rest)"

lemma pj_PValOrEnd: "hd ts \<noteq> TRBrack \<Longrightarrow> ts \<noteq> [] \<Longrightarrow> pj PValOrEnd st ts = pj PVal st ts"
  by (cases ts) auto

lemma json_tokens_hd: "json_tokens j \<noteq> [] \<and> hd (json_tokens j) \<noteq> TRBrack"
  by (cases j) auto

lemma fold_max_le: "fold (\<lambda>x n. max (h x) n) xs (a::nat) \<le> b \<longleftrightarrow> a \<le> b \<and> (\<forall>x \<in> set xs. h x \<le> b)"
  by (induction xs arbitrary: a) auto

lemma fold_max_ge: "x \<in> set xs \<Longrightarrow> h x \<le> fold (\<lambda>x n. max (h x) n) xs (a::nat)"
  using fold_max_le [of h xs a "fold (\<lambda>x n. max (h x) n) xs a"] by simp

lemma pj_array:
  assumes "xs \<noteq> []" and "\<And>x. x \<in> set xs \<Longrightarrow> parses x"
    and "\<And>x. x \<in> set xs \<Longrightarrow> Suc (length st) + json_height x \<le> max_depth"
  shows "pj PVal (FArr acc # st) (commas (map json_tokens xs) @ TRBrack # rest)
         = pj (PAfter (JArr (rev acc @ xs))) st rest"
  using assms
proof (induction xs arbitrary: acc rule: induct_list012)
  case (2 x)
  then show ?case by (simp add: parses_def)
next
  case (3 x y zs)
  have "pj PVal (FArr acc # st) (json_tokens x @ TComma # commas (map json_tokens (y # zs)) @ TRBrack # rest)
    = pj (PAfter x) (FArr acc # st) (TComma # commas (map json_tokens (y # zs)) @ TRBrack # rest)"
    using 3(4,5) [of x] by (simp add: parses_def)
  also have "\<dots> = pj PVal (FArr (x # acc) # st) (commas (map json_tokens (y # zs)) @ TRBrack # rest)"
    by simp
  also have "\<dots> = pj (PAfter (JArr (rev (x # acc) @ y # zs))) st rest"
    using 3 by (intro "3.IH"(2)) auto
  finally show ?case by simp
qed simp

lemma pj_object:
  assumes "ms \<noteq> []" and "\<And>m. m \<in> set ms \<Longrightarrow> parses (snd m)"
    and "\<And>m. m \<in> set ms \<Longrightarrow> Suc (length st) + json_height (snd m) \<le> max_depth"
  shows "pj PKey (FObj acc k # st)
           (commas (map (\<lambda>m. TStr (fst m) # TColon # json_tokens (snd m)) ms) @ TRBrace # rest)
         = pj (PAfter (JObj (rev acc @ ms))) st rest"
  using assms
proof (induction ms arbitrary: acc k rule: induct_list012)
  case (2 m)
  then show ?case by (cases m) (simp add: parses_def)
next
  case (3 m m' zs)
  let ?ts = "commas (map (\<lambda>m. TStr (fst m) # TColon # json_tokens (snd m)) (m' # zs)) @ TRBrace # rest"
  have "pj PKey (FObj acc k # st) (TStr (fst m) # TColon # json_tokens (snd m) @ TComma # ?ts)
    = pj (PAfter (snd m)) (FObj acc (fst m) # st) (TComma # ?ts)"
    using 3(4,5) [of m] by (simp add: parses_def del: commas.simps)
  also have "\<dots> = pj PKey (FObj (m # acc) (fst m) # st) ?ts"
    by (simp del: commas.simps)
  also have "\<dots> = pj (PAfter (JObj (rev (m # acc) @ m' # zs))) st rest"
    using 3 by (intro "3.IH"(2)) auto
  finally show ?case by simp
qed simp

lemma parses_plain: "plain_json j \<Longrightarrow> parses j"
proof (induction j)
  case (JStr s)
  then show ?case by (simp add: parses_def value_token_def)
next
  case (JArr xs)
  show ?case
    unfolding parses_def
  proof (intro allI impI)
    fix st :: "frame list" and rest
    assume le: "length st + json_height (JArr xs) \<le> max_depth"
    show "pj PVal st (json_tokens (JArr xs) @ rest) = pj (PAfter (JArr xs)) st rest"
    proof (cases "xs = []")
      case True
      with le show ?thesis by (simp add: value_token_def)
    next
      case False
      have "hd (commas (map json_tokens xs) @ TRBrack # rest) \<noteq> TRBrack"
        using False json_tokens_hd by (cases "map json_tokens xs" rule: commas.cases) auto
      moreover have "pj PVal (FArr [] # st) (commas (map json_tokens xs) @ TRBrack # rest)
          = pj (PAfter (JArr (rev [] @ xs))) st rest"
        using JArr le False fold_max_ge [of _ xs json_height 0]
        by (intro pj_array) (fastforce simp: list_all_iff)+
      ultimately show ?thesis
        using le by (simp add: value_token_def pj_PValOrEnd)
    qed
  qed
next
  case (JObj ms)
  show ?case
    unfolding parses_def
  proof (intro allI impI)
    fix st :: "frame list" and rest
    assume le: "length st + json_height (JObj ms) \<le> max_depth"
    show "pj PVal st (json_tokens (JObj ms) @ rest) = pj (PAfter (JObj ms)) st rest"
    proof (cases "ms = []")
      case True
      with le show ?thesis by (simp add: value_token_def)
    next
      case False
      let ?ts = "commas (map (\<lambda>m. TStr (fst m) # TColon # json_tokens (snd m)) ms) @ TRBrace # rest"
      obtain k r where hd: "?ts = TStr k # r"
        using False by (cases "map (\<lambda>m. TStr (fst m) # TColon # json_tokens (snd m)) ms" rule: commas.cases) auto
      then have "pj PKeyOrEnd (FObj [] [] # st) ?ts = pj PKey (FObj [] [] # st) ?ts"
        by (simp del: commas.simps)
      moreover have "pj PKey (FObj [] [] # st) ?ts = pj (PAfter (JObj (rev [] @ ms))) st rest"
        using JObj le False fold_max_ge [of _ ms "\<lambda>m. json_height (snd m)" 0]
        by (intro pj_object) (fastforce simp: list_all_iff snds.simps)+
      ultimately show ?thesis
        using le by (simp add: value_token_def)
    qed
  qed
qed auto

lemma json_parse_render:
  assumes "plain_json j" and "json_height j \<le> max_depth"
  shows "json_parse (render_json j) = Some j"
proof -
  have "lex LNormal (render_json j @ []) = map_option (\<lambda>r. json_tokens j @ r) (lex LNormal [])"
    using lexes_render [OF assms(1)] by (simp only: lexes_def)
  moreover have "pj PVal [] (json_tokens j @ []) = pj (PAfter j) [] []"
    using parses_plain [OF assms(1)] assms(2) unfolding parses_def by (metis add_0 list.size(3))
  ultimately show ?thesis by (simp add: json_parse_def)
qed

end
