(* ===== verification/LvmClient.thy ===== *)
theory LvmClient
  imports GoJson
begin

text \<open>
  The lvm client library, the parts every operation shares: \<^verbatim>\<open>lvm/errors.go\<close>, \<^verbatim>\<open>lvm/options.go\<close>,
  \<^verbatim>\<open>lvm/client.go\<close> and \<^verbatim>\<open>lvm/version.go\<close>. The process runner (a third-party package) and the lvm2
  programs behind it are a parameter: the field \<open>cl_runner\<close> of the client, a function from a command
  line and the state of the host to what the process printed, or how it failed, and the next state.
\<close>

type_synonym Cmd = "string list"

text \<open>A failed run is an exit status with its error output, or a failure to run at all.\<close>

datatype run_failure = RunError int string | RunFailed string

type_synonym 'w runner = "Cmd \<Rightarrow> ('w, run_failure, string) go"

section \<open>errors.go\<close>

datatype lvm_kind = LvmNotFound | LvmAlreadyExists | LvmInUse | LvmNotAllowed | LvmPermission
  | LvmInvalidCommand

text \<open>
  Errors of the package: a classified command failure, an error of the runner passed through, a
  report that does not parse, a number that does not parse, a refusal with a text, and a wrapped
  error with its prefix.
\<close>

datatype lvm_err = LvmError int string "lvm_kind option" | LvmRunner string
  | LvmJson | LvmNum string string num_error | LvmErrorf string | LvmWrap string lvm_err

fun lvm_Error :: "lvm_err \<Rightarrow> string" where
  "lvm_Error (LvmError code stderr kind) = ''lvm exited with '' @ FormatInt code @ '': '' @ stderr"
| "lvm_Error (LvmRunner msg) = msg"
| "lvm_Error LvmJson = ''invalid json''"
| "lvm_Error (LvmNum func s e) = NumError_text func s e"
| "lvm_Error (LvmErrorf msg) = msg"
| "lvm_Error (LvmWrap pre e) = pre @ lvm_Error e"

fun lvm_Is :: "lvm_err \<Rightarrow> lvm_kind \<Rightarrow> bool" where
  "lvm_Is (LvmError code stderr kind) k = (kind = Some k)"
| "lvm_Is (LvmWrap pre e) k = lvm_Is e k"
| "lvm_Is _ k = False"

definition invalidCommandExitCode :: int where
  "invalidCommandExitCode = 3"

definition stderrPatterns :: "(string \<times> lvm_kind) list" where
  "stderrPatterns =
     [(''Permission denied'', LvmPermission),
      ('': device not found'', LvmNotFound),
      (''is not in devices file'', LvmNotFound),
      (CHR 0x22 # '' not found'', LvmNotFound),
      (''already exists'', LvmAlreadyExists),
      (''is already in volume group'', LvmAlreadyExists),
      (''is used by VG'', LvmInUse),
      (''is not resizeable'', LvmNotAllowed),
      (''without -ff'', LvmInUse)]"

fun first_pattern :: "(string \<times> lvm_kind) list \<Rightarrow> string \<Rightarrow> lvm_kind option" where
  "first_pattern [] stderr = None"
| "first_pattern ((sub, kind) # ps) stderr =
     (if Contains stderr sub then Some kind else first_pattern ps stderr)"

definition classify :: "int \<Rightarrow> string \<Rightarrow> lvm_kind option" where
  "classify exitCode stderr =
     (if exitCode = invalidCommandExitCode then Some LvmInvalidCommand
      else first_pattern stderrPatterns stderr)"

section \<open>options.go\<close>

type_synonym Device = string

text \<open>A nil slice of devices and an empty one differ, so the field is an option.\<close>

record CommonOptions =
  co_Devices :: "Device list option"
  co_Autobackup :: "bool option"

definition no_common :: CommonOptions where
  "no_common = \<lparr>co_Devices = None, co_Autobackup = None\<rparr>"

datatype Selector = SelDevice Device | SelName string | SelSelect string | SelAll | SelNil

type_synonym PercentBase = string

definition PercentVG :: PercentBase where "PercentVG = ''VG''"
definition PercentFree :: PercentBase where "PercentFree = ''FREE''"
definition PercentPVS :: PercentBase where "PercentPVS = ''PVS''"
definition PercentOrigin :: PercentBase where "PercentOrigin = ''ORIGIN''"

datatype Size = sizeBytes u64 | sizeExtents u64 | sizePercent u64 PercentBase
  | relativeSize Size string

fun sizeArg :: "Size \<Rightarrow> string \<times> string" where
  "sizeArg (sizeBytes s) = (''-L'', FormatUint s @ ''b'')"
| "sizeArg (sizeExtents s) = (''-l'', FormatUint s)"
| "sizeArg (sizePercent p base) = (''-l'', FormatUint p @ ''%'' @ base)"
| "sizeArg (relativeSize inner sign) = (let (flag, v) = sizeArg inner in (flag, sign @ v))"

fun direction :: "Size \<Rightarrow> int" where
  "direction (relativeSize inner sign) = (if sign = ''+'' then 1 else -1)"
| "direction _ = 0"

fun absolute :: "Size \<Rightarrow> Size" where
  "absolute (relativeSize inner sign) = inner"
| "absolute s = s"

definition Bytes :: "u64 \<Rightarrow> Size" where
  "Bytes n = sizeBytes n"

definition Extents :: "u64 \<Rightarrow> Size" where
  "Extents n = sizeExtents n"

definition Percent :: "u64 \<Rightarrow> PercentBase \<Rightarrow> Size" where
  "Percent percent base = sizePercent percent base"

definition GrowBy :: "Size \<Rightarrow> Size" where
  "GrowBy s = relativeSize (absolute s) ''+''"

definition ShrinkBy :: "Size \<Rightarrow> Size" where
  "ShrinkBy s = relativeSize (absolute s) ''-''"

section \<open>client.go\<close>

record 'w Client =
  cl_runner :: "'w runner"
  cl_devices :: "Device list"
  cl_autobackup :: "bool option"

definition WithRunner :: "'w runner \<Rightarrow> 'w Client \<Rightarrow> 'w Client" where
  "WithRunner r c = c\<lparr>cl_runner := r\<rparr>"

definition WithDevices :: "Device list \<Rightarrow> 'w Client \<Rightarrow> 'w Client" where
  "WithDevices devices c = c\<lparr>cl_devices := devices\<rparr>"

definition WithAutobackup :: "bool \<Rightarrow> 'w Client \<Rightarrow> 'w Client" where
  "WithAutobackup enabled c = c\<lparr>cl_autobackup := Some enabled\<rparr>"

text \<open>The first argument is the runner of this host, used unless an option substitutes another.\<close>

definition New :: "'w runner \<Rightarrow> ('w Client \<Rightarrow> 'w Client) list \<Rightarrow> 'w Client" where
  "New host opts =
     foldl (\<lambda>c opt. opt c) \<lparr>cl_runner = host, cl_devices = [], cl_autobackup = None\<rparr> opts"

definition errAutobackupNotSupported :: lvm_err where
  "errAutobackupNotSupported =
     LvmErrorf ''this operation does not change metadata and does not support Autobackup''"

definition client_run :: "'w Client \<Rightarrow> Cmd \<Rightarrow> ('w, lvm_err, string) go" where
  "client_run c cmd w =
     (case cl_runner c cmd w of
        (Inl (RunError code stderr), w') \<Rightarrow> (Inl (LvmError code stderr (classify code stderr)), w')
      | (Inl (RunFailed msg), w') \<Rightarrow> (Inl (LvmRunner msg), w')
      | (Inr output, w') \<Rightarrow> (Inr output, w'))"

definition appendSelector :: "Cmd \<Rightarrow> Selector \<Rightarrow> string \<Rightarrow> lvm_err + Cmd" where
  "appendSelector cmd target allFlag =
     (case target of
        SelDevice t \<Rightarrow> Inr (cmd @ [t])
      | SelName t \<Rightarrow> Inr (cmd @ [t])
      | SelSelect t \<Rightarrow> Inr (cmd @ [''-S'', t])
      | SelAll \<Rightarrow> if allFlag = [] then Inr cmd else Inr (cmd @ [allFlag])
      | SelNil \<Rightarrow> Inl (LvmErrorf ''nil selector, want Device, Name, Select or All''))"

definition lvm_command :: "'w Client \<Rightarrow> string \<Rightarrow> CommonOptions \<Rightarrow> Cmd" where
  "lvm_command c subcommand common =
     (let devices = (case co_Devices common of None \<Rightarrow> cl_devices c | Some ds \<Rightarrow> ds) in
      [''lvm'', subcommand] @ (if devices = [] then [] else [''--devices'', Join devices '','']))"

definition flagValue :: "bool \<Rightarrow> string" where
  "flagValue v = (if v then ''y'' else ''n'')"

definition metadataCommand :: "'w Client \<Rightarrow> string \<Rightarrow> CommonOptions \<Rightarrow> Cmd" where
  "metadataCommand c subcommand common =
     (let autobackup = (case co_Autobackup common of None \<Rightarrow> cl_autobackup c | Some b \<Rightarrow> Some b) in
      lvm_command c subcommand common @
        (case autobackup of None \<Rightarrow> [] | Some b \<Rightarrow> [''-A'', flagValue b]))"

text \<open>The shapes in which the operations append an optional argument.\<close>

definition flag_tags :: "string \<Rightarrow> string list \<Rightarrow> Cmd" where
  "flag_tags f ts = concat (map (\<lambda>t. [f, t]) ts)"

definition flag_bool :: "string \<Rightarrow> bool option \<Rightarrow> Cmd" where
  "flag_bool f ob = (case ob of None \<Rightarrow> [] | Some b \<Rightarrow> [f, flagValue b])"

definition flag_str :: "string \<Rightarrow> string \<Rightarrow> Cmd" where
  "flag_str f s = (if s = [] then [] else [f, s])"

definition flag_if :: "string \<Rightarrow> bool \<Rightarrow> Cmd" where
  "flag_if f b = (if b then [f] else [])"

definition flag_size :: "string \<Rightarrow> u64 \<Rightarrow> Cmd" where
  "flag_size f n = (if n > 0 then [f, FormatUint n @ ''b''] else [])"

definition flag_num :: "string \<Rightarrow> u64 \<Rightarrow> Cmd" where
  "flag_num f n = (if n > 0 then [f, FormatUint n] else [])"

definition flag_onum :: "string \<Rightarrow> u64 option \<Rightarrow> Cmd" where
  "flag_onum f on = (case on of None \<Rightarrow> [] | Some n \<Rightarrow> [f, FormatUint n])"

definition arg_if :: "string \<Rightarrow> Cmd" where
  "arg_if s = (if s = [] then [] else [s])"

text \<open>How the change operations count the properties that are set.\<close>

definition one_if :: "bool \<Rightarrow> nat" where
  "one_if b = (if b then 1 else 0)"

text \<open>Run a command for its effect, and wrap its failure.\<close>

definition run_unit :: "'w Client \<Rightarrow> string \<Rightarrow> Cmd \<Rightarrow> ('w, lvm_err, unit) go" where
  "run_unit c what cmd = seqE (mapErr (LvmWrap (what @ '': '')) (client_run c cmd)) (\<lambda>_. ret ())"

definition run_output :: "'w Client \<Rightarrow> string \<Rightarrow> Cmd \<Rightarrow> ('w, lvm_err, string) go" where
  "run_output c what cmd = mapErr (LvmWrap (what @ '': '')) (client_run c cmd)"

text \<open>Operations addressed through a selector.\<close>

definition run_selected :: "'w Client \<Rightarrow> string \<Rightarrow> Cmd \<Rightarrow> Selector \<Rightarrow> string \<Rightarrow> ('w, lvm_err, unit) go" where
  "run_selected c what cmd target allFlag =
     (case appendSelector cmd target allFlag of
        Inl e \<Rightarrow> fail e
      | Inr cmd' \<Rightarrow> run_unit c what cmd')"

text \<open>The \<^verbatim>\<open>%v\<close> verb on a selector.\<close>

definition fmt_Selector :: "Selector \<Rightarrow> string" where
  "fmt_Selector t =
     (case t of SelDevice s \<Rightarrow> s | SelName s \<Rightarrow> s | SelSelect s \<Rightarrow> s | SelAll \<Rightarrow> ''{}'' | SelNil \<Rightarrow> ''<nil>'')"

definition read_only :: "CommonOptions \<Rightarrow> ('w, lvm_err, 'a) go \<Rightarrow> ('w, lvm_err, 'a) go" where
  "read_only common m = (if co_Autobackup common \<noteq> None then fail errAutobackupNotSupported else m)"

section \<open>version.go\<close>

record Version =
  ver_LVM :: string
  ver_Library :: string
  ver_Driver :: string

fun version_lines :: "string list \<Rightarrow> Version \<Rightarrow> Version" where
  "version_lines [] v = v"
| "version_lines (line # rest) v =
     (case Cut line CHR '':'' of
        None \<Rightarrow> version_lines rest v
      | Some (key, val) \<Rightarrow>
          version_lines rest
            (if TrimSpace key = ''LVM version'' then v\<lparr>ver_LVM := TrimSpace val\<rparr>
             else if TrimSpace key = ''Library version'' then v\<lparr>ver_Library := TrimSpace val\<rparr>
             else if TrimSpace key = ''Driver version'' then v\<lparr>ver_Driver := TrimSpace val\<rparr>
             else v))"

type_synonym VersionOptions = CommonOptions

definition GetVersion :: "'w Client \<Rightarrow> VersionOptions \<Rightarrow> ('w, lvm_err, Version) go" where
  "GetVersion c opts =
     read_only opts
       (seqE (run_output c ''reading lvm version'' (lvm_command c ''version'' opts)) (\<lambda>output.
        ret (version_lines (Split (char_of (10::nat)) output)
               \<lparr>ver_LVM = [], ver_Library = [], ver_Driver = []\<rparr>)))"

section \<open>Properties of the shared parts\<close>

lemma client_run_cases:
  assumes "client_run c cmd w = (r, w')"
  obtains (ok) out where "cl_runner c cmd w = (Inr out, w')" and "r = Inr out"
  | (err) f e where "cl_runner c cmd w = (Inl f, w')" and "r = Inl e"
  using assms by (auto simp: client_run_def split: prod.splits sum.splits run_failure.splits)

lemma run_unit_cases:
  assumes "run_unit c what cmd w = (r, w')"
  obtains (ok) out where "cl_runner c cmd w = (Inr out, w')" and "r = Inr ()"
  | (err) f e where "cl_runner c cmd w = (Inl f, w')" and "r = Inl e"
  using assms unfolding run_unit_def
  by (auto elim!: seqE_cases mapErr_cases client_run_cases)

lemma run_output_cases:
  assumes "run_output c what cmd w = (r, w')"
  obtains (ok) out where "cl_runner c cmd w = (Inr out, w')" and "r = Inr out"
  | (err) f e where "cl_runner c cmd w = (Inl f, w')" and "r = Inl e"
  using assms unfolding run_output_def
  by (auto elim!: mapErr_cases client_run_cases)

lemma first_pattern_Some_iff:
  "first_pattern ps s = Some k \<longleftrightarrow>
   (\<exists>i < length ps. Contains s (fst (ps ! i)) \<and> snd (ps ! i) = k \<and>
      (\<forall>j < i. \<not> Contains s (fst (ps ! j))))"
proof (induction ps)
  case (Cons p ps)
  show ?case
  proof (cases "Contains s (fst p)")
    case True
    then show ?thesis
      by (cases p) (auto simp: All_less_Suc2 Ex_less_Suc2)
  next
    case False
    have "first_pattern (p # ps) s = first_pattern ps s"
      using False by (cases p) simp
    then show ?thesis
      using Cons False by (auto simp: Ex_less_Suc2 All_less_Suc2)
  qed
qed simp

lemma first_pattern_None_iff:
  "first_pattern ps s = None \<longleftrightarrow> (\<forall>p \<in> set ps. \<not> Contains s (fst p))"
  by (induction ps) (auto split: prod.splits if_splits)

end
