(* ===== verification/LvmLv.thy ===== *)
theory LvmLv
  imports LvmClient
begin

text \<open>
  Logical volumes: \<^verbatim>\<open>lvm/lv.go\<close>. Each operation renders its options into one command line, in the
  order the source appends the arguments, and runs it. \<open>parseLVReport\<close> reads the json report of
  \<^verbatim>\<open>lvs\<close>. Fields of the option structs carry a prefix that names their struct.
\<close>

type_synonym Permission = string
type_synonym Discards = string
type_synonym Readahead = string
type_synonym AllocationPolicy = string

definition PermissionReadWrite :: Permission where "PermissionReadWrite = ''rw''"
definition PermissionReadOnly :: Permission where "PermissionReadOnly = ''r''"
definition DiscardsIgnore :: Discards where "DiscardsIgnore = ''ignore''"
definition DiscardsNoPassdown :: Discards where "DiscardsNoPassdown = ''nopassdown''"
definition DiscardsPassdown :: Discards where "DiscardsPassdown = ''passdown''"
definition ReadaheadAuto :: Readahead where "ReadaheadAuto = ''auto''"
definition ReadaheadNone :: Readahead where "ReadaheadNone = ''none''"

definition ReadaheadSectors :: "u64 \<Rightarrow> Readahead" where
  "ReadaheadSectors sectors = FormatUint sectors"

record LogicalVolume =
  lv_Name :: string
  lv_UUID :: string
  lv_VolumeGroup :: string
  lv_SizeBytes :: u64
  lv_MetadataSizeBytes :: u64
  lv_ChunkSizeBytes :: u64
  lv_Attributes :: string
  lv_Tags :: "string list"
  lv_Pool :: string
  lv_Origin :: string
  lv_Path :: string
  lv_DevicePath :: string
  lv_DataPercent :: float64
  lv_MetadataPercent :: float64
  lv_Active :: bool
  lv_Layout :: "string list"

section \<open>Creation\<close>

record CreateLogicalVolumeOptions =
  clv_Common :: CommonOptions
  clv_AddTags :: "string list"
  clv_Activate :: "bool option"
  clv_Permission :: Permission
  clv_Readahead :: Readahead
  clv_Contiguous :: "bool option"
  clv_Allocation :: AllocationPolicy
  clv_SetActivationSkip :: "bool option"
  clv_IgnoreActivationSkip :: bool
  clv_SetAutoactivation :: "bool option"
  clv_Zero :: "bool option"
  clv_WipeSignatures :: "bool option"

definition CreateLogicalVolume ::
  "'w Client \<Rightarrow> string \<Rightarrow> string \<Rightarrow> u64 \<Rightarrow> CreateLogicalVolumeOptions \<Rightarrow> ('w, lvm_err, unit) go" where
  "CreateLogicalVolume c vg name n opts =
     run_unit c (''creating logical volume '' @ vg @ ''/'' @ name)
       (metadataCommand c ''lvcreate'' (clv_Common opts) @
        [''-L'', FormatUint n @ ''b'', ''-n'', name] @
        flag_tags ''--addtag'' (clv_AddTags opts) @
        flag_bool ''-a'' (clv_Activate opts) @
        flag_str ''-p'' (clv_Permission opts) @
        flag_str ''-r'' (clv_Readahead opts) @
        flag_bool ''-C'' (clv_Contiguous opts) @
        flag_str ''--alloc'' (clv_Allocation opts) @
        flag_bool ''-k'' (clv_SetActivationSkip opts) @
        flag_if ''-K'' (clv_IgnoreActivationSkip opts) @
        flag_bool ''--setautoactivation'' (clv_SetAutoactivation opts) @
        flag_bool ''-Z'' (clv_Zero opts) @
        flag_bool ''-W'' (clv_WipeSignatures opts) @
        [vg])"

record CreateThinPoolOptions =
  ctp_Common :: CommonOptions
  ctp_AddTags :: "string list"
  ctp_ChunkSizeBytes :: u64
  ctp_MetadataSizeBytes :: u64
  ctp_Activate :: "bool option"
  ctp_Permission :: Permission
  ctp_Readahead :: Readahead
  ctp_Contiguous :: "bool option"
  ctp_Allocation :: AllocationPolicy
  ctp_SetActivationSkip :: "bool option"
  ctp_IgnoreActivationSkip :: bool
  ctp_SetAutoactivation :: "bool option"
  ctp_Zero :: "bool option"
  ctp_Discards :: Discards
  ctp_ErrorWhenFull :: "bool option"
  ctp_PoolMetadataSpare :: "bool option"

definition CreateThinPool ::
  "'w Client \<Rightarrow> string \<Rightarrow> string \<Rightarrow> u64 \<Rightarrow> CreateThinPoolOptions \<Rightarrow> ('w, lvm_err, unit) go" where
  "CreateThinPool c vg name n opts =
     run_unit c (''creating thin pool '' @ vg @ ''/'' @ name)
       (metadataCommand c ''lvcreate'' (ctp_Common opts) @
        [''--type'', ''thin-pool'', ''-L'', FormatUint n @ ''b'', ''-n'', name] @
        flag_tags ''--addtag'' (ctp_AddTags opts) @
        flag_size ''-c'' (ctp_ChunkSizeBytes opts) @
        flag_size ''--poolmetadatasize'' (ctp_MetadataSizeBytes opts) @
        flag_bool ''-a'' (ctp_Activate opts) @
        flag_str ''-p'' (ctp_Permission opts) @
        flag_str ''-r'' (ctp_Readahead opts) @
        flag_bool ''-C'' (ctp_Contiguous opts) @
        flag_str ''--alloc'' (ctp_Allocation opts) @
        flag_bool ''-k'' (ctp_SetActivationSkip opts) @
        flag_if ''-K'' (ctp_IgnoreActivationSkip opts) @
        flag_bool ''--setautoactivation'' (ctp_SetAutoactivation opts) @
        flag_bool ''-Z'' (ctp_Zero opts) @
        flag_str ''--discards'' (ctp_Discards opts) @
        flag_bool ''--errorwhenfull'' (ctp_ErrorWhenFull opts) @
        flag_bool ''--poolmetadataspare'' (ctp_PoolMetadataSpare opts) @
        [vg])"

record CreateThinVolumeOptions =
  ctv_Common :: CommonOptions
  ctv_AddTags :: "string list"
  ctv_Activate :: "bool option"
  ctv_Permission :: Permission
  ctv_Readahead :: Readahead
  ctv_Contiguous :: "bool option"
  ctv_Allocation :: AllocationPolicy
  ctv_SetActivationSkip :: "bool option"
  ctv_IgnoreActivationSkip :: bool
  ctv_SetAutoactivation :: "bool option"
  ctv_Zero :: "bool option"
  ctv_WipeSignatures :: "bool option"

definition CreateThinVolume ::
  "'w Client \<Rightarrow> string \<Rightarrow> string \<Rightarrow> string \<Rightarrow> u64 \<Rightarrow> CreateThinVolumeOptions \<Rightarrow> ('w, lvm_err, unit) go" where
  "CreateThinVolume c vg pool name virtualSizeBytes opts =
     run_unit c (''creating thin volume '' @ vg @ ''/'' @ name)
       (metadataCommand c ''lvcreate'' (ctv_Common opts) @
        [''--type'', ''thin'', ''--thinpool'', pool, ''-V'', FormatUint virtualSizeBytes @ ''b'', ''-n'', name] @
        flag_tags ''--addtag'' (ctv_AddTags opts) @
        flag_bool ''-a'' (ctv_Activate opts) @
        flag_str ''-p'' (ctv_Permission opts) @
        flag_str ''-r'' (ctv_Readahead opts) @
        flag_bool ''-C'' (ctv_Contiguous opts) @
        flag_str ''--alloc'' (ctv_Allocation opts) @
        flag_bool ''-k'' (ctv_SetActivationSkip opts) @
        flag_if ''-K'' (ctv_IgnoreActivationSkip opts) @
        flag_bool ''--setautoactivation'' (ctv_SetAutoactivation opts) @
        flag_bool ''-Z'' (ctv_Zero opts) @
        flag_bool ''-W'' (ctv_WipeSignatures opts) @
        [vg])"

record CreateSnapshotOptions =
  cs_Common :: CommonOptions
  cs_AddTags :: "string list"
  cs_ChunkSizeBytes :: u64
  cs_Activate :: "bool option"
  cs_Permission :: Permission
  cs_Readahead :: Readahead
  cs_Contiguous :: "bool option"
  cs_Allocation :: AllocationPolicy
  cs_SetActivationSkip :: "bool option"
  cs_IgnoreActivationSkip :: bool
  cs_SetAutoactivation :: "bool option"

definition lvm_CreateSnapshot ::
  "'w Client \<Rightarrow> string \<Rightarrow> string \<Rightarrow> string \<Rightarrow> u64 \<Rightarrow> CreateSnapshotOptions \<Rightarrow> ('w, lvm_err, unit) go" where
  "lvm_CreateSnapshot c vg origin name n opts =
     run_unit c (''creating snapshot '' @ vg @ ''/'' @ name @ '' of '' @ origin)
       (metadataCommand c ''lvcreate'' (cs_Common opts) @
        [''-s'', ''-L'', FormatUint n @ ''b'', ''-n'', name] @
        flag_tags ''--addtag'' (cs_AddTags opts) @
        flag_size ''-c'' (cs_ChunkSizeBytes opts) @
        flag_bool ''-a'' (cs_Activate opts) @
        flag_str ''-p'' (cs_Permission opts) @
        flag_str ''-r'' (cs_Readahead opts) @
        flag_bool ''-C'' (cs_Contiguous opts) @
        flag_str ''--alloc'' (cs_Allocation opts) @
        flag_bool ''-k'' (cs_SetActivationSkip opts) @
        flag_if ''-K'' (cs_IgnoreActivationSkip opts) @
        flag_bool ''--setautoactivation'' (cs_SetAutoactivation opts) @
        [vg @ ''/'' @ origin])"

record CreateThinSnapshotOptions =
  cts_Common :: CommonOptions
  cts_AddTags :: "string list"
  cts_Pool :: string
  cts_Activate :: "bool option"
  cts_Permission :: Permission
  cts_Readahead :: Readahead
  cts_Contiguous :: "bool option"
  cts_Allocation :: AllocationPolicy
  cts_SetActivationSkip :: "bool option"
  cts_IgnoreActivationSkip :: bool
  cts_SetAutoactivation :: "bool option"

definition CreateThinSnapshot ::
  "'w Client \<Rightarrow> string \<Rightarrow> string \<Rightarrow> string \<Rightarrow> CreateThinSnapshotOptions \<Rightarrow> ('w, lvm_err, unit) go" where
  "CreateThinSnapshot c vg origin name opts =
     run_unit c (''creating thin snapshot '' @ vg @ ''/'' @ name @ '' of '' @ origin)
       (metadataCommand c ''lvcreate'' (cts_Common opts) @
        [''-s'', ''-n'', name] @
        flag_tags ''--addtag'' (cts_AddTags opts) @
        flag_str ''--thinpool'' (cts_Pool opts) @
        flag_bool ''-a'' (cts_Activate opts) @
        flag_str ''-p'' (cts_Permission opts) @
        flag_str ''-r'' (cts_Readahead opts) @
        flag_bool ''-C'' (cts_Contiguous opts) @
        flag_str ''--alloc'' (cts_Allocation opts) @
        flag_bool ''-k'' (cts_SetActivationSkip opts) @
        flag_if ''-K'' (cts_IgnoreActivationSkip opts) @
        flag_bool ''--setautoactivation'' (cts_SetAutoactivation opts) @
        [vg @ ''/'' @ origin])"

section \<open>The lvs report\<close>

record rawLV =
  raw_Name :: string
  raw_UUID :: string
  raw_VG :: string
  raw_Size :: string
  raw_MetadataSize :: string
  raw_ChunkSize :: string
  raw_Attr :: string
  raw_Tags :: string
  raw_Pool :: string
  raw_Origin :: string
  raw_Path :: string
  raw_DMPath :: string
  raw_DataPercent :: string
  raw_MetadataPercent :: string
  raw_Active :: string
  raw_Layout :: string

definition lv_fields :: "string list" where
  "lv_fields =
     [''lv_name'', ''lv_uuid'', ''vg_name'', ''lv_size'', ''lv_metadata_size'', ''chunk_size'',
      ''lv_attr'', ''lv_tags'', ''pool_lv'', ''origin'', ''lv_path'', ''lv_dm_path'', ''data_percent'',
      ''metadata_percent'', ''lv_active'', ''lv_layout'']"

definition rawLV_of :: "(string \<Rightarrow> string) \<Rightarrow> rawLV" where
  "rawLV_of f =
     \<lparr>raw_Name = f ''lv_name'', raw_UUID = f ''lv_uuid'', raw_VG = f ''vg_name'',
      raw_Size = f ''lv_size'', raw_MetadataSize = f ''lv_metadata_size'',
      raw_ChunkSize = f ''chunk_size'', raw_Attr = f ''lv_attr'', raw_Tags = f ''lv_tags'',
      raw_Pool = f ''pool_lv'', raw_Origin = f ''origin'', raw_Path = f ''lv_path'',
      raw_DMPath = f ''lv_dm_path'', raw_DataPercent = f ''data_percent'',
      raw_MetadataPercent = f ''metadata_percent'', raw_Active = f ''lv_active'',
      raw_Layout = f ''lv_layout''\<rparr>"

definition flattenLVReport :: "rawLV list list \<Rightarrow> rawLV list" where
  "flattenLVReport report = concat report"

definition splitList :: "string \<Rightarrow> string list" where
  "splitList v = (if v = [] then [] else Split CHR '','' v)"

definition parsePercent :: "string \<Rightarrow> num_error + float64" where
  "parsePercent v = (if v = [] then Inr (Fin 0) else ParseFloat v)"

text \<open>An empty size is zero; another is a number or an error that names the field.\<close>

definition parse_size :: "string \<Rightarrow> rawLV \<Rightarrow> string \<Rightarrow> lvm_err + u64" where
  "parse_size what lv v =
     (if v = [] then Inr 0
      else case ParseUint v of
        Inl e \<Rightarrow> Inl (LvmWrap (''parsing '' @ what @ '' of '' @ raw_VG lv @ ''/'' @ raw_Name lv @ '': '')
                    (LvmNum ''ParseUint'' v e))
      | Inr n \<Rightarrow> Inr n)"

definition parse_percent :: "string \<Rightarrow> rawLV \<Rightarrow> string \<Rightarrow> lvm_err + float64" where
  "parse_percent what lv v =
     (case parsePercent v of
        Inl e \<Rightarrow> Inl (LvmWrap (''parsing '' @ what @ '' of '' @ raw_VG lv @ ''/'' @ raw_Name lv @ '': '')
                    (LvmNum ''ParseFloat'' v e))
      | Inr p \<Rightarrow> Inr p)"

definition parse_raw_lv :: "rawLV \<Rightarrow> lvm_err + LogicalVolume" where
  "parse_raw_lv lv =
     (case parse_size ''size'' lv (raw_Size lv) of Inl e \<Rightarrow> Inl e | Inr n \<Rightarrow>
      case parse_size ''metadata size'' lv (raw_MetadataSize lv) of Inl e \<Rightarrow> Inl e | Inr metadataSize \<Rightarrow>
      case parse_size ''chunk size'' lv (raw_ChunkSize lv) of Inl e \<Rightarrow> Inl e | Inr chunkSize \<Rightarrow>
      case parse_percent ''data percent'' lv (raw_DataPercent lv) of Inl e \<Rightarrow> Inl e | Inr dataPercent \<Rightarrow>
      case parse_percent ''metadata percent'' lv (raw_MetadataPercent lv) of
        Inl e \<Rightarrow> Inl e
      | Inr metadataPercent \<Rightarrow>
          Inr \<lparr>lv_Name = raw_Name lv, lv_UUID = raw_UUID lv, lv_VolumeGroup = raw_VG lv,
               lv_SizeBytes = n, lv_MetadataSizeBytes = metadataSize, lv_ChunkSizeBytes = chunkSize,
               lv_Attributes = raw_Attr lv, lv_Tags = splitList (raw_Tags lv), lv_Pool = raw_Pool lv,
               lv_Origin = raw_Origin lv, lv_Path = raw_Path lv, lv_DevicePath = raw_DMPath lv,
               lv_DataPercent = dataPercent, lv_MetadataPercent = metadataPercent,
               lv_Active = (raw_Active lv = ''1'' \<or> raw_Active lv = ''active''),
               lv_Layout = splitList (raw_Layout lv)\<rparr>)"

fun parse_each :: "('r \<Rightarrow> 'e + 'a) \<Rightarrow> 'r list \<Rightarrow> 'e + 'a list" where
  "parse_each f [] = Inr []"
| "parse_each f (x # xs) =
     (case f x of
        Inl e \<Rightarrow> Inl e
      | Inr y \<Rightarrow> (case parse_each f xs of Inl e \<Rightarrow> Inl e | Inr ys \<Rightarrow> Inr (y # ys)))"

definition parseLVReport :: "string \<Rightarrow> lvm_err + LogicalVolume list" where
  "parseLVReport out =
     (case Unmarshal_report ''lv'' lv_fields out of
        None \<Rightarrow> Inl (LvmWrap ''parsing lvs report: '' LvmJson)
      | Some report \<Rightarrow> parse_each parse_raw_lv (flattenLVReport (map (map rawLV_of) report)))"

record ListLogicalVolumesOptions =
  llv_Common :: CommonOptions
  llv_VG :: string
  llv_Select :: string
  llv_All :: bool
  llv_History :: bool

definition ListLogicalVolumes ::
  "'w Client \<Rightarrow> ListLogicalVolumesOptions \<Rightarrow> ('w, lvm_err, LogicalVolume list) go" where
  "ListLogicalVolumes c opts =
     read_only (llv_Common opts)
       (seqE (run_output c ''listing logical volumes''
          (lvm_command c ''lvs'' (llv_Common opts) @
           [''--reportformat'', ''json'', ''--units'', ''b'', ''--nosuffix'', ''--binary'', ''-o'',
            ''lv_name,lv_uuid,vg_name,lv_size,lv_metadata_size,chunk_size,lv_attr,lv_tags,pool_lv,origin,'' @
            ''lv_path,lv_dm_path,data_percent,metadata_percent,lv_active,lv_layout''] @
           flag_if ''-a'' (llv_All opts) @
           flag_if ''-H'' (llv_History opts) @
           flag_str ''-S'' (llv_Select opts) @
           arg_if (llv_VG opts)))
        (\<lambda>out w. (parseLVReport out, w)))"

section \<open>Removal and changes\<close>

record RemoveLogicalVolumeOptions =
  rlv_Common :: CommonOptions
  rlv_Force :: bool
  rlv_NoHistory :: bool

definition RemoveLogicalVolume ::
  "'w Client \<Rightarrow> Selector \<Rightarrow> RemoveLogicalVolumeOptions \<Rightarrow> ('w, lvm_err, unit) go" where
  "RemoveLogicalVolume c target opts =
     read_only (rlv_Common opts)
       (run_selected c (''removing logical volumes '' @ fmt_Selector target)
          (lvm_command c ''lvremove'' (rlv_Common opts) @
           flag_if ''-f'' (rlv_Force opts) @
           flag_if ''--nohistory'' (rlv_NoHistory opts))
          target [])"

record ChangeLogicalVolumeOptions =
  chl_Common :: CommonOptions
  chl_AddTags :: "string list"
  chl_RemoveTags :: "string list"
  chl_Permission :: Permission
  chl_Contiguous :: "bool option"
  chl_Zero :: "bool option"
  chl_Discards :: Discards
  chl_ErrorWhenFull :: "bool option"
  chl_SetActivationSkip :: "bool option"
  chl_Readahead :: Readahead
  chl_Allocation :: AllocationPolicy
  chl_SetAutoactivation :: "bool option"

definition lv_properties :: "ChangeLogicalVolumeOptions \<Rightarrow> nat" where
  "lv_properties opts =
     length (chl_AddTags opts) + length (chl_RemoveTags opts) +
     one_if (chl_Permission opts \<noteq> []) + one_if (chl_Contiguous opts \<noteq> None) +
     one_if (chl_Zero opts \<noteq> None) + one_if (chl_Discards opts \<noteq> []) +
     one_if (chl_ErrorWhenFull opts \<noteq> None) + one_if (chl_SetActivationSkip opts \<noteq> None) +
     one_if (chl_Readahead opts \<noteq> []) + one_if (chl_Allocation opts \<noteq> []) +
     one_if (chl_SetAutoactivation opts \<noteq> None)"

definition ChangeLogicalVolume ::
  "'w Client \<Rightarrow> Selector \<Rightarrow> ChangeLogicalVolumeOptions \<Rightarrow> ('w, lvm_err, unit) go" where
  "ChangeLogicalVolume c target opts =
     (if lv_properties opts = 0
      then fail (LvmErrorf ''changing a logical volume requires at least one property'')
      else run_selected c (''changing logical volumes '' @ fmt_Selector target)
        (metadataCommand c ''lvchange'' (chl_Common opts) @
         flag_tags ''--addtag'' (chl_AddTags opts) @
         flag_tags ''--deltag'' (chl_RemoveTags opts) @
         flag_str ''-p'' (chl_Permission opts) @
         flag_bool ''-C'' (chl_Contiguous opts) @
         flag_bool ''-Z'' (chl_Zero opts) @
         flag_str ''--discards'' (chl_Discards opts) @
         flag_bool ''--errorwhenfull'' (chl_ErrorWhenFull opts) @
         flag_bool ''-k'' (chl_SetActivationSkip opts) @
         flag_str ''-r'' (chl_Readahead opts) @
         flag_str ''--alloc'' (chl_Allocation opts) @
         flag_bool ''--setautoactivation'' (chl_SetAutoactivation opts))
        target [])"

record ActivateLogicalVolumeOptions =
  alv_Common :: CommonOptions
  alv_IgnoreActivationSkip :: bool

definition ActivateLogicalVolume ::
  "'w Client \<Rightarrow> Selector \<Rightarrow> ActivateLogicalVolumeOptions \<Rightarrow> ('w, lvm_err, unit) go" where
  "ActivateLogicalVolume c target opts =
     run_selected c (''activating logical volumes '' @ fmt_Selector target)
       (metadataCommand c ''lvchange'' (alv_Common opts) @ [''-a'', ''y''] @
        flag_if ''-K'' (alv_IgnoreActivationSkip opts))
       target []"

type_synonym DeactivateLogicalVolumeOptions = CommonOptions

definition DeactivateLogicalVolume ::
  "'w Client \<Rightarrow> Selector \<Rightarrow> DeactivateLogicalVolumeOptions \<Rightarrow> ('w, lvm_err, unit) go" where
  "DeactivateLogicalVolume c target opts =
     run_selected c (''deactivating logical volumes '' @ fmt_Selector target)
       (metadataCommand c ''lvchange'' opts @ [''-a'', ''n'']) target []"

section \<open>Sizes, names, display\<close>

record ExtendLogicalVolumeOptions =
  elv_Common :: CommonOptions
  elv_ResizeFilesystem :: bool
  elv_PoolMetadataSizeBytes :: u64
  elv_Stripes :: u64
  elv_StripeSizeBytes :: u64
  elv_Allocation :: AllocationPolicy

definition size_args :: "Size \<Rightarrow> Cmd" where
  "size_args s = (let (flag, v) = sizeArg s in [flag, v])"

definition ExtendLogicalVolume ::
  "'w Client \<Rightarrow> string \<Rightarrow> Size \<Rightarrow> ExtendLogicalVolumeOptions \<Rightarrow> ('w, lvm_err, unit) go" where
  "ExtendLogicalVolume c name s opts =
     (if direction s < 0 then fail (LvmErrorf ''extending a logical volume cannot use ShrinkBy'')
      else run_unit c (''extending logical volume '' @ name)
        (metadataCommand c ''lvextend'' (elv_Common opts) @ size_args s @
         flag_if ''-r'' (elv_ResizeFilesystem opts) @
         flag_size ''--poolmetadatasize'' (elv_PoolMetadataSizeBytes opts) @
         flag_num ''-i'' (elv_Stripes opts) @
         flag_size ''-I'' (elv_StripeSizeBytes opts) @
         flag_str ''--alloc'' (elv_Allocation opts) @ [name]))"

type_synonym ExtendLogicalVolumeByPolicyOptions = CommonOptions

definition ExtendLogicalVolumeByPolicy ::
  "'w Client \<Rightarrow> string \<Rightarrow> ExtendLogicalVolumeByPolicyOptions \<Rightarrow> ('w, lvm_err, unit) go" where
  "ExtendLogicalVolumeByPolicy c name opts =
     run_unit c (''extending logical volume '' @ name @ '' by policy'')
       (metadataCommand c ''lvextend'' opts @ [''--usepolicies'', name])"

record ReduceLogicalVolumeOptions =
  redlv_Common :: CommonOptions
  redlv_ResizeFilesystem :: bool

definition ReduceLogicalVolume ::
  "'w Client \<Rightarrow> string \<Rightarrow> Size \<Rightarrow> ReduceLogicalVolumeOptions \<Rightarrow> ('w, lvm_err, unit) go" where
  "ReduceLogicalVolume c name s opts =
     (if direction s > 0 then fail (LvmErrorf ''reducing a logical volume cannot use GrowBy'')
      else run_unit c (''reducing logical volume '' @ name)
        (metadataCommand c ''lvreduce'' (redlv_Common opts) @ size_args s @ [''-f''] @
         flag_if ''-r'' (redlv_ResizeFilesystem opts) @ [name]))"

record ResizeLogicalVolumeOptions =
  reslv_Common :: CommonOptions
  reslv_ResizeFilesystem :: bool
  reslv_PoolMetadataSizeBytes :: u64
  reslv_Stripes :: u64
  reslv_StripeSizeBytes :: u64
  reslv_Allocation :: AllocationPolicy

definition ResizeLogicalVolume ::
  "'w Client \<Rightarrow> string \<Rightarrow> Size \<Rightarrow> ResizeLogicalVolumeOptions \<Rightarrow> ('w, lvm_err, unit) go" where
  "ResizeLogicalVolume c name s opts =
     (if direction s \<noteq> 0 then fail (LvmErrorf ''resizing a logical volume takes an absolute size'')
      else run_unit c (''resizing logical volume '' @ name)
        (metadataCommand c ''lvresize'' (reslv_Common opts) @ size_args s @
         flag_if ''-r'' (reslv_ResizeFilesystem opts) @
         flag_size ''--poolmetadatasize'' (reslv_PoolMetadataSizeBytes opts) @
         flag_num ''-i'' (reslv_Stripes opts) @
         flag_size ''-I'' (reslv_StripeSizeBytes opts) @
         flag_str ''--alloc'' (reslv_Allocation opts) @ [name]))"

type_synonym RenameLogicalVolumeOptions = CommonOptions

definition RenameLogicalVolume ::
  "'w Client \<Rightarrow> string \<Rightarrow> string \<Rightarrow> string \<Rightarrow> RenameLogicalVolumeOptions \<Rightarrow> ('w, lvm_err, unit) go" where
  "RenameLogicalVolume c vg oldName newName opts =
     run_unit c (''renaming logical volume '' @ vg @ ''/'' @ oldName @ '' to '' @ newName)
       (metadataCommand c ''lvrename'' opts @ [vg, oldName, newName])"

record DisplayLogicalVolumeOptions =
  dlv_Common :: CommonOptions
  dlv_Maps :: bool

definition DisplayLogicalVolume ::
  "'w Client \<Rightarrow> string \<Rightarrow> DisplayLogicalVolumeOptions \<Rightarrow> ('w, lvm_err, string) go" where
  "DisplayLogicalVolume c name opts =
     read_only (dlv_Common opts)
       (run_output c (''displaying logical volume '' @ name)
          (lvm_command c ''lvdisplay'' (dlv_Common opts) @ flag_if ''-m'' (dlv_Maps opts) @ arg_if name))"

record ScanLogicalVolumesOptions =
  slv_Common :: CommonOptions
  slv_All :: bool

definition ScanLogicalVolumes :: "'w Client \<Rightarrow> ScanLogicalVolumesOptions \<Rightarrow> ('w, lvm_err, unit) go" where
  "ScanLogicalVolumes c opts =
     read_only (slv_Common opts)
       (run_unit c ''scanning logical volumes''
          (lvm_command c ''lvscan'' (slv_Common opts) @ flag_if ''-a'' (slv_All opts)))"

end
