(* ===== verification/LvmVg.thy ===== *)
theory LvmVg
  imports LvmLv
begin

text \<open>
  Volume groups: \<^verbatim>\<open>lvm/vg.go\<close>. Like \<open>LvmLv\<close>: one definition per operation, the command line in the
  order of the source, and the parser of the \<^verbatim>\<open>vgs\<close> report.
\<close>

definition AllocationContiguous :: AllocationPolicy where "AllocationContiguous = ''contiguous''"
definition AllocationCling :: AllocationPolicy where "AllocationCling = ''cling''"
definition AllocationClingByTags :: AllocationPolicy where "AllocationClingByTags = ''cling_by_tags''"
definition AllocationNormal :: AllocationPolicy where "AllocationNormal = ''normal''"
definition AllocationAnywhere :: AllocationPolicy where "AllocationAnywhere = ''anywhere''"
definition AllocationInherit :: AllocationPolicy where "AllocationInherit = ''inherit''"

type_synonym ActivationMode = string

definition ActivationPartial :: ActivationMode where "ActivationPartial = ''partial''"
definition ActivationDegraded :: ActivationMode where "ActivationDegraded = ''degraded''"
definition ActivationComplete :: ActivationMode where "ActivationComplete = ''complete''"

record VolumeGroup =
  vg_Name :: string
  vg_UUID :: string
  vg_SizeBytes :: u64
  vg_FreeBytes :: u64
  vg_ExtentSizeBytes :: u64
  vg_Extents :: u64
  vg_FreeExtents :: u64
  vg_PVCount :: u64
  vg_LVCount :: u64
  vg_SnapshotCount :: u64
  vg_MissingPVCount :: u64
  vg_Tags :: "string list"
  vg_Attributes :: string
  vg_Exported :: bool
  vg_Partial :: bool
  vg_Shared :: bool
  vg_Autoactivation :: bool

record CreateVolumeGroupOptions =
  cvg_Common :: CommonOptions
  cvg_AddTags :: "string list"
  cvg_ExtentSizeBytes :: u64
  cvg_SetAutoactivation :: "bool option"
  cvg_Force :: bool

definition CreateVolumeGroup ::
  "'w Client \<Rightarrow> string \<Rightarrow> Device list \<Rightarrow> CreateVolumeGroupOptions \<Rightarrow> ('w, lvm_err, unit) go" where
  "CreateVolumeGroup c name devices opts =
     run_unit c (''creating volume group '' @ name)
       (metadataCommand c ''vgcreate'' (cvg_Common opts) @
        flag_tags ''--addtag'' (cvg_AddTags opts) @
        flag_size ''-s'' (cvg_ExtentSizeBytes opts) @
        flag_bool ''--setautoactivation'' (cvg_SetAutoactivation opts) @
        flag_if ''-f'' (cvg_Force opts) @ [name] @ devices)"

section \<open>The vgs report\<close>

definition vg_fields :: "string list" where
  "vg_fields =
     [''vg_name'', ''vg_uuid'', ''vg_size'', ''vg_free'', ''vg_extent_size'', ''vg_extent_count'',
      ''vg_free_count'', ''pv_count'', ''lv_count'', ''snap_count'', ''vg_missing_pv_count'',
      ''vg_tags'', ''vg_attr'', ''vg_exported'', ''vg_partial'', ''vg_shared'', ''vg_autoactivation'']"

definition parse_number :: "string \<Rightarrow> string \<Rightarrow> string \<Rightarrow> lvm_err + u64" where
  "parse_number what name v =
     (case ParseUint v of
        Inl e \<Rightarrow> Inl (LvmWrap (''parsing '' @ what @ '' of '' @ name @ '': '') (LvmNum ''ParseUint'' v e))
      | Inr n \<Rightarrow> Inr n)"

text \<open>
  The source ranges over a map of the numeric fields, so which of several malformed fields the error
  names is not determined; the model takes them in the order they are written.
\<close>

definition vg_numbers :: "(string \<Rightarrow> string) \<Rightarrow> (string \<times> string) list" where
  "vg_numbers f =
     [(''size'', f ''vg_size''), (''free space'', f ''vg_free''),
      (''extent size'', f ''vg_extent_size''), (''extent count'', f ''vg_extent_count''),
      (''free extent count'', f ''vg_free_count''), (''pv count'', f ''pv_count''),
      (''lv count'', f ''lv_count''), (''snapshot count'', f ''snap_count''),
      (''missing pv count'', f ''vg_missing_pv_count'')]"

definition parse_raw_vg :: "(string \<Rightarrow> string) \<Rightarrow> lvm_err + VolumeGroup" where
  "parse_raw_vg f =
     (case parse_each (\<lambda>(what, v). parse_number what (f ''vg_name'') v) (vg_numbers f) of
        Inl e \<Rightarrow> Inl e
      | Inr ns \<Rightarrow>
          Inr \<lparr>vg_Name = f ''vg_name'', vg_UUID = f ''vg_uuid'', vg_SizeBytes = ns ! 0,
               vg_FreeBytes = ns ! 1, vg_ExtentSizeBytes = ns ! 2, vg_Extents = ns ! 3,
               vg_FreeExtents = ns ! 4, vg_PVCount = ns ! 5, vg_LVCount = ns ! 6,
               vg_SnapshotCount = ns ! 7, vg_MissingPVCount = ns ! 8,
               vg_Tags = splitList (f ''vg_tags''), vg_Attributes = f ''vg_attr'',
               vg_Exported = (f ''vg_exported'' = ''1''), vg_Partial = (f ''vg_partial'' = ''1''),
               vg_Shared = (f ''vg_shared'' = ''1''), vg_Autoactivation = (f ''vg_autoactivation'' = ''1'')\<rparr>)"

definition parseVGReport :: "string \<Rightarrow> lvm_err + VolumeGroup list" where
  "parseVGReport out =
     (case Unmarshal_report ''vg'' vg_fields out of
        None \<Rightarrow> Inl (LvmWrap ''parsing vgs report: '' LvmJson)
      | Some report \<Rightarrow> parse_each parse_raw_vg (concat report))"

record ListVolumeGroupsOptions =
  lvg_Common :: CommonOptions
  lvg_Select :: string

definition ListVolumeGroups ::
  "'w Client \<Rightarrow> ListVolumeGroupsOptions \<Rightarrow> ('w, lvm_err, VolumeGroup list) go" where
  "ListVolumeGroups c opts =
     read_only (lvg_Common opts)
       (seqE (run_output c ''listing volume groups''
          (lvm_command c ''vgs'' (lvg_Common opts) @
           [''--reportformat'', ''json'', ''--units'', ''b'', ''--nosuffix'', ''--binary'', ''-o'',
            ''vg_name,vg_uuid,vg_size,vg_free,vg_extent_size,vg_extent_count,'' @
            ''vg_free_count,pv_count,lv_count,snap_count,vg_missing_pv_count,'' @
            ''vg_tags,vg_attr,vg_exported,vg_partial,vg_shared,vg_autoactivation''] @
           flag_str ''-S'' (lvg_Select opts)))
        (\<lambda>out w. (parseVGReport out, w)))"

section \<open>Membership\<close>

record RemoveVolumeGroupOptions =
  rvg_Common :: CommonOptions
  rvg_Force :: bool

definition RemoveVolumeGroup ::
  "'w Client \<Rightarrow> string \<Rightarrow> RemoveVolumeGroupOptions \<Rightarrow> ('w, lvm_err, unit) go" where
  "RemoveVolumeGroup c name opts =
     read_only (rvg_Common opts)
       (run_unit c (''removing volume group '' @ name)
          (lvm_command c ''vgremove'' (rvg_Common opts) @ flag_if ''-f'' (rvg_Force opts) @ [name]))"

record ExtendVolumeGroupOptions =
  evg_Common :: CommonOptions
  evg_Force :: bool
  evg_RestoreMissing :: bool

definition ExtendVolumeGroup ::
  "'w Client \<Rightarrow> string \<Rightarrow> Device list \<Rightarrow> ExtendVolumeGroupOptions \<Rightarrow> ('w, lvm_err, unit) go" where
  "ExtendVolumeGroup c name devices opts =
     run_unit c (''extending volume group '' @ name)
       (metadataCommand c ''vgextend'' (evg_Common opts) @
        flag_if ''-f'' (evg_Force opts) @
        flag_if ''--restoremissing'' (evg_RestoreMissing opts) @ [name] @ devices)"

record ReduceVolumeGroupOptions =
  redvg_Common :: CommonOptions
  redvg_RemoveUnused :: bool
  redvg_RemoveMissing :: bool
  redvg_Force :: bool

definition reduce_forms :: "Device list \<Rightarrow> ReduceVolumeGroupOptions \<Rightarrow> nat" where
  "reduce_forms devices opts =
     one_if (devices \<noteq> []) + one_if (redvg_RemoveUnused opts) + one_if (redvg_RemoveMissing opts)"

definition ReduceVolumeGroup ::
  "'w Client \<Rightarrow> string \<Rightarrow> Device list \<Rightarrow> ReduceVolumeGroupOptions \<Rightarrow> ('w, lvm_err, unit) go" where
  "ReduceVolumeGroup c name devices opts =
     (if reduce_forms devices opts \<noteq> 1
      then fail (LvmErrorf (''reducing a volume group requires exactly one of devices, '' @
             ''RemoveUnused or RemoveMissing''))
      else run_unit c (''reducing volume group '' @ name)
        (metadataCommand c ''vgreduce'' (redvg_Common opts) @
         flag_if ''-a'' (redvg_RemoveUnused opts) @
         flag_if ''--removemissing'' (redvg_RemoveMissing opts) @
         flag_if ''-f'' (redvg_Force opts) @ [name] @ devices))"

type_synonym RenameVolumeGroupOptions = CommonOptions

definition RenameVolumeGroup ::
  "'w Client \<Rightarrow> string \<Rightarrow> string \<Rightarrow> RenameVolumeGroupOptions \<Rightarrow> ('w, lvm_err, unit) go" where
  "RenameVolumeGroup c oldName newName opts =
     run_unit c (''renaming volume group '' @ oldName @ '' to '' @ newName)
       (metadataCommand c ''vgrename'' opts @ [oldName, newName])"

record ChangeVolumeGroupOptions =
  chg_Common :: CommonOptions
  chg_AddTags :: "string list"
  chg_RemoveTags :: "string list"
  chg_Resizeable :: "bool option"
  chg_MaxLogicalVolumes :: "u64 option"
  chg_MaxPhysicalVolumes :: "u64 option"
  chg_ExtentSizeBytes :: u64
  chg_RegenerateUUID :: bool
  chg_SetAutoactivation :: "bool option"
  chg_Allocation :: AllocationPolicy

definition vg_properties :: "ChangeVolumeGroupOptions \<Rightarrow> nat" where
  "vg_properties opts =
     length (chg_AddTags opts) + length (chg_RemoveTags opts) +
     one_if (chg_Resizeable opts \<noteq> None) + one_if (chg_MaxLogicalVolumes opts \<noteq> None) +
     one_if (chg_MaxPhysicalVolumes opts \<noteq> None) + one_if (chg_ExtentSizeBytes opts > 0) +
     one_if (chg_RegenerateUUID opts) + one_if (chg_SetAutoactivation opts \<noteq> None) +
     one_if (chg_Allocation opts \<noteq> [])"

definition ChangeVolumeGroup ::
  "'w Client \<Rightarrow> Selector \<Rightarrow> ChangeVolumeGroupOptions \<Rightarrow> ('w, lvm_err, unit) go" where
  "ChangeVolumeGroup c target opts =
     (if vg_properties opts = 0
      then fail (LvmErrorf ''changing a volume group requires at least one property'')
      else run_selected c (''changing volume groups '' @ fmt_Selector target)
        (metadataCommand c ''vgchange'' (chg_Common opts) @
         flag_tags ''--addtag'' (chg_AddTags opts) @
         flag_tags ''--deltag'' (chg_RemoveTags opts) @
         flag_bool ''-x'' (chg_Resizeable opts) @
         flag_onum ''-l'' (chg_MaxLogicalVolumes opts) @
         flag_onum ''-p'' (chg_MaxPhysicalVolumes opts) @
         flag_size ''-s'' (chg_ExtentSizeBytes opts) @
         flag_if ''-u'' (chg_RegenerateUUID opts) @
         flag_bool ''--setautoactivation'' (chg_SetAutoactivation opts) @
         flag_str ''--alloc'' (chg_Allocation opts))
        target [])"

section \<open>Activation\<close>

record ActivateVolumeGroupOptions =
  avg_Common :: CommonOptions
  avg_IgnoreActivationSkip :: bool
  avg_Mode :: ActivationMode

definition ActivateVolumeGroup ::
  "'w Client \<Rightarrow> Selector \<Rightarrow> ActivateVolumeGroupOptions \<Rightarrow> ('w, lvm_err, unit) go" where
  "ActivateVolumeGroup c target opts =
     run_selected c (''activating volume groups '' @ fmt_Selector target)
       (metadataCommand c ''vgchange'' (avg_Common opts) @ [''-a'', ''y''] @
        flag_if ''-K'' (avg_IgnoreActivationSkip opts) @
        flag_str ''--activationmode'' (avg_Mode opts))
       target []"

type_synonym DeactivateVolumeGroupOptions = CommonOptions

definition DeactivateVolumeGroup ::
  "'w Client \<Rightarrow> Selector \<Rightarrow> DeactivateVolumeGroupOptions \<Rightarrow> ('w, lvm_err, unit) go" where
  "DeactivateVolumeGroup c target opts =
     run_selected c (''deactivating volume groups '' @ fmt_Selector target)
       (metadataCommand c ''vgchange'' opts @ [''-a'', ''n'']) target []"

section \<open>Checks, display, scans\<close>

type_synonym CheckVolumeGroupOptions = CommonOptions

definition CheckVolumeGroup :: "'w Client \<Rightarrow> string \<Rightarrow> CheckVolumeGroupOptions \<Rightarrow> ('w, lvm_err, unit) go" where
  "CheckVolumeGroup c name opts =
     read_only opts
       (run_unit c (''checking volume group '' @ name) (lvm_command c ''vgck'' opts @ arg_if name))"

record DisplayVolumeGroupOptions =
  dvg_Common :: CommonOptions
  dvg_Short :: bool

definition DisplayVolumeGroup ::
  "'w Client \<Rightarrow> string \<Rightarrow> DisplayVolumeGroupOptions \<Rightarrow> ('w, lvm_err, string) go" where
  "DisplayVolumeGroup c name opts =
     read_only (dvg_Common opts)
       (run_output c (''displaying volume group '' @ name)
          (lvm_command c ''vgdisplay'' (dvg_Common opts) @ flag_if ''-s'' (dvg_Short opts) @ arg_if name))"

record ScanVolumeGroupsOptions =
  svg_Common :: CommonOptions
  svg_MkNodes :: bool

definition ScanVolumeGroups :: "'w Client \<Rightarrow> ScanVolumeGroupsOptions \<Rightarrow> ('w, lvm_err, unit) go" where
  "ScanVolumeGroups c opts =
     read_only (svg_Common opts)
       (run_unit c ''scanning volume groups''
          (lvm_command c ''vgscan'' (svg_Common opts) @ flag_if ''--mknodes'' (svg_MkNodes opts)))"

section \<open>Metadata backups\<close>

record BackupVolumeGroupMetadataOptions =
  bvg_Common :: CommonOptions
  bvg_File :: string

definition BackupVolumeGroupMetadata ::
  "'w Client \<Rightarrow> string \<Rightarrow> BackupVolumeGroupMetadataOptions \<Rightarrow> ('w, lvm_err, unit) go" where
  "BackupVolumeGroupMetadata c name opts =
     read_only (bvg_Common opts)
       (run_unit c (''backing up volume group metadata of '' @ name)
          (lvm_command c ''vgcfgbackup'' (bvg_Common opts) @ flag_str ''-f'' (bvg_File opts) @ arg_if name))"

record RestoreVolumeGroupMetadataOptions =
  resvg_Common :: CommonOptions
  resvg_File :: string
  resvg_Force :: bool

definition RestoreVolumeGroupMetadata ::
  "'w Client \<Rightarrow> string \<Rightarrow> RestoreVolumeGroupMetadataOptions \<Rightarrow> ('w, lvm_err, unit) go" where
  "RestoreVolumeGroupMetadata c name opts =
     run_unit c (''restoring volume group metadata of '' @ name)
       (metadataCommand c ''vgcfgrestore'' (resvg_Common opts) @
        flag_str ''-f'' (resvg_File opts) @ flag_if ''--force'' (resvg_Force opts) @ [name])"

type_synonym ListVolumeGroupMetadataBackupsOptions = CommonOptions

definition ListVolumeGroupMetadataBackups ::
  "'w Client \<Rightarrow> string \<Rightarrow> ListVolumeGroupMetadataBackupsOptions \<Rightarrow> ('w, lvm_err, string) go" where
  "ListVolumeGroupMetadataBackups c name opts =
     read_only opts
       (run_output c (''listing metadata backups of '' @ name)
          (lvm_command c ''vgcfgrestore'' opts @ [''-l'', name]))"

section \<open>Export, import, merge, split\<close>

type_synonym ExportVolumeGroupOptions = CommonOptions

definition ExportVolumeGroup :: "'w Client \<Rightarrow> Selector \<Rightarrow> ExportVolumeGroupOptions \<Rightarrow> ('w, lvm_err, unit) go" where
  "ExportVolumeGroup c target opts =
     read_only opts
       (run_selected c (''exporting volume groups '' @ fmt_Selector target)
          (lvm_command c ''vgexport'' opts) target ''-a'')"

type_synonym ImportVolumeGroupOptions = CommonOptions

definition ImportVolumeGroup :: "'w Client \<Rightarrow> Selector \<Rightarrow> ImportVolumeGroupOptions \<Rightarrow> ('w, lvm_err, unit) go" where
  "ImportVolumeGroup c target opts =
     read_only opts
       (run_selected c (''importing volume groups '' @ fmt_Selector target)
          (lvm_command c ''vgimport'' opts) target ''-a'')"

type_synonym MergeVolumeGroupsOptions = CommonOptions

definition MergeVolumeGroups ::
  "'w Client \<Rightarrow> string \<Rightarrow> string \<Rightarrow> MergeVolumeGroupsOptions \<Rightarrow> ('w, lvm_err, unit) go" where
  "MergeVolumeGroups c destination source opts =
     run_unit c (''merging volume group '' @ source @ '' into '' @ destination)
       (metadataCommand c ''vgmerge'' opts @ [destination, source])"

record SplitVolumeGroupOptions =
  splvg_Common :: CommonOptions
  splvg_LVName :: string

definition SplitVolumeGroup ::
  "'w Client \<Rightarrow> string \<Rightarrow> string \<Rightarrow> Device list \<Rightarrow> SplitVolumeGroupOptions \<Rightarrow> ('w, lvm_err, unit) go" where
  "SplitVolumeGroup c source destination devices opts =
     (if (devices \<noteq> []) = (splvg_LVName opts \<noteq> [])
      then fail (LvmErrorf ''splitting a volume group requires exactly one of devices or LVName'')
      else run_unit c (''splitting volume group '' @ source @ '' into '' @ destination)
        (metadataCommand c ''vgsplit'' (splvg_Common opts) @
         flag_str ''-n'' (splvg_LVName opts) @ [source, destination] @ devices))"

type_synonym MakeVolumeGroupNodesOptions = CommonOptions

definition MakeVolumeGroupNodes :: "'w Client \<Rightarrow> string \<Rightarrow> MakeVolumeGroupNodesOptions \<Rightarrow> ('w, lvm_err, unit) go" where
  "MakeVolumeGroupNodes c name opts =
     read_only opts
       (run_unit c (''making volume group nodes of '' @ name) (lvm_command c ''vgmknodes'' opts @ arg_if name))"

record ImportClonedVolumeGroupOptions =
  icvg_Common :: CommonOptions
  icvg_BaseName :: string

definition ImportClonedVolumeGroup ::
  "'w Client \<Rightarrow> Device list \<Rightarrow> ImportClonedVolumeGroupOptions \<Rightarrow> ('w, lvm_err, unit) go" where
  "ImportClonedVolumeGroup c devices opts =
     read_only (icvg_Common opts)
       (run_unit c ''importing cloned volume group''
          (lvm_command c ''vgimportclone'' (icvg_Common opts) @ flag_str ''-n'' (icvg_BaseName opts) @ devices))"

type_synonym ImportVolumeGroupDevicesOptions = CommonOptions

definition ImportVolumeGroupDevices ::
  "'w Client \<Rightarrow> Selector \<Rightarrow> ImportVolumeGroupDevicesOptions \<Rightarrow> ('w, lvm_err, unit) go" where
  "ImportVolumeGroupDevices c target opts =
     read_only opts
       (run_selected c (''importing volume group devices '' @ fmt_Selector target)
          (lvm_command c ''vgimportdevices'' opts) target ''-a'')"

end
