(* ===== verification/LvmPv.thy ===== *)
theory LvmPv
  imports LvmVg
begin

text \<open>Physical volumes: \<^verbatim>\<open>lvm/pv.go\<close>, in the manner of \<open>LvmLv\<close> and \<open>LvmVg\<close>.\<close>

record PhysicalVolume =
  pv_Device :: Device
  pv_UUID :: string
  pv_VolumeGroup :: string
  pv_SizeBytes :: u64
  pv_FreeBytes :: u64
  pv_DeviceSizeBytes :: u64
  pv_Attributes :: string
  pv_Tags :: "string list"
  pv_Allocatable :: bool
  pv_Exported :: bool
  pv_Missing :: bool
  pv_InUse :: bool
  pv_Duplicate :: bool
  pv_MetadataAreas :: u64
  pv_UsedMetadataAreas :: u64

record CreatePhysicalVolumeOptions =
  cpv_Common :: CommonOptions
  cpv_Force :: bool

definition CreatePhysicalVolume ::
  "'w Client \<Rightarrow> Device \<Rightarrow> CreatePhysicalVolumeOptions \<Rightarrow> ('w, lvm_err, unit) go" where
  "CreatePhysicalVolume c device opts =
     read_only (cpv_Common opts)
       (run_unit c (''creating physical volume '' @ device)
          (lvm_command c ''pvcreate'' (cpv_Common opts) @ flag_if ''-f'' (cpv_Force opts) @ [device]))"

section \<open>The pvs report\<close>

definition pv_fields :: "string list" where
  "pv_fields =
     [''pv_name'', ''pv_uuid'', ''vg_name'', ''pv_size'', ''pv_free'', ''dev_size'', ''pv_attr'',
      ''pv_tags'', ''pv_allocatable'', ''pv_exported'', ''pv_missing'', ''pv_in_use'', ''pv_duplicate'',
      ''pv_mda_count'', ''pv_mda_used_count'']"

definition parse_raw_pv :: "(string \<Rightarrow> string) \<Rightarrow> lvm_err + PhysicalVolume" where
  "parse_raw_pv f =
     (let name = f ''pv_name'' in
      case parse_number ''size'' name (f ''pv_size'') of Inl e \<Rightarrow> Inl e | Inr n \<Rightarrow>
      case parse_number ''free space'' name (f ''pv_free'') of Inl e \<Rightarrow> Inl e | Inr free \<Rightarrow>
      case parse_number ''device size'' name (f ''dev_size'') of Inl e \<Rightarrow> Inl e | Inr devSize \<Rightarrow>
      case parse_number ''metadata area count'' name (f ''pv_mda_count'') of Inl e \<Rightarrow> Inl e | Inr mdaCount \<Rightarrow>
      case parse_number ''used metadata area count'' name (f ''pv_mda_used_count'') of
        Inl e \<Rightarrow> Inl e
      | Inr mdaUsed \<Rightarrow>
          Inr \<lparr>pv_Device = name, pv_UUID = f ''pv_uuid'', pv_VolumeGroup = f ''vg_name'',
               pv_SizeBytes = n, pv_FreeBytes = free, pv_DeviceSizeBytes = devSize,
               pv_Attributes = f ''pv_attr'', pv_Tags = splitList (f ''pv_tags''),
               pv_Allocatable = (f ''pv_allocatable'' = ''1''), pv_Exported = (f ''pv_exported'' = ''1''),
               pv_Missing = (f ''pv_missing'' = ''1''), pv_InUse = (f ''pv_in_use'' = ''1''),
               pv_Duplicate = (f ''pv_duplicate'' = ''1''), pv_MetadataAreas = mdaCount,
               pv_UsedMetadataAreas = mdaUsed\<rparr>)"

definition parsePVReport :: "string \<Rightarrow> lvm_err + PhysicalVolume list" where
  "parsePVReport out =
     (case Unmarshal_report ''pv'' pv_fields out of
        None \<Rightarrow> Inl (LvmWrap ''parsing pvs report: '' LvmJson)
      | Some report \<Rightarrow> parse_each parse_raw_pv (concat report))"

record ListPhysicalVolumesOptions =
  lpv_Common :: CommonOptions
  lpv_Select :: string

definition ListPhysicalVolumes ::
  "'w Client \<Rightarrow> ListPhysicalVolumesOptions \<Rightarrow> ('w, lvm_err, PhysicalVolume list) go" where
  "ListPhysicalVolumes c opts =
     read_only (lpv_Common opts)
       (seqE (run_output c ''listing physical volumes''
          (lvm_command c ''pvs'' (lpv_Common opts) @
           [''--reportformat'', ''json'', ''--units'', ''b'', ''--nosuffix'', ''--binary'', ''-o'',
            ''pv_name,pv_uuid,vg_name,pv_size,pv_free,dev_size,pv_attr,pv_tags,'' @
            ''pv_allocatable,pv_exported,pv_missing,pv_in_use,pv_duplicate,'' @
            ''pv_mda_count,pv_mda_used_count''] @
           flag_str ''-S'' (lpv_Select opts)))
        (\<lambda>out w. (parsePVReport out, w)))"

section \<open>Changes\<close>

type_synonym RemovePhysicalVolumeOptions = CommonOptions

definition RemovePhysicalVolume :: "'w Client \<Rightarrow> Device \<Rightarrow> RemovePhysicalVolumeOptions \<Rightarrow> ('w, lvm_err, unit) go" where
  "RemovePhysicalVolume c device opts =
     read_only opts
       (run_unit c (''removing physical volume '' @ device) (lvm_command c ''pvremove'' opts @ [device]))"

record ChangePhysicalVolumeOptions =
  chp_Common :: CommonOptions
  chp_AddTags :: "string list"
  chp_RemoveTags :: "string list"
  chp_Allocatable :: "bool option"
  chp_MetadataIgnore :: "bool option"
  chp_RegenerateUUID :: bool

definition pv_properties :: "ChangePhysicalVolumeOptions \<Rightarrow> nat" where
  "pv_properties opts =
     length (chp_AddTags opts) + length (chp_RemoveTags opts) + one_if (chp_Allocatable opts \<noteq> None) +
     one_if (chp_MetadataIgnore opts \<noteq> None) + one_if (chp_RegenerateUUID opts)"

definition ChangePhysicalVolume ::
  "'w Client \<Rightarrow> Selector \<Rightarrow> ChangePhysicalVolumeOptions \<Rightarrow> ('w, lvm_err, unit) go" where
  "ChangePhysicalVolume c target opts =
     (if pv_properties opts = 0
      then fail (LvmErrorf ''changing a physical volume requires at least one property'')
      else run_selected c (''changing physical volumes '' @ fmt_Selector target)
        (metadataCommand c ''pvchange'' (chp_Common opts) @
         flag_tags ''--addtag'' (chp_AddTags opts) @
         flag_tags ''--deltag'' (chp_RemoveTags opts) @
         flag_bool ''-x'' (chp_Allocatable opts) @
         flag_bool ''--metadataignore'' (chp_MetadataIgnore opts) @
         flag_if ''-u'' (chp_RegenerateUUID opts))
        target ''-a'')"

record ResizePhysicalVolumeOptions =
  respv_Common :: CommonOptions
  respv_SizeBytes :: u64

definition ResizePhysicalVolume ::
  "'w Client \<Rightarrow> Device \<Rightarrow> ResizePhysicalVolumeOptions \<Rightarrow> ('w, lvm_err, unit) go" where
  "ResizePhysicalVolume c device opts =
     run_unit c (''resizing physical volume '' @ device)
       (metadataCommand c ''pvresize'' (respv_Common opts) @
        (if respv_SizeBytes opts > 0
         then [''--setphysicalvolumesize'', FormatUint (respv_SizeBytes opts) @ ''b'', ''-y''] else []) @
        [device])"

section \<open>Display, scans, checks\<close>

record DisplayPhysicalVolumeOptions =
  dpv_Common :: CommonOptions
  dpv_Maps :: bool

definition DisplayPhysicalVolume ::
  "'w Client \<Rightarrow> Device \<Rightarrow> DisplayPhysicalVolumeOptions \<Rightarrow> ('w, lvm_err, string) go" where
  "DisplayPhysicalVolume c device opts =
     read_only (dpv_Common opts)
       (run_output c (''displaying physical volume '' @ device)
          (lvm_command c ''pvdisplay'' (dpv_Common opts) @ flag_if ''-m'' (dpv_Maps opts) @ [device]))"

record ScanPhysicalVolumesOptions =
  spv_Common :: CommonOptions
  spv_Device :: Device
  spv_Autoactivate :: bool

definition ScanPhysicalVolumes :: "'w Client \<Rightarrow> ScanPhysicalVolumesOptions \<Rightarrow> ('w, lvm_err, unit) go" where
  "ScanPhysicalVolumes c opts =
     read_only (spv_Common opts)
       (run_unit c ''scanning physical volumes''
          (lvm_command c ''pvscan'' (spv_Common opts) @ [''--cache''] @
           flag_if ''-aay'' (spv_Autoactivate opts) @ arg_if (spv_Device opts)))"

type_synonym CheckPhysicalVolumeOptions = CommonOptions

definition CheckPhysicalVolume :: "'w Client \<Rightarrow> Device \<Rightarrow> CheckPhysicalVolumeOptions \<Rightarrow> ('w, lvm_err, unit) go" where
  "CheckPhysicalVolume c device opts =
     read_only opts
       (run_unit c (''checking physical volume '' @ device) (lvm_command c ''pvck'' opts @ [device]))"

type_synonym DumpKind = string

definition DumpHeaders :: DumpKind where "DumpHeaders = ''headers''"
definition DumpMetadata :: DumpKind where "DumpMetadata = ''metadata''"
definition DumpMetadataAll :: DumpKind where "DumpMetadataAll = ''metadata_all''"
definition DumpMetadataSearch :: DumpKind where "DumpMetadataSearch = ''metadata_search''"

type_synonym DumpPhysicalVolumeOptions = CommonOptions

definition DumpPhysicalVolume ::
  "'w Client \<Rightarrow> Device \<Rightarrow> DumpKind \<Rightarrow> DumpPhysicalVolumeOptions \<Rightarrow> ('w, lvm_err, string) go" where
  "DumpPhysicalVolume c device kind opts =
     read_only opts
       (run_output c (''dumping '' @ kind @ '' of physical volume '' @ device)
          (lvm_command c ''pvck'' opts @ [''--dump'', kind, device]))"

end
