(* ===== verification/LvmReport.thy ===== *)
theory LvmReport
  imports LvmPv
begin

text \<open>
  Facts about the client library that its callers use.

  \<^item> \<open>lv_report\<close> prints rows in the format of the \<^verbatim>\<open>lvs\<close> json report, and reading it back yields the
    rows: the json layer loses nothing, and a volume with well-formed fields is recovered exactly.
  \<^item> A classified failure is the first pattern that occurs in the error output.
  \<^item> The change operations run exactly one command when a property is set and none otherwise, and
    the tags of a command line can be read off it again.
\<close>

section \<open>The lvs report, printed and read back\<close>

definition raw_values :: "rawLV \<Rightarrow> string list" where
  "raw_values lv =
     [raw_Name lv, raw_UUID lv, raw_VG lv, raw_Size lv, raw_MetadataSize lv, raw_ChunkSize lv,
      raw_Attr lv, raw_Tags lv, raw_Pool lv, raw_Origin lv, raw_Path lv, raw_DMPath lv,
      raw_DataPercent lv, raw_MetadataPercent lv, raw_Active lv, raw_Layout lv]"

definition lv_row :: "rawLV \<Rightarrow> json" where
  "lv_row lv = JObj (zip lv_fields (map JStr (raw_values lv)))"

definition lv_report :: "rawLV list \<Rightarrow> string" where
  "lv_report rows =
     render_json (JObj [(''report'', JArr [JObj [(''lv'', JArr (map lv_row rows))]])])"

definition plain_raw :: "rawLV \<Rightarrow> bool" where
  "plain_raw lv = list_all (list_all plain_char) (raw_values lv)"

fun updates :: "('k \<Rightarrow> 'v) \<Rightarrow> ('k \<times> 'v) list \<Rightarrow> 'k \<Rightarrow> 'v" where
  "updates r [] = r"
| "updates r (kv # kvs) = updates (r(fst kv := snd kv)) kvs"

definition row_map :: "rawLV \<Rightarrow> string \<Rightarrow> string" where
  "row_map lv = updates (\<lambda>_. []) (zip lv_fields (raw_values lv))"

lemma decode_strings_zip:
  "set ks \<subseteq> set fs \<Longrightarrow> decode_strings fs (zip ks (map JStr vs)) r = Some (updates r (zip ks vs))"
proof (induction ks arbitrary: vs r)
  case (Cons k ks)
  then show ?case by (cases vs) (auto simp: field_for_def)
qed simp

lemma decode_lv_row: "decode_row lv_fields (lv_row lv) = Some (row_map lv)"
  by (simp add: decode_row_def lv_row_def decode_strings_zip row_map_def)

lemma rawLV_of_row_map [simp]: "rawLV_of (row_map lv) = lv"
  by (cases lv) (simp add: row_map_def rawLV_of_def lv_fields_def raw_values_def)

lemma all_some_map: "(\<And>x. x \<in> set xs \<Longrightarrow> g x = Some (h x)) \<Longrightarrow> all_some (map g xs) = Some (map h xs)"
  by (induction xs) auto

lemma plain_lv_fields: "list_all (list_all plain_char) lv_fields"
  by (simp add: lv_fields_def plain_char_def)

lemma plain_lv_row:
  assumes "plain_raw lv"
  shows "plain_json (lv_row lv)"
proof -
  have "list_all plain_char k \<and> plain_json v"
    if "(k, v) \<in> set (zip lv_fields (map JStr (raw_values lv)))" for k v
  proof
    from that have "k \<in> set lv_fields" and v: "v \<in> set (map JStr (raw_values lv))"
      by (rule set_zip_leftD, rule set_zip_rightD)
    then show "list_all plain_char k"
      using plain_lv_fields by (simp add: list_all_iff)
    show "plain_json v"
      using v assms by (auto simp: plain_raw_def list_all_iff)
  qed
  then show ?thesis by (auto simp: lv_row_def list_all_iff)
qed

lemma json_height_lv_row: "json_height (lv_row lv) = 1"
proof -
  have "fold (\<lambda>m n. max (json_height (snd m)) n) (zip ks (map JStr vs)) n = n" for ks vs and n :: nat
  proof (induction ks arbitrary: vs)
    case (Cons k ks)
    then show ?case by (cases vs) auto
  qed simp
  then show ?thesis by (simp add: lv_row_def)
qed

lemma json_height_rows: "fold (\<lambda>x n. max (json_height x) n) (map lv_row rows) n \<le> max 1 n"
  by (simp add: fold_max_le json_height_lv_row)

lemma lv_report_json:
  assumes "list_all plain_raw rows"
  shows "json_parse (lv_report rows) =
    Some (JObj [(''report'', JArr [JObj [(''lv'', JArr (map lv_row rows))]])])"
  unfolding lv_report_def
proof (rule json_parse_render)
  show "plain_json (JObj [(''report'', JArr [JObj [(''lv'', JArr (map lv_row rows))]])])"
    using assms by (simp add: plain_char_def list_all_iff plain_lv_row)
  show "json_height (JObj [(''report'', JArr [JObj [(''lv'', JArr (map lv_row rows))]])]) \<le> max_depth"
    using json_height_rows [of rows 0] by (simp add: max_depth_def)
qed

lemma Unmarshal_lv_report:
  assumes "list_all plain_raw rows"
  shows "map_option (map (map rawLV_of)) (Unmarshal_report ''lv'' lv_fields (lv_report rows)) = Some [rows]"
proof -
  have "all_some (map (decode_row lv_fields) (map lv_row rows)) = Some (map row_map rows)"
    using all_some_map [of rows "\<lambda>x. decode_row lv_fields (lv_row x)" row_map]
    by (simp add: comp_def decode_lv_row)
  then show ?thesis
    by (simp add: Unmarshal_report_def lv_report_json [OF assms] decode_object_def decode_array_def
        field_for_def comp_def)
qed

lemma parseLVReport_lv_report:
  assumes "list_all plain_raw rows"
  shows "parseLVReport (lv_report rows) = parse_each parse_raw_lv rows"
proof -
  obtain report where rep: "Unmarshal_report ''lv'' lv_fields (lv_report rows) = Some report"
    and rows: "map (map rawLV_of) report = [rows]"
    using Unmarshal_lv_report [OF assms] by (auto simp: map_option_case split: option.splits)
  show ?thesis
    by (simp add: parseLVReport_def rep rows flattenLVReport_def)
qed

text \<open>
  The fields of a volume as lvs prints them: no metadata size is an empty field; the percentages are given by
  their texts.
\<close>

definition raw_of_lv :: "string \<Rightarrow> string \<Rightarrow> LogicalVolume \<Rightarrow> rawLV" where
  "raw_of_lv dataText metadataText lv =
     \<lparr>raw_Name = lv_Name lv, raw_UUID = lv_UUID lv, raw_VG = lv_VolumeGroup lv,
      raw_Size = FormatUint (lv_SizeBytes lv),
      raw_MetadataSize = (if lv_MetadataSizeBytes lv = 0 then [] else FormatUint (lv_MetadataSizeBytes lv)),
      raw_ChunkSize = FormatUint (lv_ChunkSizeBytes lv), raw_Attr = lv_Attributes lv,
      raw_Tags = Join (lv_Tags lv) '','', raw_Pool = lv_Pool lv, raw_Origin = lv_Origin lv,
      raw_Path = lv_Path lv, raw_DMPath = lv_DevicePath lv, raw_DataPercent = dataText,
      raw_MetadataPercent = metadataText, raw_Active = (if lv_Active lv then ''1'' else ''0''),
      raw_Layout = Join (lv_Layout lv) '',''\<rparr>"

text \<open>What lvm admits as an element of a list field: not empty, no comma.\<close>

definition list_item :: "string \<Rightarrow> bool" where
  "list_item s \<longleftrightarrow> s \<noteq> [] \<and> CHR '','' \<notin> set s"

lemma splitList_Join: "list_all list_item xs \<Longrightarrow> splitList (Join xs '','') = xs"
proof (cases "xs = []")
  case False
  assume items: "list_all list_item xs"
  then have "Join xs '','' \<noteq> []"
    using False by (cases "(xs, '','')" rule: Join.cases) (auto simp: list_item_def)
  moreover have "Split CHR '','' (Join xs '','') = xs"
    using items False by (intro Split_Join) (auto simp: list_all_iff list_item_def)
  ultimately show ?thesis by (simp add: splitList_def)
qed (simp add: splitList_def)

lemma parse_raw_of_lv:
  assumes "list_all list_item (lv_Tags lv)" and "list_all list_item (lv_Layout lv)"
    and "parsePercent dt = Inr (lv_DataPercent lv)" and "parsePercent mt = Inr (lv_MetadataPercent lv)"
  shows "parse_raw_lv (raw_of_lv dt mt lv) = Inr lv"
  using assms
  by (simp add: parse_raw_lv_def raw_of_lv_def parse_size_def parse_percent_def splitList_Join)

lemma parse_each_map: "(\<And>x. x \<in> set xs \<Longrightarrow> f (g x) = Inr (h x)) \<Longrightarrow> parse_each f (map g xs) = Inr (map h xs)"
  by (induction xs) auto

section \<open>One command per change\<close>

lemma ChangeLogicalVolume_none:
  assumes "lv_properties opts = 0"
  shows "ChangeLogicalVolume c target opts w =
    (Inl (LvmErrorf ''changing a logical volume requires at least one property''), w)"
  using assms by (simp add: ChangeLogicalVolume_def)

text \<open>The arguments that follow a flag in a command line.\<close>

fun args_of :: "string \<Rightarrow> Cmd \<Rightarrow> string list" where
  "args_of f (x # y # rest) = (if x = f then y # args_of f rest else args_of f (y # rest))"
| "args_of f _ = []"

lemma args_of_flag_tags: "args_of f (flag_tags f ts @ rest) = ts @ args_of f rest"
  by (induction ts) (auto simp: flag_tags_def)

lemma args_of_other_flag_tags:
  assumes "f \<noteq> g" and "f \<notin> set ts" and "rest \<noteq> []" and "hd rest \<noteq> f"
  shows "args_of f (flag_tags g ts @ rest) = args_of f rest"
  using assms
proof (induction ts)
  case (Cons t ts)
  then show ?case
    by (cases "flag_tags g ts @ rest") (auto simp: flag_tags_def)
qed (simp add: flag_tags_def)

section \<open>Theorems\<close>

text \<open>
  Classification of a failed command: the exit status of an invalid command wins; otherwise the
  kind is that of the first pattern, in table order, that occurs in the error output.
\<close>

theorem classify_first_match:
  "classify code stderr = Some kind \<longleftrightarrow>
     (if code = 3 then kind = LvmInvalidCommand
      else \<exists>i < length stderrPatterns. Contains stderr (fst (stderrPatterns ! i)) \<and>
        snd (stderrPatterns ! i) = kind \<and> (\<forall>j < i. \<not> Contains stderr (fst (stderrPatterns ! j))))"
  unfolding classify_def invalidCommandExitCode_def
  by (auto simp: first_pattern_Some_iff)

theorem classify_first_match_witness:
  "classify 5 ''Permission denied: already exists'' = Some LvmPermission"
  using classify_first_match [of 5 "''Permission denied: already exists''" LvmPermission]
  by (simp add: classify_def invalidCommandExitCode_def stderrPatterns_def)

text \<open>
  C21. The report round trip: the json report that lvs prints for a list of logical volumes is read back
  as exactly those volumes, every field included, for any number of volumes. Each volume has its own texts for
  the percentages, of which its values are the readings; its texts need no escaping in json, and its tags and
  layouts are the non-empty strings without comma that lvm admits.
\<close>

theorem parseLVReport_roundtrip:
  assumes "\<forall>lv \<in> set lvs. plain_raw (raw_of_lv (dataText lv) (metadataText lv) lv) \<and>
      list_all list_item (lv_Tags lv) \<and> list_all list_item (lv_Layout lv) \<and>
      parsePercent (dataText lv) = Inr (lv_DataPercent lv) \<and> parsePercent (metadataText lv) = Inr (lv_MetadataPercent lv)"
  shows "parseLVReport (lv_report (map (\<lambda>lv. raw_of_lv (dataText lv) (metadataText lv) lv) lvs)) = Inr lvs"
proof -
  have "list_all plain_raw (map (\<lambda>lv. raw_of_lv (dataText lv) (metadataText lv) lv) lvs)"
    using assms by (simp add: list_all_iff)
  moreover have "parse_each parse_raw_lv (map (\<lambda>lv. raw_of_lv (dataText lv) (metadataText lv) lv) lvs) = Inr (map id lvs)"
    using assms by (intro parse_each_map) (simp add: parse_raw_of_lv)
  ultimately show ?thesis by (simp add: parseLVReport_lv_report)
qed

lemma percent_texts: "parsePercent ''1.00'' = Inr (Fin 1)" "parsePercent [] = Inr (Fin 0)" "parsePercent ''3.00'' = Inr (Fin 3)"
proof -
  have e: "exponent2 1 = 0" "exponent2 3 = 1"
    by (simp_all add: exponent2_def pow2_def bitlen_def quotient_of_number compute_floorlog Let_def)
  have "f64_round 1 = Fin 1" "f64_round 3 = Fin 3"
    by (simp_all add: f64_round_def e pow2_def round_half_even_def)
  then show "parsePercent ''1.00'' = Inr (Fin 1)" "parsePercent [] = Inr (Fin 0)" "parsePercent ''3.00'' = Inr (Fin 3)"
    by (simp_all add: parsePercent_def ParseFloat_def is_digit_def dec_val_def digit_val_def parse_exp_def pow10_def)
qed

definition report_volume :: "string \<Rightarrow> u64 \<Rightarrow> float64 \<Rightarrow> float64 \<Rightarrow> LogicalVolume" where
  "report_volume n metadata dataPercent metadataPercent =
     \<lparr>lv_Name = n, lv_UUID = [], lv_VolumeGroup = ''vg0'', lv_SizeBytes = 4096, lv_MetadataSizeBytes = metadata,
      lv_ChunkSizeBytes = 0, lv_Attributes = [], lv_Tags = [''beanstore.state=ready'', ''x''], lv_Pool = ''thin'',
      lv_Origin = [], lv_Path = [], lv_DevicePath = [], lv_DataPercent = dataPercent, lv_MetadataPercent = metadataPercent,
      lv_Active = True, lv_Layout = []\<rparr>"

theorem parseLVReport_roundtrip_witness:
  "let pool = report_volume ''thin'' 512 (Fin 1) (Fin 3); volume = report_volume ''v'' 0 (Fin 0) (Fin 0) in
   parseLVReport (lv_report [raw_of_lv ''1.00'' ''3.00'' pool, raw_of_lv [] [] volume]) = Inr [pool, volume]"
proof -
  let ?dt = "\<lambda>lv. if lv_Name lv = ''thin'' then ''1.00'' else []" and ?mt = "\<lambda>lv. if lv_Name lv = ''thin'' then ''3.00'' else []"
  show ?thesis
    using parseLVReport_roundtrip [of "[report_volume ''thin'' 512 (Fin 1) (Fin 3), report_volume ''v'' 0 (Fin 0) (Fin 0)]" ?dt ?mt]
      percent_texts
    by (simp add: report_volume_def plain_raw_def raw_values_def raw_of_lv_def plain_char_def list_item_def FormatUint_def digits_of.simps)
qed

section \<open>The command lines of the daemon\<close>

text \<open>The daemon runs \<open>New host []\<close>: no device scoping and lvm's default for backups.\<close>

definition daemon_client :: "'w runner \<Rightarrow> 'w Client" where
  "daemon_client host = New host []"

lemma daemon_client_simps [simp]:
  "cl_runner (daemon_client host) = host" "cl_devices (daemon_client host) = []"
  "cl_autobackup (daemon_client host) = None"
  by (simp_all add: daemon_client_def New_def)

lemma no_common_simps [simp]: "co_Devices no_common = None" "co_Autobackup no_common = None"
  by (simp_all add: no_common_def)

lemma daemon_command [simp]:
  "lvm_command (daemon_client host) sub no_common = [''lvm'', sub]"
  "metadataCommand (daemon_client host) sub no_common = [''lvm'', sub]"
  by (simp_all add: lvm_command_def metadataCommand_def)

lemma run_selected_name [simp]:
  "run_selected c what cmd (SelName t) allFlag = run_unit c what (cmd @ [t])"
  by (simp add: run_selected_def appendSelector_def)

lemma flag_none [simp]:
  "flag_bool f None = []" "flag_str f [] = []" "flag_if f False = []" "flag_if f True = [f]"
  "flag_size f 0 = []" "flag_num f 0 = []" "arg_if [] = []" "flag_tags f [] = []"
  by (simp_all add: flag_bool_def flag_str_def flag_if_def flag_size_def flag_num_def arg_if_def flag_tags_def)

end
