(* ===== verification/LvmHost.thy ===== *)
theory LvmHost
  imports LvmReport
begin

text \<open>
  What the daemon relies on of lvm2, which is not part of the repository.

  The metadata of the configured volume group is seen through a \<open>view\<close>, a map from the names of the
  logical volumes to what lvm records about them. \<open>lv_effect\<close> states the documented effect of each
  command the daemon issues, \<open>argv\<close> its command line. The locale \<open>lvm2\<close> assumes of the runner:

  \<^item> \<open>effect_ok\<close> and \<open>effect_err\<close>: a command that reports success had its effect, and one that reports a failure had its
    effect or none (a metadata commit is atomic, but a failure can be reported after it, for example
    when the process is killed or the activation that follows fails);
  \<^item> \<open>report_frame\<close>: \<^verbatim>\<open>lvs\<close> changes nothing;
  \<^item> \<open>report_name\<close> and \<open>report_pool\<close>: a report selected by name or by pool lists exactly the
    volumes of that name or pool, with their attributes.

  Every command may fail at any time. A crash of the daemon is the case that all commands from some
  point on fail without effect, so theorems over the locale cover it.
\<close>

section \<open>Logical volumes and the effect of commands\<close>

text \<open>
  The tags in the order lvm reports them, the pool, the origin, the size, whether the volume is
  active, whether activation skips it, and the content.
\<close>

record lvobj =
  o_tags :: "string list"
  o_pool :: string
  o_origin :: string
  o_size :: u64
  o_active :: bool
  o_skip :: bool
  o_data :: "nat \<Rightarrow> u8"

type_synonym lvview = "string \<rightharpoonup> lvobj"

datatype lvop =
    OpChange string "string list" "string list" "bool option"
  | OpActivate string bool
  | OpDeactivate string
  | OpRemove string
  | OpCreateThin string u64 "string list" "bool option"
  | OpSnapshot string string "string list" Permission
  | OpRename string string
  | OpResize string u64

fun argv :: "string \<Rightarrow> string \<Rightarrow> lvop \<Rightarrow> Cmd" where
  "argv vg pool (OpChange n adds dels skip) =
     [''lvm'', ''lvchange''] @ flag_tags ''--addtag'' adds @ flag_tags ''--deltag'' dels @
       flag_bool ''-k'' skip @ [vg @ ''/'' @ n]"
| "argv vg pool (OpActivate n ignore) =
     [''lvm'', ''lvchange'', ''-a'', ''y''] @ flag_if ''-K'' ignore @ [vg @ ''/'' @ n]"
| "argv vg pool (OpDeactivate n) = [''lvm'', ''lvchange'', ''-a'', ''n'', vg @ ''/'' @ n]"
| "argv vg pool (OpRemove n) = [''lvm'', ''lvremove'', ''-f'', vg @ ''/'' @ n]"
| "argv vg pool (OpCreateThin n s tags act) =
     [''lvm'', ''lvcreate'', ''--type'', ''thin'', ''--thinpool'', pool, ''-V'', FormatUint s @ ''b'', ''-n'', n] @
       flag_tags ''--addtag'' tags @ flag_bool ''-a'' act @ [vg]"
| "argv vg pool (OpSnapshot origin n tags perm) =
     [''lvm'', ''lvcreate'', ''-s'', ''-n'', n] @ flag_tags ''--addtag'' tags @ flag_str ''-p'' perm @
       [vg @ ''/'' @ origin]"
| "argv vg pool (OpRename a b) = [''lvm'', ''lvrename'', vg, a, b]"
| "argv vg pool (OpResize n s) = [''lvm'', ''lvresize'', ''-L'', FormatUint s @ ''b'', vg @ ''/'' @ n]"

definition lvs_columns :: string where
  "lvs_columns =
     ''lv_name,lv_uuid,vg_name,lv_size,lv_metadata_size,chunk_size,lv_attr,lv_tags,pool_lv,origin,'' @
     ''lv_path,lv_dm_path,data_percent,metadata_percent,lv_active,lv_layout''"

definition lvs_argv :: "string \<Rightarrow> string \<Rightarrow> Cmd" where
  "lvs_argv vg sel =
     [''lvm'', ''lvs'', ''--reportformat'', ''json'', ''--units'', ''b'', ''--nosuffix'', ''--binary'', ''-o'',
      lvs_columns, ''-S'', sel, vg]"

definition sel_name :: "string \<Rightarrow> string" where
  "sel_name n = ''lv_name = '' @ n"

definition sel_pool :: "string \<Rightarrow> string" where
  "sel_pool n = ''pool_lv = '' @ n"

lemma sel_nonempty [simp]: "sel_name n \<noteq> []" "sel_pool n \<noteq> []"
  by (simp_all add: sel_name_def sel_pool_def)

text \<open>Removing or renaming a volume also updates the origin field of the snapshots taken from it.\<close>

definition reorigin :: "string \<Rightarrow> string \<Rightarrow> lvobj \<Rightarrow> lvobj" where
  "reorigin a b p = (if o_origin p = a \<and> a \<noteq> [] then p\<lparr>o_origin := b\<rparr> else p)"

inductive lv_effect :: "string \<Rightarrow> lvop \<Rightarrow> lvview \<Rightarrow> lvview \<Rightarrow> bool" for pool :: string where
  eff_change: "v n = Some x \<Longrightarrow> distinct ts \<Longrightarrow> set ts = (set (o_tags x) \<union> set adds) - set dels \<Longrightarrow>
    lv_effect pool (OpChange n adds dels skip) v
      (v(n \<mapsto> x\<lparr>o_tags := ts, o_skip := (case skip of None \<Rightarrow> o_skip x | Some b \<Rightarrow> b)\<rparr>))"
| eff_activate: "v n = Some x \<Longrightarrow>
    lv_effect pool (OpActivate n ignore) v (v(n \<mapsto> x\<lparr>o_active := o_active x \<or> ignore \<or> \<not> o_skip x\<rparr>))"
| eff_deactivate: "v n = Some x \<Longrightarrow> lv_effect pool (OpDeactivate n) v (v(n \<mapsto> x\<lparr>o_active := False\<rparr>))"
| eff_remove: "v n = Some x \<Longrightarrow>
    lv_effect pool (OpRemove n) v (\<lambda>m. if m = n then None else map_option (reorigin n []) (v m))"
| eff_create: "v n = None \<Longrightarrow> s \<le> s' \<Longrightarrow> distinct ts \<Longrightarrow> set ts = set tags \<Longrightarrow>
    lv_effect pool (OpCreateThin n s tags act) v
      (v(n \<mapsto> \<lparr>o_tags = ts, o_pool = pool, o_origin = [], o_size = s', o_active = (act \<noteq> Some False),
               o_skip = False, o_data = (\<lambda>_. 0)\<rparr>))"
| eff_snapshot: "v origin = Some x \<Longrightarrow> v n = None \<Longrightarrow> distinct ts \<Longrightarrow> set ts = set tags \<Longrightarrow>
    lv_effect pool (OpSnapshot origin n tags perm) v
      (v(n \<mapsto> \<lparr>o_tags = ts, o_pool = o_pool x, o_origin = origin, o_size = o_size x, o_active = False,
               o_skip = True, o_data = o_data x\<rparr>))"
| eff_rename: "v a = Some x \<Longrightarrow> v b = None \<Longrightarrow>
    lv_effect pool (OpRename a b) v
      (\<lambda>m. map_option (reorigin a b) (if m = b then Some x else if m = a then None else v m))"
| eff_resize: "v n = Some x \<Longrightarrow> s \<le> s' \<Longrightarrow> lv_effect pool (OpResize n s) v (v(n \<mapsto> x\<lparr>o_size := s'\<rparr>))"

inductive_cases eff_changeE: "lv_effect pool (OpChange n adds dels skip) v v'"
inductive_cases eff_activateE: "lv_effect pool (OpActivate n ignore) v v'"
inductive_cases eff_deactivateE: "lv_effect pool (OpDeactivate n) v v'"
inductive_cases eff_removeE: "lv_effect pool (OpRemove n) v v'"
inductive_cases eff_createE: "lv_effect pool (OpCreateThin n s tags act) v v'"
inductive_cases eff_snapshotE: "lv_effect pool (OpSnapshot origin n tags perm) v v'"
inductive_cases eff_renameE: "lv_effect pool (OpRename a b) v v'"
inductive_cases eff_resizeE: "lv_effect pool (OpResize n s) v v'"

text \<open>What a report tells of a volume, and a report of the volumes that satisfy \<open>P\<close>.\<close>

definition shows_obj :: "LogicalVolume \<Rightarrow> lvobj \<Rightarrow> bool" where
  "shows_obj lv x \<longleftrightarrow>
     lv_Tags lv = o_tags x \<and> lv_Pool lv = o_pool x \<and> lv_Origin lv = o_origin x \<and>
     lv_SizeBytes lv = o_size x \<and> lv_Active lv = o_active x"

definition reports :: "(string \<Rightarrow> lvobj \<Rightarrow> bool) \<Rightarrow> lvview \<Rightarrow> LogicalVolume list \<Rightarrow> bool" where
  "reports P v lvs \<longleftrightarrow>
     distinct (map lv_Name lvs) \<and>
     set (map lv_Name lvs) = {n. \<exists>x. v n = Some x \<and> P n x} \<and>
     (\<forall>lv \<in> set lvs. \<exists>x. v (lv_Name lv) = Some x \<and> shows_obj lv x)"

text \<open>
  The characters lvm admits in names. A selection \<^verbatim>\<open>lv_name = n\<close> compares with \<open>n\<close> when \<open>n\<close> is one
  plain word of them.
\<close>

definition name_char :: "char \<Rightarrow> bool" where
  "name_char c \<longleftrightarrow>
     (let n = of_char c :: nat in
      97 \<le> n \<and> n \<le> 122 \<or> 65 \<le> n \<and> n \<le> 90 \<or> 48 \<le> n \<and> n \<le> 57 \<or> c \<in> {CHR ''_'', CHR ''+'', CHR ''.'', CHR ''-''})"

definition lv_name_ok :: "string \<Rightarrow> bool" where
  "lv_name_ok s \<longleftrightarrow> s \<noteq> [] \<and> list_all name_char s \<and> hd s \<noteq> CHR ''-'' \<and> hd s \<noteq> CHR ''.''"

text \<open>
  A fallible call performs the command \<open>op\<close>: on success the view changed by its effect, on failure by
  its effect or not at all.
\<close>

definition does :: "('w \<Rightarrow> lvview) \<Rightarrow> string \<Rightarrow> lvop \<Rightarrow> ('w, 'e, unit) go \<Rightarrow> bool" where
  "does view pool op m \<longleftrightarrow>
     (\<forall>w r w'. m w = (r, w') \<longrightarrow>
        (if is_err r then view w' = view w \<or> lv_effect pool op (view w) (view w')
         else lv_effect pool op (view w) (view w')))"

lemma does_cases:
  assumes "does view pool op m" and "m w = (r, w')"
  obtains (none) e where "r = Inl e" and "view w' = view w"
  | (some) "lv_effect pool op (view w) (view w')"
  using assms unfolding does_def by (cases r) (metis is_err_simps)+

lemma does_ok: "does view pool op m \<Longrightarrow> m w = (Inr u, w') \<Longrightarrow> lv_effect pool op (view w) (view w')"
  unfolding does_def by fastforce

lemma does_mapErr: "does view pool op m \<Longrightarrow> does view pool op (mapErr g m)"
  unfolding does_def by (fastforce elim!: mapErr_cases)

section \<open>The contract\<close>

locale lvm2 =
  fixes run :: "'w runner"
    and vg pool :: string
    and view :: "'w \<Rightarrow> lvview"
  assumes effect_ok: "run (argv vg pool op) w = (Inr out, w') \<Longrightarrow> lv_effect pool op (view w) (view w')"
    and effect_err: "run (argv vg pool op) w = (Inl f, w') \<Longrightarrow>
      view w' = view w \<or> lv_effect pool op (view w) (view w')"
    and report_frame: "run (lvs_argv vg sel) w = (r, w') \<Longrightarrow> view w' = view w"
    and report_name: "lv_name_ok n \<Longrightarrow> run (lvs_argv vg (sel_name n)) w = (Inr out, w') \<Longrightarrow>
      parseLVReport out = Inr lvs \<Longrightarrow> reports (\<lambda>m _. m = n) (view w) lvs"
    and report_pool: "lv_name_ok pool \<Longrightarrow> run (lvs_argv vg (sel_pool pool)) w = (Inr out, w') \<Longrightarrow>
      parseLVReport out = Inr lvs \<Longrightarrow> reports (\<lambda>_ x. o_pool x = pool) (view w) lvs"

text \<open>The options the daemon passes to the client library, and the commands they make.\<close>

definition retag_opts :: "string list \<Rightarrow> string list \<Rightarrow> bool option \<Rightarrow> ChangeLogicalVolumeOptions" where
  "retag_opts adds dels skip =
     \<lparr>chl_Common = no_common, chl_AddTags = adds, chl_RemoveTags = dels, chl_Permission = [],
      chl_Contiguous = None, chl_Zero = None, chl_Discards = [], chl_ErrorWhenFull = None,
      chl_SetActivationSkip = skip, chl_Readahead = [], chl_Allocation = [], chl_SetAutoactivation = None\<rparr>"

definition thin_opts :: "string list \<Rightarrow> bool option \<Rightarrow> CreateThinVolumeOptions" where
  "thin_opts tags act =
     \<lparr>ctv_Common = no_common, ctv_AddTags = tags, ctv_Activate = act, ctv_Permission = [],
      ctv_Readahead = [], ctv_Contiguous = None, ctv_Allocation = [], ctv_SetActivationSkip = None,
      ctv_IgnoreActivationSkip = False, ctv_SetAutoactivation = None, ctv_Zero = None,
      ctv_WipeSignatures = None\<rparr>"

definition snap_opts :: "string list \<Rightarrow> Permission \<Rightarrow> CreateThinSnapshotOptions" where
  "snap_opts tags perm =
     \<lparr>cts_Common = no_common, cts_AddTags = tags, cts_Pool = [], cts_Activate = None,
      cts_Permission = perm, cts_Readahead = [], cts_Contiguous = None, cts_Allocation = [],
      cts_SetActivationSkip = None, cts_IgnoreActivationSkip = False, cts_SetAutoactivation = None\<rparr>"

definition activate_opts :: "bool \<Rightarrow> ActivateLogicalVolumeOptions" where
  "activate_opts ignore = \<lparr>alv_Common = no_common, alv_IgnoreActivationSkip = ignore\<rparr>"

definition force_remove :: RemoveLogicalVolumeOptions where
  "force_remove = \<lparr>rlv_Common = no_common, rlv_Force = True, rlv_NoHistory = False\<rparr>"

definition resize_opts :: ResizeLogicalVolumeOptions where
  "resize_opts =
     \<lparr>reslv_Common = no_common, reslv_ResizeFilesystem = False, reslv_PoolMetadataSizeBytes = 0,
      reslv_Stripes = 0, reslv_StripeSizeBytes = 0, reslv_Allocation = []\<rparr>"

definition list_opts :: "string \<Rightarrow> string \<Rightarrow> ListLogicalVolumesOptions" where
  "list_opts vg sel =
     \<lparr>llv_Common = no_common, llv_VG = vg, llv_Select = sel, llv_All = False, llv_History = False\<rparr>"

lemma retag_command [cmd_simps]:
  assumes "adds @ dels \<noteq> []"
  shows "ChangeLogicalVolume (daemon_client run) (SelName (vg @ ''/'' @ n)) (retag_opts adds dels skip) =
    run_unit (daemon_client run) (''changing logical volumes '' @ vg @ ''/'' @ n)
      (argv vg pool (OpChange n adds dels skip))"
proof -
  have "lv_properties (retag_opts adds dels skip) \<noteq> 0"
    using assms by (auto simp: lv_properties_def retag_opts_def)
  then show ?thesis
    by (simp add: ChangeLogicalVolume_def fmt_Selector_def) (simp add: retag_opts_def)
qed

lemma create_command [cmd_simps]:
  "CreateThinVolume (daemon_client run) vg pool n s (thin_opts tags act) =
    run_unit (daemon_client run) (''creating thin volume '' @ vg @ ''/'' @ n)
      (argv vg pool (OpCreateThin n s tags act))"
  by (simp add: CreateThinVolume_def thin_opts_def)

lemma snapshot_command [cmd_simps]:
  "CreateThinSnapshot (daemon_client run) vg origin n (snap_opts tags perm) =
    run_unit (daemon_client run) (''creating thin snapshot '' @ vg @ ''/'' @ n @ '' of '' @ origin)
      (argv vg pool (OpSnapshot origin n tags perm))"
  by (simp add: CreateThinSnapshot_def snap_opts_def)

lemma activate_command [cmd_simps]:
  "ActivateLogicalVolume (daemon_client run) (SelName (vg @ ''/'' @ n)) (activate_opts ignore) =
    run_unit (daemon_client run) (''activating logical volumes '' @ vg @ ''/'' @ n)
      (argv vg pool (OpActivate n ignore))"
  by (simp add: ActivateLogicalVolume_def activate_opts_def fmt_Selector_def)

lemma deactivate_command [cmd_simps]:
  "DeactivateLogicalVolume (daemon_client run) (SelName (vg @ ''/'' @ n)) no_common =
    run_unit (daemon_client run) (''deactivating logical volumes '' @ vg @ ''/'' @ n)
      (argv vg pool (OpDeactivate n))"
  by (simp add: DeactivateLogicalVolume_def fmt_Selector_def)

lemma remove_command [cmd_simps]:
  "RemoveLogicalVolume (daemon_client run) (SelName (vg @ ''/'' @ n)) force_remove =
    run_unit (daemon_client run) (''removing logical volumes '' @ vg @ ''/'' @ n)
      (argv vg pool (OpRemove n))"
  by (simp add: RemoveLogicalVolume_def force_remove_def read_only_def fmt_Selector_def)

lemma rename_command [cmd_simps]:
  "RenameLogicalVolume (daemon_client run) vg a b no_common =
    run_unit (daemon_client run) (''renaming logical volume '' @ vg @ ''/'' @ a @ '' to '' @ b)
      (argv vg pool (OpRename a b))"
  by (simp add: RenameLogicalVolume_def)

lemma resize_command [cmd_simps]:
  "ResizeLogicalVolume (daemon_client run) (vg @ ''/'' @ n) (Bytes s) resize_opts =
    run_unit (daemon_client run) (''resizing logical volume '' @ vg @ ''/'' @ n)
      (argv vg pool (OpResize n s))"
  by (simp add: ResizeLogicalVolume_def resize_opts_def Bytes_def size_args_def)

lemma list_command:
  assumes "sel \<noteq> []" and "vg \<noteq> []"
  shows "ListLogicalVolumes (daemon_client run) (list_opts vg sel) =
    seqE (run_output (daemon_client run) ''listing logical volumes'' (lvs_argv vg sel))
      (\<lambda>out w. (parseLVReport out, w))"
  using assms
  by (simp add: ListLogicalVolumes_def list_opts_def lvs_argv_def lvs_columns_def read_only_def
      flag_str_def arg_if_def)

section \<open>The client library under the contract\<close>

context lvm2
begin

lemma does_run_unit: "does view pool op (run_unit (daemon_client run) what (argv vg pool op))"
  unfolding does_def by (auto elim!: run_unit_cases dest: effect_ok effect_err)

lemma does_retag:
  assumes "adds @ dels \<noteq> []"
  shows "does view pool (OpChange n adds dels skip)
    (ChangeLogicalVolume (daemon_client run) (SelName (vg @ ''/'' @ n)) (retag_opts adds dels skip))"
  unfolding retag_command [OF assms, of run vg n skip pool] by (rule does_run_unit)

lemma does_create:
  "does view pool (OpCreateThin n s tags act) (CreateThinVolume (daemon_client run) vg pool n s (thin_opts tags act))"
  unfolding create_command by (rule does_run_unit)

lemma does_snapshot:
  "does view pool (OpSnapshot origin n tags perm)
    (CreateThinSnapshot (daemon_client run) vg origin n (snap_opts tags perm))"
  unfolding snapshot_command [of run vg origin n tags perm pool] by (rule does_run_unit)

lemma does_activate:
  "does view pool (OpActivate n ignore)
    (ActivateLogicalVolume (daemon_client run) (SelName (vg @ ''/'' @ n)) (activate_opts ignore))"
  unfolding activate_command [of run vg n ignore pool] by (rule does_run_unit)

lemma does_deactivate:
  "does view pool (OpDeactivate n) (DeactivateLogicalVolume (daemon_client run) (SelName (vg @ ''/'' @ n)) no_common)"
  unfolding deactivate_command [of run vg n pool] by (rule does_run_unit)

lemma does_remove:
  "does view pool (OpRemove n) (RemoveLogicalVolume (daemon_client run) (SelName (vg @ ''/'' @ n)) force_remove)"
  unfolding remove_command [of run vg n pool] by (rule does_run_unit)

lemma does_rename: "does view pool (OpRename a b) (RenameLogicalVolume (daemon_client run) vg a b no_common)"
  unfolding rename_command [of run vg a b pool] by (rule does_run_unit)

lemma does_resize:
  "does view pool (OpResize n s) (ResizeLogicalVolume (daemon_client run) (vg @ ''/'' @ n) (Bytes s) resize_opts)"
  unfolding resize_command [of run vg n s pool] by (rule does_run_unit)

lemma list_frame:
  assumes "sel \<noteq> []" and "vg \<noteq> []"
    and "ListLogicalVolumes (daemon_client run) (list_opts vg sel) w = (r, w')"
  shows "view w' = view w"
  using assms(3) unfolding list_command [OF assms(1,2)]
  by (auto elim!: seqE_cases run_output_cases dest: report_frame)

lemma list_by_name:
  assumes "vg \<noteq> []" and "lv_name_ok n"
    and "ListLogicalVolumes (daemon_client run) (list_opts vg (sel_name n)) w = (Inr lvs, w')"
  shows "reports (\<lambda>m _. m = n) (view w) lvs"
  using assms(3) unfolding list_command [OF sel_nonempty(1) assms(1)]
  by (auto elim!: seqE_cases run_output_cases dest: report_name [OF assms(2)])

lemma list_by_pool:
  assumes "vg \<noteq> []" and "lv_name_ok pool"
    and "ListLogicalVolumes (daemon_client run) (list_opts vg (sel_pool pool)) w = (Inr lvs, w')"
  shows "reports (\<lambda>_ x. o_pool x = pool) (view w) lvs"
  using assms(3) unfolding list_command [OF sel_nonempty(2) assms(1)]
  by (auto elim!: seqE_cases run_output_cases dest: report_pool [OF assms(2)])

end

end
