(* ===== verification/Config.thy ===== *)
theory Config
  imports GoStd
begin

text \<open>
  The daemon's configuration: \<^verbatim>\<open>internal/config/config.go\<close>. The layers of the configuration (defaults,
  file, environment) are read by a third-party package, so \<open>Load\<close> takes its operations as arguments;
  everything from the decoded values on (\<open>validate\<close>, \<open>parsePoolSize\<close>, \<open>parseLevel\<close>) is modelled, with
  \<^verbatim>\<open>time.ParseDuration\<close> of the standard library.
\<close>

section \<open>time.ParseDuration\<close>

definition time_units :: "(string \<times> nat) list" where
  "time_units =
     [(''ns'', 1), (''us'', 1000), ([char_of (194::nat), char_of (181::nat), CHR ''s''], 1000),
      ([char_of (206::nat), char_of (188::nat), CHR ''s''], 1000), (''ms'', 10 ^ 6), (''s'', 10 ^ 9),
      (''m'', 60 * 10 ^ 9), (''h'', 3600 * 10 ^ 9)]"

text \<open>
  Digits after the point: value and power of ten, with the digits that no longer fit ignored.
\<close>

fun leading_fraction :: "string \<Rightarrow> nat \<Rightarrow> nat \<Rightarrow> bool \<Rightarrow> nat \<times> nat" where
  "leading_fraction [] x k overflow = (x, k)"
| "leading_fraction (c # cs) x k overflow =
     (if overflow \<or> (2 ^ 63 - 1) div 10 < x then leading_fraction cs x k True
      else let y = x * 10 + digit_val c in
        if 2 ^ 63 < y then leading_fraction cs x k True else leading_fraction cs y (k + 1) False)"

definition is_num_char :: "char \<Rightarrow> bool" where
  "is_num_char c \<longleftrightarrow> c = CHR ''.'' \<or> is_digit c"

text \<open>One number with its unit: the nanoseconds it denotes and the rest of the text.\<close>

definition duration_term :: "string \<Rightarrow> (nat \<times> string) option" where
  "duration_term s =
     (let (ip, s1) = span_digits s; v = dec_val ip;
          (frac, s2) = (case s1 of
             [] \<Rightarrow> (None, [])
           | c # cs \<Rightarrow> if c = CHR ''.'' then (let (fp, r) = span_digits cs in (Some fp, r)) else (None, s1));
          (x, k) = (case frac of None \<Rightarrow> (0, 0) | Some fp \<Rightarrow> leading_fraction fp 0 0 False);
          u = takeWhile (\<lambda>c. \<not> is_num_char c) s2; s3 = dropWhile (\<lambda>c. \<not> is_num_char c) s2 in
      if s = [] \<or> \<not> is_num_char (hd s) \<or> 2 ^ 63 < v then None
      else if ip = [] \<and> (case frac of None \<Rightarrow> True | Some fp \<Rightarrow> fp = []) then None
      else case map_of time_units u of
        None \<Rightarrow> None
      | Some unit \<Rightarrow>
          if 2 ^ 63 div unit < v then None
          else let w = v * unit +
                 (if 0 < x
                  then unat (u64_of_f64 (f64_mul (f64_of_u64 (of_nat x))
                         (f64_div (Fin (of_nat unit)) (10 ^ k)))) else 0) in
            if 2 ^ 63 < w then None else Some (w, s3))"

lemma duration_term_shorter: "duration_term s = Some (d, r) \<Longrightarrow> length r < length s"
proof -
  assume d: "duration_term s = Some (d, r)"
  have le: "length (snd (span_digits t)) \<le> length t" for t
    by (induction t) (auto split: prod.splits)
  obtain ip s1 where sp: "span_digits s = (ip, s1)" by force
  have s1: "length s1 \<le> length s" using le [of s] sp by simp
  define s2 where "s2 = snd (case s1 of
             [] \<Rightarrow> (None, [])
           | c # cs \<Rightarrow> if c = CHR ''.'' then (let (fp, r) = span_digits cs in (Some fp, r)) else (None, s1))"
  have s2: "length s2 \<le> length s1"
    using le [of "tl s1"] by (cases s1) (auto simp: s2_def split: prod.splits)
  from d sp have r: "r = dropWhile (\<lambda>c. \<not> is_num_char c) s2"
    and u: "takeWhile (\<lambda>c. \<not> is_num_char c) s2 \<noteq> []"
    by (auto simp: duration_term_def s2_def time_units_def Let_def split: prod.splits option.splits if_splits list.splits)
  from u have "length (dropWhile (\<lambda>c. \<not> is_num_char c) s2) < length s2"
    by (cases s2) (auto simp: less_Suc_eq_le length_dropWhile_le)
  with r s1 s2 show ?thesis by simp
qed

function duration_sum :: "string \<Rightarrow> nat \<Rightarrow> nat option" where
  "duration_sum s d =
     (if s = [] then Some d
      else case duration_term s of
        None \<Rightarrow> None
      | Some (v, r) \<Rightarrow> if 2 ^ 63 < d + v then None else duration_sum r (d + v))"
  by pat_completeness auto
termination
  by (relation "measure (\<lambda>(s, d). length s)") (auto dest: duration_term_shorter)

declare duration_sum.simps [simp del]

definition ParseDuration :: "string \<Rightarrow> int option" where
  "ParseDuration s0 =
     (let (neg, s) = (case s0 of
             [] \<Rightarrow> (False, [])
           | c # cs \<Rightarrow> if c = CHR ''-'' then (True, cs)
                      else if c = CHR ''+'' then (False, cs) else (False, s0)) in
      if s = ''0'' then Some 0
      else if s = [] then None
      else case duration_sum s 0 of
        None \<Rightarrow> None
      | Some d \<Rightarrow> if neg then Some (- int d) else if 2 ^ 63 \<le> d then None else Some (int d))"

section \<open>Configuration\<close>

datatype Level = LevelDebug | LevelInfo | LevelWarn | LevelError

record TLS =
  tls_CAFile :: string
  tls_CertFile :: string
  tls_KeyFile :: string

definition tls_Enabled :: "TLS \<Rightarrow> bool" where
  "tls_Enabled t \<longleftrightarrow> tls_CAFile t \<noteq> [] \<or> tls_CertFile t \<noteq> [] \<or> tls_KeyFile t \<noteq> []"

record PoolSize =
  ps_Bytes :: u64
  ps_Percent :: u64

record Config =
  cfg_ListenAddress :: string
  cfg_LogLevel :: Level
  cfg_VolumeGroup :: string
  cfg_ThinPool :: string
  cfg_CreatePool :: bool
  cfg_PoolSize :: PoolSize
  cfg_MaxInboundTransfers :: int
  cfg_TransferGrace :: int
  cfg_TLS :: TLS
  cfg_Insecure :: bool

record rawConfig =
  rc_ListenAddress :: string
  rc_LogLevel :: string
  rc_VolumeGroup :: string
  rc_ThinPool :: string
  rc_CreatePool :: bool
  rc_PoolSize :: string
  rc_MaxInboundTransfers :: int
  rc_TransferGrace :: string
  rc_TLS :: TLS
  rc_Insecure :: bool

definition parseLevel :: "string \<Rightarrow> string + Level" where
  "parseLevel name =
     (let l = ToLower name in
      if l = ''debug'' then Inr LevelDebug
      else if l = ''info'' then Inr LevelInfo
      else if l = ''warn'' then Inr LevelWarn
      else if l = ''error'' then Inr LevelError
      else Inl (''unknown log_level: '' @ Quote name))"

definition parsePoolSize :: "string \<Rightarrow> string + PoolSize" where
  "parsePoolSize v =
     (if v = [] then Inl ''create_pool requires pool_size''
      else if HasSuffix v ''%'' then
        (case ParseUint (TrimSuffix v ''%'') of
           Inl _ \<Rightarrow> Inl (''pool_size percentage must be 1-100: '' @ Quote v)
         | Inr percent \<Rightarrow>
             if percent = 0 \<or> percent > 100 then Inl (''pool_size percentage must be 1-100: '' @ Quote v)
             else Inr \<lparr>ps_Bytes = 0, ps_Percent = percent\<rparr>)
      else
        (let (multiplier, number) =
           (if HasSuffix v ''K'' then (2 ^ 10, TrimSuffix v ''K'')
            else if HasSuffix v ''M'' then (2 ^ 20, TrimSuffix v ''M'')
            else if HasSuffix v ''G'' then (2 ^ 30, TrimSuffix v ''G'')
            else if HasSuffix v ''T'' then (2 ^ 40, TrimSuffix v ''T'')
            else (1, v));
           refusal = ''pool_size must be bytes with an optional K, M, G or T suffix, or a percentage: '' @ Quote v in
         case ParseUint number of
           Inl _ \<Rightarrow> Inl refusal
         | Inr n \<Rightarrow> if n = 0 then Inl refusal else Inr \<lparr>ps_Bytes = n * multiplier, ps_Percent = 0\<rparr>))"

definition validate :: "rawConfig \<Rightarrow> string + Config" where
  "validate raw =
     (if rc_ListenAddress raw = [] then Inl ''listen_address must be set'' else
      case parseLevel (rc_LogLevel raw) of Inl e \<Rightarrow> Inl e | Inr level \<Rightarrow>
      if rc_VolumeGroup raw = [] then Inl ''volume_group must be set'' else
      if rc_ThinPool raw = [] then Inl ''thin_pool must be set'' else
      case (if rc_CreatePool raw then parsePoolSize (rc_PoolSize raw)
            else if rc_PoolSize raw \<noteq> [] then Inl ''pool_size requires create_pool''
            else Inr \<lparr>ps_Bytes = 0, ps_Percent = 0\<rparr>) of Inl e \<Rightarrow> Inl e | Inr poolSize \<Rightarrow>
      if rc_MaxInboundTransfers raw \<le> 0 then Inl ''max_inbound_transfers must be positive'' else
      case ParseDuration (rc_TransferGrace raw) of
        None \<Rightarrow> Inl (''transfer_grace must be a positive duration: '' @ Quote (rc_TransferGrace raw))
      | Some grace \<Rightarrow>
          if grace \<le> 0 then Inl (''transfer_grace must be a positive duration: '' @ Quote (rc_TransferGrace raw)) else
          let tls = rc_TLS raw in
          if tls_Enabled tls \<and> rc_Insecure raw then Inl ''tls and insecure exclude each other'' else
          if tls_Enabled tls \<and> (tls_CAFile tls = [] \<or> tls_CertFile tls = [] \<or> tls_KeyFile tls = [])
            then Inl ''tls needs ca_file, cert_file and key_file'' else
          if \<not> tls_Enabled tls \<and> \<not> rc_Insecure raw
            then Inl ''either configure tls or opt in with insecure: true'' else
          Inr \<lparr>cfg_ListenAddress = rc_ListenAddress raw, cfg_LogLevel = level,
               cfg_VolumeGroup = rc_VolumeGroup raw, cfg_ThinPool = rc_ThinPool raw,
               cfg_CreatePool = rc_CreatePool raw, cfg_PoolSize = poolSize,
               cfg_MaxInboundTransfers = rc_MaxInboundTransfers raw, cfg_TransferGrace = grace,
               cfg_TLS = tls, cfg_Insecure = rc_Insecure raw\<rparr>)"

text \<open>
  The operations of the configuration package on its store: load a map of defaults, a yaml file (a
  missing file is told apart), the environment with names mapped by the given function, and decode.
\<close>

datatype confval = ConfString string | ConfInt int

record 's koanf =
  k_new :: 's
  k_confmap :: "(string \<times> confval) list \<Rightarrow> 's \<Rightarrow> string + 's"
  k_file :: "string \<Rightarrow> 's \<Rightarrow> (bool \<times> string) + 's"
  k_env :: "(string \<Rightarrow> string) \<Rightarrow> 's \<Rightarrow> string + 's"
  k_unmarshal :: "'s \<Rightarrow> string + rawConfig"

definition defaults :: "(string \<times> confval) list" where
  "defaults =
     [(''listen_address'', ConfString ''127.0.0.1:50051''), (''log_level'', ConfString ''info''),
      (''max_inbound_transfers'', ConfInt 4), (''transfer_grace'', ConfString ''60s'')]"

definition envPrefix :: string where
  "envPrefix = ''BEANSTORE_''"

definition env_name :: "string \<Rightarrow> string" where
  "env_name name = ToLower (TrimPrefix name envPrefix)"

definition Load :: "'s koanf \<Rightarrow> string \<Rightarrow> bool \<Rightarrow> string + Config" where
  "Load k path required =
     (case k_confmap k defaults (k_new k) of Inl e \<Rightarrow> Inl (''loading defaults: '' @ e) | Inr s1 \<Rightarrow>
      case (if path = [] then Inr s1
            else case k_file k path s1 of
              Inr s \<Rightarrow> Inr s
            | Inl (notExist, e) \<Rightarrow>
                if required \<or> \<not> notExist then Inl (''loading config file '' @ path @ '': '' @ e) else Inr s1) of
        Inl e \<Rightarrow> Inl e
      | Inr s2 \<Rightarrow>
          (case k_env k env_name s2 of Inl e \<Rightarrow> Inl (''loading environment: '' @ e) | Inr s3 \<Rightarrow>
           case k_unmarshal k s3 of Inl e \<Rightarrow> Inl (''unmarshalling config: '' @ e) | Inr raw \<Rightarrow> validate raw))"

section \<open>Theorems\<close>

text \<open>What the rest of the daemon relies on.\<close>

definition config_ok :: "Config \<Rightarrow> bool" where
  "config_ok cfg \<longleftrightarrow>
     cfg_ListenAddress cfg \<noteq> [] \<and> cfg_VolumeGroup cfg \<noteq> [] \<and> cfg_ThinPool cfg \<noteq> [] \<and>
     0 < cfg_MaxInboundTransfers cfg \<and> 0 < cfg_TransferGrace cfg \<and>
     (if cfg_Insecure cfg then \<not> tls_Enabled (cfg_TLS cfg)
      else tls_CAFile (cfg_TLS cfg) \<noteq> [] \<and> tls_CertFile (cfg_TLS cfg) \<noteq> [] \<and> tls_KeyFile (cfg_TLS cfg) \<noteq> []) \<and>
     ps_Percent (cfg_PoolSize cfg) \<le> 100 \<and>
     (ps_Percent (cfg_PoolSize cfg) \<noteq> 0 \<longrightarrow> cfg_CreatePool cfg \<and> ps_Bytes (cfg_PoolSize cfg) = 0) \<and>
     (\<not> cfg_CreatePool cfg \<longrightarrow> ps_Bytes (cfg_PoolSize cfg) = 0)"

lemma parsePoolSize_ok:
  assumes "parsePoolSize v = Inr p"
  shows "ps_Percent p \<le> 100 \<and> (ps_Percent p \<noteq> 0 \<longrightarrow> ps_Bytes p = 0)"
  using assms
  by (auto simp: parsePoolSize_def Let_def split: if_splits sum.splits)

lemma validate_config_ok: "validate raw = Inr cfg \<Longrightarrow> config_ok cfg"
  by (auto simp: validate_def config_ok_def Let_def tls_Enabled_def split: if_splits sum.splits option.splits
      dest!: parsePoolSize_ok)

lemma validate_copies:
  assumes "validate raw = Inr cfg"
  shows "cfg_ListenAddress cfg = rc_ListenAddress raw \<and> cfg_VolumeGroup cfg = rc_VolumeGroup raw \<and>
    cfg_ThinPool cfg = rc_ThinPool raw \<and> cfg_CreatePool cfg = rc_CreatePool raw \<and>
    cfg_MaxInboundTransfers cfg = rc_MaxInboundTransfers raw \<and> cfg_Insecure cfg = rc_Insecure raw \<and>
    cfg_TLS cfg = rc_TLS raw \<and> ParseDuration (rc_TransferGrace raw) = Some (cfg_TransferGrace cfg)"
  using assms unfolding validate_def Let_def
  by (simp split: if_splits sum.splits option.splits) (elim disjE conjE exE; simp; hypsubst; simp)+

text \<open>
  C23. What a validated configuration guarantees: the names and the address are set, the limits are
  positive, the transport is either mutual TLS with all three files or explicitly insecure, a pool
  size is present only when the pool may be created, and it is a percentage of at most 100 or a byte
  count, never both. Address, names, limits, transport files and the two opt-ins are those that were
  configured.
\<close>

theorem validate_sound:
  assumes "validate raw = Inr cfg"
  shows "config_ok cfg \<and>
    cfg_ListenAddress cfg = rc_ListenAddress raw \<and> cfg_VolumeGroup cfg = rc_VolumeGroup raw \<and>
    cfg_ThinPool cfg = rc_ThinPool raw \<and> cfg_CreatePool cfg = rc_CreatePool raw \<and>
    cfg_MaxInboundTransfers cfg = rc_MaxInboundTransfers raw \<and> cfg_Insecure cfg = rc_Insecure raw \<and>
    cfg_TLS cfg = rc_TLS raw \<and> ParseDuration (rc_TransferGrace raw) = Some (cfg_TransferGrace cfg)"
  using validate_config_ok [OF assms] validate_copies [OF assms] by blast

definition example_raw :: rawConfig where
  "example_raw =
     \<lparr>rc_ListenAddress = '':7411'', rc_LogLevel = ''info'', rc_VolumeGroup = ''vg0'', rc_ThinPool = ''thin'',
      rc_CreatePool = True, rc_PoolSize = ''80%'', rc_MaxInboundTransfers = 4, rc_TransferGrace = ''1m30s'',
      rc_TLS = \<lparr>tls_CAFile = [], tls_CertFile = [], tls_KeyFile = []\<rparr>, rc_Insecure = True\<rparr>"

lemma example_duration: "ParseDuration ''1m30s'' = Some 90000000000"
  by (simp add: ParseDuration_def duration_sum.simps duration_term_def time_units_def is_num_char_def
      is_digit_def dec_val_def digit_val_def)

lemma example_valid:
  "validate example_raw = Inr
     \<lparr>cfg_ListenAddress = '':7411'', cfg_LogLevel = LevelInfo, cfg_VolumeGroup = ''vg0'', cfg_ThinPool = ''thin'',
      cfg_CreatePool = True, cfg_PoolSize = \<lparr>ps_Bytes = 0, ps_Percent = 80\<rparr>, cfg_MaxInboundTransfers = 4,
      cfg_TransferGrace = 90000000000, cfg_TLS = \<lparr>tls_CAFile = [], tls_CertFile = [], tls_KeyFile = []\<rparr>,
      cfg_Insecure = True\<rparr>"
  by (simp add: validate_def example_raw_def example_duration parseLevel_def ToLower_def lower_char_def parsePoolSize_def
      HasSuffix_def TrimSuffix_def ParseUint_def is_digit_def digit_val_def tls_Enabled_def Let_def)

text \<open>The defaults are usable: a file that names the group and the pool and opts out of TLS is enough.\<close>

lemma defaults_valid:
  assumes "map_of defaults ''listen_address'' = Some (ConfString (rc_ListenAddress raw))"
    and "map_of defaults ''log_level'' = Some (ConfString (rc_LogLevel raw))"
    and "map_of defaults ''max_inbound_transfers'' = Some (ConfInt (rc_MaxInboundTransfers raw))"
    and "map_of defaults ''transfer_grace'' = Some (ConfString (rc_TransferGrace raw))"
    and "rc_VolumeGroup raw \<noteq> []" and "rc_ThinPool raw \<noteq> []" and "\<not> rc_CreatePool raw" and "rc_PoolSize raw = []"
    and "rc_Insecure raw" and "\<not> tls_Enabled (rc_TLS raw)"
  shows "\<exists>cfg. validate raw = Inr cfg \<and> cfg_LogLevel cfg = LevelInfo \<and> cfg_MaxInboundTransfers cfg = 4 \<and>
    cfg_TransferGrace cfg = 60 * 10 ^ 9"
proof -
  have "ParseDuration ''60s'' = Some 60000000000"
    by (simp add: ParseDuration_def duration_sum.simps duration_term_def time_units_def is_num_char_def
        is_digit_def dec_val_def digit_val_def)
  moreover have "parseLevel ''info'' = Inr LevelInfo" by (simp add: parseLevel_def ToLower_def lower_char_def)
  ultimately show ?thesis using assms by (auto simp: defaults_def validate_def Let_def)
qed

theorem validate_sound_witness:
  "\<exists>cfg. validate example_raw = Inr cfg \<and> config_ok cfg"
  using validate_sound [OF example_valid] example_valid by blast

text \<open>
  C24. A pool size with a unit is the number times the unit, for every number and unit whose product
  fits 64 bits; the product is otherwise reduced modulo 2^64 without an error.
\<close>

theorem parsePoolSize_units:
  assumes "(u, k) \<in> {(''K'', 10), (''M'', 20), (''G'', 30), (''T'', 40)}" and "n \<noteq> 0"
  shows "parsePoolSize (FormatUint n @ u) = Inr \<lparr>ps_Bytes = n * 2 ^ k, ps_Percent = 0\<rparr>"
proof -
  have suf: "HasSuffix (x @ [c]) [d] \<longleftrightarrow> c = d" and trim: "TrimSuffix (x @ [c]) [c] = x" for x and c d :: char
    by (auto simp: HasSuffix_def TrimSuffix_def)
  show ?thesis
    using assms by (auto simp: parsePoolSize_def suf trim)
qed

theorem parsePoolSize_units_witness:
  "parsePoolSize (FormatUint 16777217 @ ''T'') = Inr \<lparr>ps_Bytes = 2 ^ 40, ps_Percent = 0\<rparr>"
  using parsePoolSize_units [of "''T''" 40 16777217] by simp

end
