(* ===== verification/Tables.thy ===== *)
theory Tables
  imports GoStd
begin

text \<open>
  The volatile tables of the daemon: export pins (\<^verbatim>\<open>internal/storage/exports.go\<close>), operations
  (\<^verbatim>\<open>internal/operations/table.go\<close>) and name reservations (\<^verbatim>\<open>internal/api/rollback.go\<close>). Each method
  holds the table's mutex for its whole body, so a method is one atomic step on the table.

  Two locales state what their clients rely on: \<open>pin_table\<close> (counted holds on a key) and
  \<open>single_use_table\<close> (ids that can be begun once and end in a terminal state). Both are interpreted on
  the definitions of the source.
\<close>

section \<open>Export pins\<close>

type_synonym ExportPins = "string \<rightharpoonup> int"

definition NewExportPins :: ExportPins where
  "NewExportPins = Map.empty"

definition pin_count :: "ExportPins \<Rightarrow> string \<Rightarrow> int" where
  "pin_count p k = (case p k of None \<Rightarrow> 0 | Some n \<Rightarrow> n)"

definition Acquire :: "ExportPins \<Rightarrow> string \<Rightarrow> bool \<times> ExportPins" where
  "Acquire p k = (let n = pin_count p k + 1 in (n = 1, p(k \<mapsto> n)))"

definition Release :: "ExportPins \<Rightarrow> string \<Rightarrow> bool \<times> ExportPins" where
  "Release p k =
     (let n = pin_count p k - 1 in
      if n \<le> 0 then (True, p(k := None)) else (False, p(k \<mapsto> n)))"

definition Pinned :: "ExportPins \<Rightarrow> string \<Rightarrow> bool" where
  "Pinned p k = (pin_count p k > 0)"

text \<open>What the exporting handlers and the deletes rely on: a key is pinned while it is held.\<close>

datatype 'k pin_event = Hold 'k | Drop 'k

fun pin_events ::
  "('t \<Rightarrow> 'k \<Rightarrow> bool \<times> 't) \<Rightarrow> ('t \<Rightarrow> 'k \<Rightarrow> bool \<times> 't) \<Rightarrow> 't \<Rightarrow> 'k pin_event list \<Rightarrow> 't" where
  "pin_events acquire release t [] = t"
| "pin_events acquire release t (Hold k # es) = pin_events acquire release (snd (acquire t k)) es"
| "pin_events acquire release t (Drop k # es) = pin_events acquire release (snd (release t k)) es"

locale pin_table =
  fixes acquire :: "'t \<Rightarrow> 'k \<Rightarrow> bool \<times> 't"
    and release :: "'t \<Rightarrow> 'k \<Rightarrow> bool \<times> 't"
    and pinned :: "'t \<Rightarrow> 'k \<Rightarrow> bool"
    and holds :: "'t \<Rightarrow> 'k \<Rightarrow> nat"
    and invar :: "'t \<Rightarrow> bool"
  assumes invar_acquire: "invar t \<Longrightarrow> invar (snd (acquire t k))"
    and invar_release: "invar t \<Longrightarrow> invar (snd (release t k))"
    and holds_acquire: "invar t \<Longrightarrow> holds (snd (acquire t k)) = (holds t)(k := Suc (holds t k))"
    and holds_release: "invar t \<Longrightarrow> holds (snd (release t k)) = (holds t)(k := holds t k - 1)"
    and first_acquire: "invar t \<Longrightarrow> fst (acquire t k) \<longleftrightarrow> holds t k = 0"
    and last_release: "invar t \<Longrightarrow> fst (release t k) \<longleftrightarrow> holds t k \<le> 1"
    and pinned_holds: "invar t \<Longrightarrow> pinned t k \<longleftrightarrow> 0 < holds t k"
begin

lemma run_events_invar: "invar t \<Longrightarrow> invar (pin_events acquire release t es)"
proof (induction es arbitrary: t)
  case (Cons e es)
  then show ?case by (cases e) (auto simp: invar_acquire invar_release)
qed simp

text \<open>Whatever other holders do, a holder that has not dropped its pin keeps the key pinned.\<close>

lemma run_events_holds:
  assumes "invar t" and "n \<le> holds t k" and "count_list es (Drop k) \<le> count_list es (Hold k) + n"
    and "\<And>us vs. es = us @ vs \<Longrightarrow> count_list us (Drop k) \<le> count_list us (Hold k) + n"
  shows "holds t k + count_list es (Hold k) = holds (pin_events acquire release t es) k + count_list es (Drop k)"
  using assms
proof (induction es arbitrary: t n)
  case (Cons e es)
  have pre: "count_list (e # us) (Drop k) \<le> count_list (e # us) (Hold k) + n" if "es = us @ vs" for us vs
    using Cons.prems(4) [of "e # us" vs] that by simp
  show ?case
  proof (cases e)
    case (Hold j)
    have "holds (snd (acquire t j)) k + count_list es (Hold k) =
        holds (pin_events acquire release (snd (acquire t j)) es) k + count_list es (Drop k)"
    proof (rule Cons.IH [where n = "if j = k then Suc n else n"])
      show "invar (snd (acquire t j))" using Cons.prems(1) by (rule invar_acquire)
      show "(if j = k then Suc n else n) \<le> holds (snd (acquire t j)) k"
        using Cons.prems(1,2) by (auto simp: holds_acquire)
      show "count_list es (Drop k) \<le> count_list es (Hold k) + (if j = k then Suc n else n)"
        using Cons.prems(3) Hold by (auto split: if_splits)
      show "count_list us (Drop k) \<le> count_list us (Hold k) + (if j = k then Suc n else n)"
        if "es = us @ vs" for us vs
        using pre [OF that] Hold by (auto split: if_splits)
    qed
    then show ?thesis
      using Cons.prems(1) Hold by (auto simp: holds_acquire split: if_splits)
  next
    case (Drop j)
    have pos: "j = k \<Longrightarrow> 0 < n" using pre [of "[]" es] Drop by simp
    have "holds (snd (release t j)) k + count_list es (Hold k) =
        holds (pin_events acquire release (snd (release t j)) es) k + count_list es (Drop k)"
    proof (rule Cons.IH [where n = "if j = k then n - 1 else n"])
      show "invar (snd (release t j))" using Cons.prems(1) by (rule invar_release)
      show "(if j = k then n - 1 else n) \<le> holds (snd (release t j)) k"
        using Cons.prems(1,2) by (auto simp: holds_release)
      show "count_list es (Drop k) \<le> count_list es (Hold k) + (if j = k then n - 1 else n)"
        using Cons.prems(3) Drop pos by (auto split: if_splits)
      show "count_list us (Drop k) \<le> count_list us (Hold k) + (if j = k then n - 1 else n)"
        if "es = us @ vs" for us vs
        using pre [OF that] Drop pos by (auto split: if_splits)
    qed
    then show ?thesis
      using Cons.prems(1,2) Drop pos by (auto simp: holds_release split: if_splits)
  qed
qed simp

end

definition pins_ok :: "ExportPins \<Rightarrow> bool" where
  "pins_ok p \<longleftrightarrow> (\<forall>k n. p k = Some n \<longrightarrow> 0 < n)"

interpretation export_pins: pin_table Acquire Release Pinned "\<lambda>p k. nat (pin_count p k)" pins_ok
proof
  fix t k
  assume ok: "pins_ok t"
  have nonneg: "0 \<le> pin_count t j" for j
    using ok by (auto simp: pins_ok_def pin_count_def dest: less_imp_le split: option.splits)
  show "pins_ok (snd (Acquire t k))"
    using ok nonneg [of k] by (auto simp: pins_ok_def Acquire_def Let_def split: if_splits)
  show "pins_ok (snd (Release t k))"
    using ok by (auto simp: pins_ok_def Release_def Let_def split: if_splits)
  show "(\<lambda>j. nat (pin_count (snd (Acquire t k)) j)) =
      (\<lambda>j. nat (pin_count t j))(k := Suc (nat (pin_count t k)))"
    using nonneg [of k] by (auto simp: fun_eq_iff Acquire_def Let_def pin_count_def split: option.splits)
  show "(\<lambda>j. nat (pin_count (snd (Release t k)) j)) =
      (\<lambda>j. nat (pin_count t j))(k := nat (pin_count t k) - 1)"
    using nonneg [of k] by (auto simp: fun_eq_iff Release_def Let_def pin_count_def split: option.splits)
  show "fst (Acquire t k) \<longleftrightarrow> nat (pin_count t k) = 0"
    using nonneg [of k] by (auto simp: Acquire_def Let_def)
  show "fst (Release t k) \<longleftrightarrow> nat (pin_count t k) \<le> 1"
    using nonneg [of k] by (auto simp: Release_def Let_def)
  show "Pinned t k \<longleftrightarrow> 0 < nat (pin_count t k)"
    by (simp add: Pinned_def)
qed

section \<open>Operations\<close>

datatype Phase = Pending | Progressing | Done | Failed

record Operation =
  op_Phase :: Phase
  op_BytesDone :: u64
  op_Reason :: string

type_synonym Table = "string \<rightharpoonup> Operation"

definition NewTable :: Table where
  "NewTable = Map.empty"

definition ops_Begin :: "Table \<Rightarrow> string \<Rightarrow> string + Table" where
  "ops_Begin t k =
     (if t k \<noteq> None then Inl (''operation '' @ k @ '' already exists'')
      else Inr (t(k \<mapsto> \<lparr>op_Phase = Pending, op_BytesDone = 0, op_Reason = []\<rparr>)))"

definition ops_Progress :: "Table \<Rightarrow> string \<Rightarrow> u64 \<Rightarrow> Table" where
  "ops_Progress t k n =
     (if t k \<noteq> None then t(k \<mapsto> \<lparr>op_Phase = Progressing, op_BytesDone = n, op_Reason = []\<rparr>) else t)"

definition ops_Done :: "Table \<Rightarrow> string \<Rightarrow> Table" where
  "ops_Done t k =
     (if t k \<noteq> None then t(k \<mapsto> \<lparr>op_Phase = Done, op_BytesDone = 0, op_Reason = []\<rparr>) else t)"

definition ops_Fail :: "Table \<Rightarrow> string \<Rightarrow> string \<Rightarrow> Table" where
  "ops_Fail t k reason =
     (if t k \<noteq> None then t(k \<mapsto> \<lparr>op_Phase = Failed, op_BytesDone = 0, op_Reason = reason\<rparr>) else t)"

definition ops_Get :: "Table \<Rightarrow> string \<Rightarrow> Operation option" where
  "ops_Get t k = t k"

text \<open>
  What a handler that starts background work relies on: an id can be begun once, whatever happens in
  between, so no id ever names two operations.
\<close>

datatype ('k, 'u) table_call = TryBegin 'k | Update 'u

fun accepted ::
  "('t \<Rightarrow> 'k \<Rightarrow> 'e + 't) \<Rightarrow> ('t \<Rightarrow> 'u \<Rightarrow> 't) \<Rightarrow> 't \<Rightarrow> ('k, 'u) table_call list \<Rightarrow> 'k list" where
  "accepted begin_id update t [] = []"
| "accepted begin_id update t (TryBegin k # cs) =
     (case begin_id t k of
        Inl _ \<Rightarrow> accepted begin_id update t cs
      | Inr t' \<Rightarrow> k # accepted begin_id update t' cs)"
| "accepted begin_id update t (Update u # cs) = accepted begin_id update (update t u) cs"

locale single_use_table =
  fixes begin_id :: "'t \<Rightarrow> 'k \<Rightarrow> 'e + 't"
    and update :: "'t \<Rightarrow> 'u \<Rightarrow> 't"
    and known :: "'t \<Rightarrow> 'k set"
  assumes begin_new: "k \<notin> known t \<Longrightarrow> \<exists>t'. begin_id t k = Inr t' \<and> known t' = insert k (known t)"
    and begin_used: "k \<in> known t \<Longrightarrow> \<exists>e. begin_id t k = Inl e"
    and update_known: "known (update t u) = known t"
begin

lemma accepted_fresh:
  "distinct (accepted begin_id update t cs) \<and>
   set (accepted begin_id update t cs) = {k. TryBegin k \<in> set cs} - known t"
proof (induction cs arbitrary: t)
  case (Cons c cs)
  show ?case
  proof (cases c)
    case (TryBegin k)
    show ?thesis
    proof (cases "k \<in> known t")
      case True
      then obtain e where "begin_id t k = Inl e" using begin_used by blast
      then have "accepted begin_id update t (c # cs) = accepted begin_id update t cs"
        using TryBegin by simp
      moreover have "{j. TryBegin j \<in> set (c # cs)} - known t = {j. TryBegin j \<in> set cs} - known t"
        using TryBegin True by auto
      ultimately show ?thesis using Cons [of t] by simp
    next
      case False
      then obtain t' where "begin_id t k = Inr t'" and "known t' = insert k (known t)"
        using begin_new by blast
      then have "accepted begin_id update t (c # cs) = k # accepted begin_id update t' cs"
        and "{j. TryBegin j \<in> set (c # cs)} - known t = insert k ({j. TryBegin j \<in> set cs} - known t')"
        and "k \<in> known t'"
        using TryBegin False by auto
      then show ?thesis using Cons [of t'] by simp
    qed
  next
    case (Update u)
    then show ?thesis using Cons [of "update t u"] by (simp add: update_known)
  qed
qed simp

end

datatype ops_update = CallProgress string u64 | CallDone string | CallFail string string

fun apply_update :: "Table \<Rightarrow> ops_update \<Rightarrow> Table" where
  "apply_update t (CallProgress k n) = ops_Progress t k n"
| "apply_update t (CallDone k) = ops_Done t k"
| "apply_update t (CallFail k reason) = ops_Fail t k reason"

interpretation op_table: single_use_table ops_Begin apply_update dom
proof
  fix t :: Table and k u
  show "k \<notin> dom t \<Longrightarrow> \<exists>t'. ops_Begin t k = Inr t' \<and> dom t' = insert k (dom t)"
    by (auto simp: ops_Begin_def)
  show "k \<in> dom t \<Longrightarrow> \<exists>e. ops_Begin t k = Inl e"
    by (auto simp: ops_Begin_def)
  show "dom (apply_update t u) = dom t"
    by (cases u) (simp_all add: ops_Progress_def ops_Done_def ops_Fail_def domIff insert_absorb)
qed

section \<open>Name reservations\<close>

type_synonym nameReservations = "string \<Rightarrow> bool"

definition newNameReservations :: nameReservations where
  "newNameReservations = (\<lambda>_. False)"

fun claim_all :: "nameReservations \<Rightarrow> string list \<Rightarrow> nameReservations" where
  "claim_all r [] = r"
| "claim_all r (n # ns) = claim_all (r(n := True)) ns"

definition Reserve :: "nameReservations \<Rightarrow> string list \<Rightarrow> bool \<times> nameReservations" where
  "Reserve r names = (if list_ex r names then (False, r) else (True, claim_all r names))"

fun res_Release :: "nameReservations \<Rightarrow> string list \<Rightarrow> nameReservations" where
  "res_Release r [] = r"
| "res_Release r (n # ns) = res_Release (r(n := False)) ns"

definition Reserved :: "nameReservations \<Rightarrow> string list \<Rightarrow> bool" where
  "Reserved r names = list_ex r names"

lemma claim_all_apply: "claim_all r ns n \<longleftrightarrow> r n \<or> n \<in> set ns"
  by (induction ns arbitrary: r) auto

lemma res_Release_apply: "res_Release r ns n \<longleftrightarrow> r n \<and> n \<notin> set ns"
  by (induction ns arbitrary: r) auto

section \<open>Theorems\<close>

text \<open>
  Export pins count: after any sequence of acquisitions and releases in which no key is released
  more often than it was acquired, a key is pinned exactly while some acquisition of it is
  outstanding, whatever happens to other keys. So a delete that tests the pin is refused as long as
  one export lives.
\<close>

theorem pins_count:
  assumes "\<forall>i \<le> length es. count_list (take i es) (Drop k) \<le> count_list (take i es) (Hold k)"
  shows "Pinned (pin_events Acquire Release NewExportPins es) k \<longleftrightarrow>
    count_list es (Drop k) < count_list es (Hold k)"
proof -
  have ok: "pins_ok NewExportPins" by (simp add: pins_ok_def NewExportPins_def)
  have pre: "count_list us (Drop k) \<le> count_list us (Hold k) + 0" if "es = us @ vs" for us vs
    using assms [rule_format, of "length us"] that by simp
  have "nat (pin_count NewExportPins k) + count_list es (Hold k) =
      nat (pin_count (pin_events Acquire Release NewExportPins es) k) + count_list es (Drop k)"
    by (rule export_pins.run_events_holds [where n = 0]) (use ok pre [of es "[]"] pre in auto)
  moreover have "pins_ok (pin_events Acquire Release NewExportPins es)"
    using ok by (rule export_pins.run_events_invar)
  ultimately show ?thesis
    by (simp add: export_pins.pinned_holds pin_count_def NewExportPins_def)
qed

theorem pins_count_witness:
  "Pinned (pin_events Acquire Release NewExportPins [Hold ''s'', Hold ''s'', Drop ''s'', Drop ''t'']) ''s''"
  using pins_count [of "[Hold ''s'', Hold ''s'', Drop ''s'', Drop ''t'']" "''s''"]
  by (simp add: numeral_eq_Suc le_Suc_eq all_conj_distrib)

text \<open>
  C22. Operation ids are single use: over any sequence of begins, progress reports, completions and
  failures on a fresh table, the ids whose begin was accepted are pairwise different, and an id is
  accepted if it is begun at all.
\<close>

theorem ops_single_use:
  "distinct (accepted ops_Begin apply_update NewTable cs) \<and>
   set (accepted ops_Begin apply_update NewTable cs) = {k. TryBegin k \<in> set cs}"
  using op_table.accepted_fresh [of NewTable cs] by (simp add: NewTable_def)

text \<open>
  Name reservations are all or none: a claim succeeds exactly when none of the names is taken, and
  then takes all of them; a refused claim takes nothing. Releasing what was claimed restores the
  reservations as they were.
\<close>

theorem Reserve_all_or_none:
  "case Reserve r names of
     (ok, r') \<Rightarrow> ok = (\<forall>n \<in> set names. \<not> r n) \<and> (\<forall>n. r' n \<longleftrightarrow> r n \<or> ok \<and> n \<in> set names) \<and>
       (ok \<longrightarrow> res_Release r' names = r)"
  by (auto simp: Reserve_def list_ex_iff claim_all_apply fun_eq_iff res_Release_apply)

theorem Reserve_all_or_none_witness:
  "Reserve newNameReservations [''v'', ''v+rb''] =
     (True, \<lambda>n. n = ''v'' \<or> n = ''v+rb'') \<and>
   fst (Reserve (\<lambda>n. n = ''v'' \<or> n = ''v+rb'') [''w'', ''v'']) = False"
  using Reserve_all_or_none [where r = newNameReservations and names = "[''v'', ''v+rb'']"]
    Reserve_all_or_none [where r = "\<lambda>n. n = ''v'' \<or> n = ''v+rb''" and names = "[''w'', ''v'']"]
  by (auto simp: newNameReservations_def fun_eq_iff split: prod.splits)

end
