(* ===== verification/Grpc.thy ===== *)
theory Grpc
  imports GoStd
begin

text \<open>
  The statuses of grpc calls, as far as the daemon uses them: a code, a message, and the one detail its
  services attach to a refusal. The codes and the rendering of a status as an error are those of the
  grpc package, the states those of the generated api.
\<close>

datatype code = OK | Canceled | Unknown | InvalidArgument | DeadlineExceeded | NotFound | AlreadyExists
  | PermissionDenied | ResourceExhausted | FailedPrecondition | Aborted | OutOfRange | Unimplemented
  | Internal | Unavailable | DataLoss | Unauthenticated

datatype VolumeState = VOLUME_STATE_UNSPECIFIED | VOLUME_STATE_CREATING | VOLUME_STATE_READY
  | VOLUME_STATE_ATTACHED | VOLUME_STATE_PUSHING | VOLUME_STATE_INCOMING | VOLUME_STATE_RETIRED
  | VOLUME_STATE_DELETING | VOLUME_STATE_SNAPSHOT | VOLUME_STATE_COMMITTING | VOLUME_STATE_ROLLBACK

fun code_string :: "code \<Rightarrow> string" where
  "code_string OK = ''OK''"
| "code_string Canceled = ''Canceled''"
| "code_string Unknown = ''Unknown''"
| "code_string InvalidArgument = ''InvalidArgument''"
| "code_string DeadlineExceeded = ''DeadlineExceeded''"
| "code_string NotFound = ''NotFound''"
| "code_string AlreadyExists = ''AlreadyExists''"
| "code_string PermissionDenied = ''PermissionDenied''"
| "code_string ResourceExhausted = ''ResourceExhausted''"
| "code_string FailedPrecondition = ''FailedPrecondition''"
| "code_string Aborted = ''Aborted''"
| "code_string OutOfRange = ''OutOfRange''"
| "code_string Unimplemented = ''Unimplemented''"
| "code_string Internal = ''Internal''"
| "code_string Unavailable = ''Unavailable''"
| "code_string DataLoss = ''DataLoss''"
| "code_string Unauthenticated = ''Unauthenticated''"

record Status =
  st_Code :: code
  st_Message :: string
  st_WrongState :: "(string \<times> VolumeState) option"

definition status_Error :: "code \<Rightarrow> string \<Rightarrow> Status" where
  "status_Error c msg = \<lparr>st_Code = c, st_Message = msg, st_WrongState = None\<rparr>"

definition status_text :: "Status \<Rightarrow> string" where
  "status_text s = ''rpc error: code = '' @ code_string (st_Code s) @ '' desc = '' @ st_Message s"

end
