(* ===== verification/Volumes.thy ===== *)
theory Volumes
  imports LvmHost Config Tables Grpc
begin

text \<open>
  Volumes: \<^verbatim>\<open>internal/storage/volumes.go\<close>. A volume is a thin logical volume whose lifecycle state is an
  lvm tag; every verb reads the volume, checks the state, and retags it. The operations take the
  client, the configuration and, where the source passes them, the export pins; the context argument
  only carries cancellation, which is a failing command.

  The first section holds the error values of the storage package, with what \<^verbatim>\<open>errors.Is\<close> and
  \<^verbatim>\<open>errors.As\<close> find in them.
\<close>

section \<open>States and errors\<close>

datatype State = StateCreating | StateReady | StateAttached | StatePushing | StateCommitting
  | StateIncoming | StateRetired | StateDeleting | StateSnapshot | StateRollback | StateUnknown

fun State_string :: "State \<Rightarrow> string" where
  "State_string StateCreating = ''creating''"
| "State_string StateReady = ''ready''"
| "State_string StateAttached = ''attached''"
| "State_string StatePushing = ''pushing''"
| "State_string StateCommitting = ''committing''"
| "State_string StateIncoming = ''incoming''"
| "State_string StateRetired = ''retired''"
| "State_string StateDeleting = ''deleting''"
| "State_string StateSnapshot = ''snapshot''"
| "State_string StateRollback = ''rollback''"
| "State_string StateUnknown = ''''"

datatype sentinel = ErrNotFound | ErrShrink | ErrHasSnapshots | ErrExportInProgress | ErrWrongLineage
  | ErrTransferLimit | ErrTransferUsed | ErrTransferUnknown | ErrTransferBusy | ErrBadFrame
  | ErrDigestMismatch

fun sentinel_text :: "sentinel \<Rightarrow> string" where
  "sentinel_text ErrNotFound = ''volume does not exist''"
| "sentinel_text ErrShrink = ''volumes cannot shrink''"
| "sentinel_text ErrHasSnapshots = ''volume has snapshots''"
| "sentinel_text ErrExportInProgress = ''export in progress''"
| "sentinel_text ErrWrongLineage = ''snapshot does not belong to the volume''"
| "sentinel_text ErrTransferLimit = ''inbound transfer limit reached''"
| "sentinel_text ErrTransferUsed = ''transfer id already used''"
| "sentinel_text ErrTransferUnknown = ''unknown transfer''"
| "sentinel_text ErrTransferBusy = ''transfer stream already active''"
| "sentinel_text ErrBadFrame = ''invalid frame''"
| "sentinel_text ErrDigestMismatch = ''digest mismatch''"

text \<open>
  Errors of the package: an error of the client library, a sentinel, a refused state, a plain text,
  and an error wrapped between two texts. \<open>OsError\<close> stands for a failed call on a device node, \<open>PeerError\<close>
  for the status another node answered with.
\<close>

datatype err = OfLvm lvm_err | Sentinel sentinel | WrongStateError string State | Errorf string
  | OsError string | PeerError Status | Wrap string err string

fun err_Error :: "err \<Rightarrow> string" where
  "err_Error (OfLvm e) = lvm_Error e"
| "err_Error (Sentinel s) = sentinel_text s"
| "err_Error (WrongStateError v s) =
     ''volume '' @ v @ '' is in state '' @ (if s = StateUnknown then ''unknown'' else State_string s)"
| "err_Error (Errorf msg) = msg"
| "err_Error (OsError msg) = msg"
| "err_Error (PeerError s) = status_text s"
| "err_Error (Wrap pre e post) = pre @ err_Error e @ post"

fun err_Is :: "err \<Rightarrow> sentinel \<Rightarrow> bool" where
  "err_Is (Sentinel s) t = (s = t)"
| "err_Is (Wrap pre e post) t = err_Is e t"
| "err_Is _ t = False"

fun err_As_WrongState :: "err \<Rightarrow> (string \<times> State) option" where
  "err_As_WrongState (WrongStateError v s) = Some (v, s)"
| "err_As_WrongState (Wrap pre e post) = err_As_WrongState e"
| "err_As_WrongState _ = None"

fun err_Is_lvm :: "err \<Rightarrow> lvm_kind \<Rightarrow> bool" where
  "err_Is_lvm (OfLvm e) k = lvm_Is e k"
| "err_Is_lvm (Wrap pre e post) k = err_Is_lvm e k"
| "err_Is_lvm _ k = False"

text \<open>The two shapes of wrapping the source uses: a prefix, and a sentinel followed by a detail.\<close>

definition wrap :: "string \<Rightarrow> ('w, lvm_err, 'a) go \<Rightarrow> ('w, err, 'a) go" where
  "wrap what m = mapErr (\<lambda>e. Wrap (what @ '': '') (OfLvm e) []) m"

definition rewrap :: "string \<Rightarrow> ('w, err, 'a) go \<Rightarrow> ('w, err, 'a) go" where
  "rewrap what m = mapErr (\<lambda>e. Wrap (what @ '': '') e []) m"

definition sentinel_err :: "sentinel \<Rightarrow> string \<Rightarrow> err" where
  "sentinel_err s detail = Wrap [] (Sentinel s) ('': '' @ detail)"

section \<open>Tags\<close>

definition stateTagPrefix :: string where
  "stateTagPrefix = ''beanstore.state=''"

definition originTagPrefix :: string where
  "originTagPrefix = ''beanstore.origin=''"

definition transferTagPrefix :: string where
  "transferTagPrefix = ''beanstore.transfer=''"

definition targetTagPrefix :: string where
  "targetTagPrefix = ''beanstore.target=''"

definition rollbackTargetTagPrefix :: string where
  "rollbackTargetTagPrefix = ''beanstore.rollback_target=''"

definition StateTag :: "State \<Rightarrow> string" where
  "StateTag state = stateTagPrefix @ State_string state"

definition knownStates :: "State list" where
  "knownStates =
     [StateCreating, StateReady, StateAttached, StatePushing, StateCommitting, StateIncoming,
      StateRetired, StateDeleting, StateSnapshot, StateRollback]"

definition knownState :: "string \<Rightarrow> State" where
  "knownState v =
     (case find (\<lambda>s. State_string s = v) knownStates of Some s \<Rightarrow> s | None \<Rightarrow> StateUnknown)"

fun stateOf :: "string list \<Rightarrow> State \<times> bool" where
  "stateOf [] = (StateUnknown, False)"
| "stateOf (tag # tags) =
     (case CutPrefix tag stateTagPrefix of Some v \<Rightarrow> (knownState v, True) | None \<Rightarrow> stateOf tags)"

fun tagValue :: "string list \<Rightarrow> string \<Rightarrow> string" where
  "tagValue [] pre = []"
| "tagValue (tag # tags) pre =
     (case CutPrefix tag pre of Some v \<Rightarrow> v | None \<Rightarrow> tagValue tags pre)"

record Volume =
  vol_ID :: string
  vol_State :: State
  vol_SizeBytes :: u64
  vol_UsedBytes :: u64
  vol_Path :: string
  vol_Origin :: string
  vol_OriginTagged :: bool
  vol_Active :: bool
  vol_Transfer :: string
  vol_PushTarget :: string
  vol_RollbackTarget :: string

definition volumeFromLV :: "LogicalVolume \<Rightarrow> Volume" where
  "volumeFromLV lv =
     (let state = fst (stateOf (lv_Tags lv));
          origin = tagValue (lv_Tags lv) originTagPrefix;
          tagged = (origin \<noteq> []) in
      \<lparr>vol_ID = lv_Name lv, vol_State = state, vol_SizeBytes = lv_SizeBytes lv,
       vol_UsedBytes = u64_of_f64 (f64_div (f64_mul (f64_of_u64 (lv_SizeBytes lv)) (lv_DataPercent lv)) 100),
       vol_Path = lv_Path lv,
       vol_Origin = (if \<not> tagged \<and> state = StateSnapshot then lv_Origin lv else origin),
       vol_OriginTagged = tagged, vol_Active = lv_Active lv,
       vol_Transfer = tagValue (lv_Tags lv) transferTagPrefix,
       vol_PushTarget = tagValue (lv_Tags lv) targetTagPrefix,
       vol_RollbackTarget = tagValue (lv_Tags lv) rollbackTargetTagPrefix\<rparr>)"

section \<open>Reading volumes\<close>

definition ListVolumes :: "'w Client \<Rightarrow> Config \<Rightarrow> ('w, err, Volume list) go" where
  "ListVolumes c cfg =
     seqE (wrap ''scanning volumes''
             (ListLogicalVolumes c (list_opts (cfg_VolumeGroup cfg) (sel_pool (cfg_ThinPool cfg)))))
       (\<lambda>lvs. ret (map volumeFromLV (filter (\<lambda>lv. snd (stateOf (lv_Tags lv))) lvs)))"

definition VolumeExists :: "'w Client \<Rightarrow> Config \<Rightarrow> string \<Rightarrow> ('w, err, bool) go" where
  "VolumeExists c cfg vid =
     seqE (wrap (''looking up volume '' @ vid)
             (ListLogicalVolumes c (list_opts (cfg_VolumeGroup cfg) (sel_name vid))))
       (\<lambda>lvs. ret (length lvs > 0))"

definition GetVolume :: "'w Client \<Rightarrow> Config \<Rightarrow> string \<Rightarrow> ('w, err, Volume) go" where
  "GetVolume c cfg vid =
     seqE (wrap (''looking up volume '' @ vid)
             (ListLogicalVolumes c (list_opts (cfg_VolumeGroup cfg) (sel_name vid))))
       (\<lambda>lvs. case lvs of
          [] \<Rightarrow> fail (sentinel_err ErrNotFound vid)
        | lv # _ \<Rightarrow>
            if \<not> snd (stateOf (lv_Tags lv)) then fail (sentinel_err ErrNotFound vid)
            else ret (volumeFromLV lv))"

definition SnapshotsOf :: "'w Client \<Rightarrow> Config \<Rightarrow> string \<Rightarrow> ('w, err, string list) go" where
  "SnapshotsOf c cfg vid =
     seqE (rewrap (''listing snapshots of '' @ vid) (ListVolumes c cfg))
       (\<lambda>volumes. ret (map vol_ID
          (filter (\<lambda>v. vol_State v = StateSnapshot \<and> vol_Origin v = vid) volumes)))"

section \<open>Verbs\<close>

definition lv_target :: "Config \<Rightarrow> string \<Rightarrow> Selector" where
  "lv_target cfg vid = SelName (cfg_VolumeGroup cfg @ ''/'' @ vid)"

definition CreateVolume :: "'w Client \<Rightarrow> Config \<Rightarrow> string \<Rightarrow> u64 \<Rightarrow> ('w, err, unit) go" where
  "CreateVolume c cfg vid n =
     seqE (wrap (''creating volume '' @ vid)
             (CreateThinVolume c (cfg_VolumeGroup cfg) (cfg_ThinPool cfg) vid n
                (thin_opts [StateTag StateCreating] (Some False)))) (\<lambda>_.
       wrap (''readying volume '' @ vid)
         (ChangeLogicalVolume c (lv_target cfg vid)
            (retag_opts [StateTag StateReady] [StateTag StateCreating] None)))"

definition CreateSnapshot :: "'w Client \<Rightarrow> Config \<Rightarrow> string \<Rightarrow> string \<Rightarrow> ('w, err, unit) go" where
  "CreateSnapshot c cfg originID snapshotID =
     seqE (GetVolume c cfg originID) (\<lambda>origin.
       if vol_State origin \<notin> {StateReady, StateAttached}
       then fail (WrongStateError originID (vol_State origin))
       else wrap (''creating snapshot '' @ snapshotID @ '' of '' @ originID)
         (CreateThinSnapshot c (cfg_VolumeGroup cfg) originID snapshotID
            (snap_opts [StateTag StateSnapshot, originTagPrefix @ originID] PermissionReadOnly)))"

definition RemoveVolume :: "'w Client \<Rightarrow> Config \<Rightarrow> string \<Rightarrow> ('w, err, unit) go" where
  "RemoveVolume c cfg vid =
     wrap (''removing volume '' @ vid) (RemoveLogicalVolume c (lv_target cfg vid) force_remove)"

definition DeleteSnapshot :: "'w Client \<Rightarrow> Config \<Rightarrow> ExportPins \<Rightarrow> string \<Rightarrow> ('w, err, unit) go" where
  "DeleteSnapshot c cfg pins vid =
     seqE (GetVolume c cfg vid) (\<lambda>snapshot.
       if vol_State snapshot \<notin> {StateSnapshot} then fail (WrongStateError vid (vol_State snapshot))
       else if Pinned pins vid then fail (sentinel_err ErrExportInProgress vid)
       else RemoveVolume c cfg vid)"

definition Attach :: "'w Client \<Rightarrow> Config \<Rightarrow> string \<Rightarrow> ('w, err, string) go" where
  "Attach c cfg vid =
     seqE (GetVolume c cfg vid) (\<lambda>volume.
       if vol_State volume \<notin> {StateReady} then fail (WrongStateError vid (vol_State volume))
       else
         seqE (wrap (''attaching volume '' @ vid)
                 (ChangeLogicalVolume c (lv_target cfg vid)
                    (retag_opts [StateTag StateAttached] [StateTag StateReady] None))) (\<lambda>_.
         seqE (wrap (''activating volume '' @ vid)
                 (ActivateLogicalVolume c (lv_target cfg vid) (activate_opts False))) (\<lambda>_.
         seqE (GetVolume c cfg vid) (\<lambda>volume'. ret (vol_Path volume')))))"

definition Detach :: "'w Client \<Rightarrow> Config \<Rightarrow> string \<Rightarrow> ('w, err, unit) go" where
  "Detach c cfg vid =
     seqE (GetVolume c cfg vid) (\<lambda>volume.
       if vol_State volume \<notin> {StateAttached} then fail (WrongStateError vid (vol_State volume))
       else
         seqE (wrap (''deactivating volume '' @ vid)
                 (DeactivateLogicalVolume c (lv_target cfg vid) no_common)) (\<lambda>_.
         wrap (''detaching volume '' @ vid)
           (ChangeLogicalVolume c (lv_target cfg vid)
              (retag_opts [StateTag StateReady] [StateTag StateAttached] None))))"

definition ResizeVolume :: "'w Client \<Rightarrow> Config \<Rightarrow> string \<Rightarrow> u64 \<Rightarrow> ('w, err, unit) go" where
  "ResizeVolume c cfg vid n =
     seqE (GetVolume c cfg vid) (\<lambda>volume.
       if vol_State volume \<notin> {StateReady, StateAttached}
       then fail (WrongStateError vid (vol_State volume))
       else if n \<le> vol_SizeBytes volume
       then fail (Wrap [] (Sentinel ErrShrink)
         ('': volume '' @ vid @ '' has '' @ FormatUint (vol_SizeBytes volume) @ '' bytes, requested '' @ FormatUint n))
       else wrap (''resizing volume '' @ vid)
         (ResizeLogicalVolume c (cfg_VolumeGroup cfg @ ''/'' @ vid) (Bytes n) resize_opts))"

fun mark_snapshots :: "'w Client \<Rightarrow> Config \<Rightarrow> string list \<Rightarrow> ('w, err, unit) go" where
  "mark_snapshots c cfg [] = ret ()"
| "mark_snapshots c cfg (snapshot # snapshots) =
     seqE (wrap (''marking snapshot '' @ snapshot @ '' deleting'')
             (ChangeLogicalVolume c (lv_target cfg snapshot)
                (retag_opts [StateTag StateDeleting] [StateTag StateSnapshot] None)))
       (\<lambda>_. mark_snapshots c cfg snapshots)"

definition MarkDeleting ::
  "'w Client \<Rightarrow> Config \<Rightarrow> ExportPins \<Rightarrow> string \<Rightarrow> bool \<Rightarrow> ('w, err, string list) go" where
  "MarkDeleting c cfg pins vid force =
     seqE (GetVolume c cfg vid) (\<lambda>volume.
       if vol_State volume \<notin> {StateReady, StateRetired}
       then fail (WrongStateError vid (vol_State volume))
       else
         seqE (SnapshotsOf c cfg vid) (\<lambda>snapshots.
           if length snapshots > 0 \<and> \<not> force then fail (sentinel_err ErrHasSnapshots vid)
           else case find (Pinned pins) snapshots of
             Some snapshot \<Rightarrow> fail (sentinel_err ErrExportInProgress snapshot)
           | None \<Rightarrow>
               seqE (mark_snapshots c cfg snapshots) (\<lambda>_.
               seqE (wrap (''marking volume '' @ vid @ '' deleting'')
                       (ChangeLogicalVolume c (lv_target cfg vid)
                          (retag_opts [StateTag StateDeleting] [StateTag (vol_State volume)] None)))
                 (\<lambda>_. ret snapshots))))"

section \<open>Node status\<close>

record NodeStatus =
  ns_PoolSizeBytes :: u64
  ns_PoolUsedBytes :: u64
  ns_PoolMetadataSizeBytes :: u64
  ns_PoolMetadataUsedBytes :: u64
  ns_CommittedBytes :: u64
  ns_VolumeCounts :: "State \<rightharpoonup> 32 word"

definition count_volume :: "NodeStatus \<Rightarrow> Volume \<Rightarrow> NodeStatus" where
  "count_volume st v =
     st\<lparr>ns_CommittedBytes := ns_CommittedBytes st + vol_SizeBytes v,
        ns_VolumeCounts := (ns_VolumeCounts st)(vol_State v \<mapsto>
          (case ns_VolumeCounts st (vol_State v) of None \<Rightarrow> 1 | Some k \<Rightarrow> k + 1))\<rparr>"

definition GetNodeStatus :: "'w Client \<Rightarrow> Config \<Rightarrow> ('w, err, NodeStatus) go" where
  "GetNodeStatus c cfg =
     seqE (wrap (''reading pool '' @ cfg_VolumeGroup cfg @ ''/'' @ cfg_ThinPool cfg)
             (ListLogicalVolumes c (list_opts (cfg_VolumeGroup cfg) (sel_name (cfg_ThinPool cfg))))) (\<lambda>pools.
       case pools of
         [] \<Rightarrow> fail (Errorf (''pool '' @ cfg_VolumeGroup cfg @ ''/'' @ cfg_ThinPool cfg @ '' is gone''))
       | pool # _ \<Rightarrow>
           seqE (ListVolumes c cfg) (\<lambda>volumes.
             ret (foldl count_volume
               \<lparr>ns_PoolSizeBytes = lv_SizeBytes pool,
                ns_PoolUsedBytes =
                  u64_of_f64 (f64_div (f64_mul (f64_of_u64 (lv_SizeBytes pool)) (lv_DataPercent pool)) 100),
                ns_PoolMetadataSizeBytes = lv_MetadataSizeBytes pool,
                ns_PoolMetadataUsedBytes =
                  u64_of_f64 (f64_div (f64_mul (f64_of_u64 (lv_MetadataSizeBytes pool)) (lv_MetadataPercent pool)) 100),
                ns_CommittedBytes = 0, ns_VolumeCounts = Map.empty\<rparr> volumes)))"

section \<open>Tags and the state they persist\<close>

definition state_tag :: "string \<Rightarrow> bool" where
  "state_tag t = prefix stateTagPrefix t"

text \<open>The well-formedness invariant of the node: no logical volume carries two state tags.\<close>

definition one_state :: "string list \<Rightarrow> bool" where
  "one_state ts \<longleftrightarrow> (\<forall>s \<in> set ts. \<forall>t \<in> set ts. state_tag s \<longrightarrow> state_tag t \<longrightarrow> s = t)"

definition wf_view :: "lvview \<Rightarrow> bool" where
  "wf_view v \<longleftrightarrow> (\<forall>n x. v n = Some x \<longrightarrow> one_state (o_tags x))"

text \<open>The abstract state of a node: the lifecycle state of each volume it owns.\<close>

definition obj_state :: "lvobj \<Rightarrow> State option" where
  "obj_state x = (case stateOf (o_tags x) of (s, owned) \<Rightarrow> if owned then Some s else None)"

definition vstate :: "lvview \<Rightarrow> string \<rightharpoonup> State" where
  "vstate v n = Option.bind (v n) obj_state"

definition content :: "lvview \<Rightarrow> string \<rightharpoonup> (nat \<Rightarrow> u8)" where
  "content v n = map_option o_data (v n)"

lemma knownState_State_string [tag_simps]: "knownState (State_string s) = s"
  by (cases s) (simp_all add: knownState_def knownStates_def)

lemma State_string_inject: "State_string s = State_string t \<longleftrightarrow> s = t"
  by (metis knownState_State_string)

lemma knownState_cases: "knownState v = StateUnknown \<or> State_string (knownState v) = v"
  by (auto simp: knownState_def find_Some_iff split: option.splits)

lemma StateTag_inject [simp]: "StateTag s = StateTag t \<longleftrightarrow> s = t"
  by (simp add: StateTag_def State_string_inject)

lemma state_tag_StateTag [simp]: "state_tag (StateTag s)"
  by (simp add: state_tag_def StateTag_def)

lemma plain_tags [simp]:
  "\<not> state_tag (originTagPrefix @ v)" "\<not> state_tag (transferTagPrefix @ v)"
  "\<not> state_tag (targetTagPrefix @ v)" "\<not> state_tag (rollbackTargetTagPrefix @ v)"
  by (simp_all add: state_tag_def stateTagPrefix_def originTagPrefix_def transferTagPrefix_def
      targetTagPrefix_def rollbackTargetTagPrefix_def)

lemma tag_prefixes [simp]:
  "\<not> prefix stateTagPrefix (originTagPrefix @ v)" "\<not> prefix stateTagPrefix (transferTagPrefix @ v)"
  "\<not> prefix stateTagPrefix (targetTagPrefix @ v)" "\<not> prefix stateTagPrefix (rollbackTargetTagPrefix @ v)"
  "\<not> prefix originTagPrefix (stateTagPrefix @ v)" "\<not> prefix originTagPrefix (transferTagPrefix @ v)"
  "\<not> prefix originTagPrefix (targetTagPrefix @ v)" "\<not> prefix originTagPrefix (rollbackTargetTagPrefix @ v)"
  "\<not> prefix transferTagPrefix (stateTagPrefix @ v)" "\<not> prefix transferTagPrefix (originTagPrefix @ v)"
  "\<not> prefix transferTagPrefix (targetTagPrefix @ v)" "\<not> prefix transferTagPrefix (rollbackTargetTagPrefix @ v)"
  "\<not> prefix targetTagPrefix (stateTagPrefix @ v)" "\<not> prefix targetTagPrefix (originTagPrefix @ v)"
  "\<not> prefix targetTagPrefix (transferTagPrefix @ v)" "\<not> prefix targetTagPrefix (rollbackTargetTagPrefix @ v)"
  "\<not> prefix rollbackTargetTagPrefix (stateTagPrefix @ v)" "\<not> prefix rollbackTargetTagPrefix (originTagPrefix @ v)"
  "\<not> prefix rollbackTargetTagPrefix (transferTagPrefix @ v)" "\<not> prefix rollbackTargetTagPrefix (targetTagPrefix @ v)"
  by (simp_all add: stateTagPrefix_def originTagPrefix_def transferTagPrefix_def targetTagPrefix_def
      rollbackTargetTagPrefix_def)

lemma StateTag_prefixes [simp]:
  "\<not> prefix originTagPrefix (StateTag s)" "\<not> prefix transferTagPrefix (StateTag s)"
  "\<not> prefix targetTagPrefix (StateTag s)" "\<not> prefix rollbackTargetTagPrefix (StateTag s)"
  by (simp_all add: StateTag_def)

lemma tagValue_none: "(\<And>t. t \<in> set ts \<Longrightarrow> \<not> prefix p t) \<Longrightarrow> tagValue ts p = []"
  by (induction ts) (auto simp: CutPrefix_def)

text \<open>A tag that alone carries its prefix is the value that is read back.\<close>

lemma tagValue_eqI:
  assumes "p @ v \<in> set ts" and "\<And>t. t \<in> set ts \<Longrightarrow> prefix p t \<Longrightarrow> t = p @ v"
  shows "tagValue ts p = v"
  using assms
proof (induction ts)
  case (Cons t ts)
  show ?case
  proof (cases "prefix p t")
    case True
    then have "t = p @ v" using Cons.prems(2) by simp
    then show ?thesis by simp
  next
    case False
    then have "CutPrefix t p = None" by (simp add: CutPrefix_None_iff)
    moreover have mem: "p @ v \<in> set ts" using Cons.prems(1) False by auto
    have "tagValue ts p = v"
      by (rule Cons.IH [OF mem]) (rule Cons.prems(2), simp_all)
    ultimately show ?thesis by simp
  qed
qed simp

lemma tagValue_mem: "tagValue ts p \<noteq> [] \<Longrightarrow> p @ tagValue ts p \<in> set ts"
  by (induction ts) (auto simp: CutPrefix_Some_iff split: option.splits)

lemma stateOf_owned_iff: "snd (stateOf ts) \<longleftrightarrow> (\<exists>t \<in> set ts. state_tag t)"
  by (induction ts) (auto simp: CutPrefix_def state_tag_def)

lemma stateOf_mem: "snd (stateOf ts) \<Longrightarrow> \<exists>v. stateTagPrefix @ v \<in> set ts \<and> knownState v = fst (stateOf ts)"
proof (induction ts)
  case (Cons t ts)
  then show ?case by (cases "CutPrefix t stateTagPrefix") (auto simp: CutPrefix_Some_iff)
qed simp

lemma stateOf_StateTag_mem:
  assumes "stateOf ts = (s, True)" and "s \<noteq> StateUnknown"
  shows "StateTag s \<in> set ts"
proof -
  from assms(1) obtain v where "stateTagPrefix @ v \<in> set ts" and v: "knownState v = s"
    using stateOf_mem [of ts] by auto
  moreover have "v = State_string s"
    using knownState_cases [of v] v assms(2) by auto
  ultimately show ?thesis by (simp add: StateTag_def)
qed

lemma stateOf_eqI:
  assumes "one_state ts" and "StateTag s \<in> set ts"
  shows "stateOf ts = (s, True)"
proof -
  have owned: "snd (stateOf ts)"
    using assms(2) state_tag_StateTag unfolding stateOf_owned_iff by blast
  then obtain v where "stateTagPrefix @ v \<in> set ts" and v: "knownState v = fst (stateOf ts)"
    using stateOf_mem by blast
  moreover have "state_tag (stateTagPrefix @ v)" by (simp add: state_tag_def)
  ultimately have "stateTagPrefix @ v = StateTag s"
    using assms state_tag_StateTag [of s] unfolding one_state_def by blast
  then have "v = State_string s" by (simp add: StateTag_def)
  then have "fst (stateOf ts) = s" using v by (simp add: knownState_State_string)
  then show ?thesis using owned by (metis prod.collapse)
qed

lemma obj_state_Some_iff: "obj_state x = Some s \<longleftrightarrow> stateOf (o_tags x) = (s, True)"
  by (auto simp: obj_state_def split: prod.splits)

lemma obj_state_cong: "o_tags x = o_tags y \<Longrightarrow> obj_state x = obj_state y"
  by (simp add: obj_state_def)

text \<open>Replacing the state tag, together with tags that persist no state, moves the state.\<close>

lemma retag_state:
  assumes one: "one_state (o_tags x)" and st: "obj_state x = Some s" and known: "s \<noteq> StateUnknown"
    and ts: "set (o_tags y) = (set (o_tags x) \<union> set (StateTag s' # adds)) - set (StateTag s # dels)"
    and plain: "\<not> list_ex state_tag adds" "\<not> list_ex state_tag dels" and "s \<noteq> s'"
  shows "one_state (o_tags y) \<and> obj_state y = Some s'"
proof -
  have old: "StateTag s \<in> set (o_tags x)"
    using st known by (auto simp: obj_state_Some_iff intro: stateOf_StateTag_mem)
  have only: "t = StateTag s'" if "t \<in> set (o_tags y)" and "state_tag t" for t
  proof -
    have "t \<noteq> StateTag s" and "t \<in> set (o_tags x) \<or> t = StateTag s' \<or> t \<in> set adds"
      using that(1) ts by auto
    moreover have "t \<notin> set adds" using plain(1) that(2) by (auto simp: list_ex_iff)
    ultimately show ?thesis
      using one old that(2) unfolding one_state_def by (metis state_tag_StateTag)
  qed
  have "StateTag s' \<in> set (o_tags y)"
    using ts plain(2) \<open>s \<noteq> s'\<close> by (auto simp: list_ex_iff)
  moreover have "one_state (o_tags y)"
    using only unfolding one_state_def by metis
  ultimately show ?thesis
    by (auto simp: obj_state_Some_iff intro: stateOf_eqI)
qed

text \<open>A volume born with one state tag.\<close>

lemma born_state:
  assumes "set ts = set (StateTag s # tags)" and "\<not> list_ex state_tag tags"
  shows "one_state ts \<and> stateOf ts = (s, True)"
proof -
  have "t = StateTag s" if "t \<in> set ts" and "state_tag t" for t
    using assms that by (auto simp: list_ex_iff)
  then have one: "one_state ts" unfolding one_state_def by metis
  moreover have "StateTag s \<in> set ts" using assms(1) by simp
  ultimately show ?thesis by (auto intro: stateOf_eqI)
qed

text \<open>Changing tags that persist no state keeps it.\<close>

lemma keep_state:
  assumes one: "one_state (o_tags x)" and st: "obj_state x = Some s" and known: "s \<noteq> StateUnknown"
    and ts: "set (o_tags y) = (set (o_tags x) \<union> set adds) - set dels"
    and plain: "\<not> list_ex state_tag adds" "\<not> list_ex state_tag dels"
  shows "one_state (o_tags y) \<and> obj_state y = Some s"
proof -
  have old: "StateTag s \<in> set (o_tags x)"
    using st known by (auto simp: obj_state_Some_iff intro: stateOf_StateTag_mem)
  have "t \<in> set (o_tags x)" if "t \<in> set (o_tags y)" and "state_tag t" for t
    using that ts plain(1) by (auto simp: list_ex_iff)
  then have "one_state (o_tags y)" using one unfolding one_state_def by metis
  moreover have "StateTag s \<in> set (o_tags y)"
    using ts old plain(2) by (auto simp: list_ex_iff)
  ultimately show ?thesis by (auto simp: obj_state_Some_iff intro: stateOf_eqI)
qed

section \<open>The effect of commands on the abstract state\<close>

lemma wf_viewD: "wf_view v \<Longrightarrow> v n = Some x \<Longrightarrow> one_state (o_tags x)"
  by (simp add: wf_view_def)

lemma wf_view_upd: "wf_view v \<Longrightarrow> one_state (o_tags x) \<Longrightarrow> wf_view (v(n \<mapsto> x))"
  by (simp add: wf_view_def)

lemma vstate_upd [simp]: "vstate (v(n \<mapsto> x)) = (vstate v)(n := obj_state x)"
  by (auto simp: vstate_def fun_eq_iff)

lemma content_upd [simp]: "content (v(n \<mapsto> x)) = (content v)(n \<mapsto> o_data x)"
  by (auto simp: content_def fun_eq_iff)

lemma vstate_Some_iff: "vstate v n = Some s \<longleftrightarrow> (\<exists>x. v n = Some x \<and> obj_state x = Some s)"
  by (auto simp: vstate_def bind_eq_Some_conv)

lemma vstate_None: "v n = None \<Longrightarrow> vstate v n = None"
  by (simp add: vstate_def)

lemma reorigin_tags [simp]: "o_tags (reorigin a b x) = o_tags x" "o_data (reorigin a b x) = o_data x"
  "obj_state (reorigin a b x) = obj_state x"
  by (simp_all add: reorigin_def obj_state_def)

lemma effect_retag:
  assumes "lv_effect pool (OpChange n (StateTag s' # adds) (StateTag s # dels) skip) v v'"
    and "wf_view v" and "vstate v n = Some s" and "s \<noteq> StateUnknown" and "s \<noteq> s'"
    and "\<not> list_ex state_tag adds" "\<not> list_ex state_tag dels"
  obtains x y where "v n = Some x" and "v' = v(n \<mapsto> y)" and "obj_state y = Some s'"
    and "one_state (o_tags y)" and "distinct (o_tags y)"
    and "y = x\<lparr>o_tags := o_tags y, o_skip := (case skip of None \<Rightarrow> o_skip x | Some b \<Rightarrow> b)\<rparr>"
    and "set (o_tags y) = (set (o_tags x) \<union> set (StateTag s' # adds)) - set (StateTag s # dels)"
    and "wf_view v'" and "vstate v' = (vstate v)(n \<mapsto> s')" and "content v' = content v"
proof -
  from assms(1) obtain x ts where v': "v' = v(n \<mapsto> x\<lparr>o_tags := ts, o_skip := (case skip of None \<Rightarrow> o_skip x | Some b \<Rightarrow> b)\<rparr>)"
    and vn: "v n = Some x" and dist: "distinct ts"
    and ts: "set ts = (set (o_tags x) \<union> set (StateTag s' # adds)) - set (StateTag s # dels)"
    by (rule eff_changeE) blast
  let ?y = "x\<lparr>o_tags := ts, o_skip := (case skip of None \<Rightarrow> o_skip x | Some b \<Rightarrow> b)\<rparr>"
  have x: "obj_state x = Some s" "one_state (o_tags x)"
    using assms(2,3) vn by (auto simp: vstate_Some_iff wf_view_def)
  have y: "one_state (o_tags ?y) \<and> obj_state ?y = Some s'"
    by (rule retag_state [OF x(2,1) assms(4) _ assms(6,7,5)]) (simp add: ts)
  show ?thesis
  proof (rule that [OF vn v'])
    show "obj_state ?y = Some s'" "one_state (o_tags ?y)" using y by auto
    show "wf_view v'" using assms(2) y v' by (simp add: wf_view_upd)
    show "vstate v' = (vstate v)(n \<mapsto> s')" using y v' by simp
    show "content v' = content v" using vn v' by (auto simp: content_def fun_eq_iff)
    show "set (o_tags ?y) = (set (o_tags x) \<union> set (StateTag s' # adds)) - set (StateTag s # dels)"
      using ts by simp
  qed (use dist in simp_all)
qed

lemma effect_active:
  assumes "lv_effect pool (OpActivate n ignore) v v' \<or> lv_effect pool (OpDeactivate n) v v'"
    and "wf_view v"
  shows "wf_view v'" and "vstate v' = vstate v" and "content v' = content v"
  using assms
  by (auto elim!: eff_activateE eff_deactivateE simp: wf_view_def vstate_def content_def fun_eq_iff
      obj_state_def split: if_splits)

lemma effect_resize:
  assumes "lv_effect pool (OpResize n s) v v'" and "wf_view v"
  shows "wf_view v'" and "vstate v' = vstate v" and "content v' = content v"
  using assms
  by (auto elim!: eff_resizeE simp: wf_view_def vstate_def content_def fun_eq_iff obj_state_def
      split: if_splits)

lemma effect_remove:
  assumes "lv_effect pool (OpRemove n) v v'" and "wf_view v"
  shows "wf_view v'" and "vstate v' = (vstate v)(n := None)" and "content v' = (content v)(n := None)"
    and "v n \<noteq> None"
  using assms
  by (auto elim!: eff_removeE simp: wf_view_def vstate_def content_def fun_eq_iff bind_map_option
      option.map_comp comp_def split: if_splits)

lemma effect_rename:
  assumes "lv_effect pool (OpRename a b) v v'" and "wf_view v"
  shows "wf_view v'" and "vstate v' = (vstate v)(a := None, b := vstate v a)"
    and "content v' = (content v)(a := None, b := content v a)" and "v b = None" and "v a \<noteq> None"
  using assms
  by (auto elim!: eff_renameE simp: wf_view_def vstate_def content_def fun_eq_iff bind_map_option
      option.map_comp comp_def split: if_splits)

lemma effect_create:
  assumes "lv_effect pool (OpCreateThin n s (StateTag st # tags) act) v v'" and "wf_view v"
    and "\<not> list_ex state_tag tags"
  shows "wf_view v'" and "vstate v' = (vstate v)(n \<mapsto> st)" and "content v' = (content v)(n \<mapsto> (\<lambda>_. 0))"
    and "v n = None"
proof -
  from assms(1) obtain s' ts where v': "v' = v(n \<mapsto> \<lparr>o_tags = ts, o_pool = pool, o_origin = [], o_size = s',
      o_active = (act \<noteq> Some False), o_skip = False, o_data = (\<lambda>_. 0)\<rparr>)"
    and vn: "v n = None" and ts: "set ts = set (StateTag st # tags)"
    by (rule eff_createE) blast
  have born: "one_state ts \<and> stateOf ts = (st, True)"
    using ts assms(3) by (intro born_state) auto
  show "wf_view v'" using assms(2) born v' by (auto simp: wf_view_def)
  show "vstate v' = (vstate v)(n \<mapsto> st)" using born v' by (simp add: obj_state_def)
  show "content v' = (content v)(n \<mapsto> (\<lambda>_. 0))" using v' by simp
  show "v n = None" by (rule vn)
qed

lemma effect_snapshot:
  assumes "lv_effect pool (OpSnapshot origin n (StateTag st # tags) perm) v v'" and "wf_view v"
    and "\<not> list_ex state_tag tags"
  shows "wf_view v'" and "vstate v' = (vstate v)(n \<mapsto> st)" and "content v' = (content v)(n := content v origin)"
    and "v n = None" and "v origin \<noteq> None"
proof -
  from assms(1) obtain x ts where v': "v' = v(n \<mapsto> \<lparr>o_tags = ts, o_pool = o_pool x, o_origin = origin,
      o_size = o_size x, o_active = False, o_skip = True, o_data = o_data x\<rparr>)"
    and vn: "v origin = Some x" "v n = None" and ts: "set ts = set (StateTag st # tags)"
    by (rule eff_snapshotE) blast
  have born: "one_state ts \<and> stateOf ts = (st, True)"
    using ts assms(3) by (intro born_state) auto
  show "wf_view v'" using assms(2) born v' by (auto simp: wf_view_def)
  show "vstate v' = (vstate v)(n \<mapsto> st)" using born v' by (simp add: obj_state_def)
  show "content v' = (content v)(n := content v origin)"
    using v' vn by (auto simp: content_def fun_eq_iff)
  show "v n = None" "v origin \<noteq> None" using vn by auto
qed

end
