(* ===== verification/ApiStatus.thy ===== *)
theory ApiStatus
  imports Volumes
begin

text \<open>
  What the grpc services share: the identifiers they accept, the statuses they answer with
  (\<^verbatim>\<open>internal/api/api.go\<close>), the authorization of callers (\<^verbatim>\<open>internal/api/authz.go\<close>) and the reading of a
  refusal by a client (\<^verbatim>\<open>client/errors.go\<close>). The grpc package is not part of the repository: a status is a
  code, a message and the one detail the services attach, and the certificate of a caller is what the
  transport verified.
\<close>

section \<open>Statuses\<close>

definition protoState :: "State \<Rightarrow> VolumeState" where
  "protoState s =
     (case s of
        StateCreating \<Rightarrow> VOLUME_STATE_CREATING
      | StateReady \<Rightarrow> VOLUME_STATE_READY
      | StateAttached \<Rightarrow> VOLUME_STATE_ATTACHED
      | StatePushing \<Rightarrow> VOLUME_STATE_PUSHING
      | StateCommitting \<Rightarrow> VOLUME_STATE_COMMITTING
      | StateIncoming \<Rightarrow> VOLUME_STATE_INCOMING
      | StateRetired \<Rightarrow> VOLUME_STATE_RETIRED
      | StateDeleting \<Rightarrow> VOLUME_STATE_DELETING
      | StateSnapshot \<Rightarrow> VOLUME_STATE_SNAPSHOT
      | StateRollback \<Rightarrow> VOLUME_STATE_ROLLBACK
      | StateUnknown \<Rightarrow> VOLUME_STATE_UNSPECIFIED)"

definition stateName :: "State \<Rightarrow> string" where
  "stateName s = (if s = StateUnknown then ''unknown'' else State_string s)"

definition transferError :: "err \<Rightarrow> string \<Rightarrow> Status" where
  "transferError e message =
     (if err_Is e ErrTransferLimit then status_Error ResourceExhausted (err_Error e)
      else if err_Is e ErrTransferUsed then status_Error AlreadyExists (err_Error e)
      else if err_Is e ErrTransferUnknown then status_Error NotFound ''unknown transfer''
      else if err_Is e ErrTransferBusy then status_Error Aborted (err_Error e)
      else if err_Is e ErrBadFrame then status_Error InvalidArgument (err_Error e)
      else if err_Is e ErrDigestMismatch then status_Error DataLoss (err_Error e)
      else status_Error Internal message)"

text \<open>Attaching a detail to a status that is not OK succeeds.\<close>

definition volumeError :: "err \<Rightarrow> string \<Rightarrow> Status" where
  "volumeError e message =
     (if err_Is e ErrNotFound then status_Error NotFound ''volume does not exist''
      else if err_Is e ErrShrink \<or> err_Is e ErrHasSnapshots then status_Error FailedPrecondition (err_Error e)
      else if err_Is e ErrExportInProgress then status_Error Aborted (err_Error e)
      else case err_As_WrongState e of
        Some (v, s) \<Rightarrow>
          \<lparr>st_Code = FailedPrecondition, st_Message = err_Error (WrongStateError v s),
           st_WrongState = Some (v, protoState s)\<rparr>
      | None \<Rightarrow>
          if err_Is e ErrWrongLineage then status_Error FailedPrecondition (err_Error e)
          else if err_Is_lvm e LvmInUse then status_Error FailedPrecondition ''volume is in use''
          else if err_Is_lvm e LvmNotFound then status_Error NotFound ''volume does not exist''
          else if err_Is_lvm e LvmAlreadyExists then status_Error AlreadyExists (err_Error e)
          else status_Error Internal message)"

text \<open>Both readers of an error look through wrapping for the status of a peer.\<close>

fun status_Code :: "err \<Rightarrow> code" where
  "status_Code (PeerError s) = st_Code s"
| "status_Code (Wrap pre e post) = status_Code e"
| "status_Code _ = Unknown"

fun WrongState :: "err \<Rightarrow> (string \<times> VolumeState) option" where
  "WrongState (PeerError s) = st_WrongState s"
| "WrongState (Wrap pre e post) = WrongState e"
| "WrongState _ = None"

section \<open>Identifiers\<close>

definition alnum :: "char \<Rightarrow> bool" where
  "alnum c \<longleftrightarrow>
     (let n = of_char c :: nat in 97 \<le> n \<and> n \<le> 122 \<or> 65 \<le> n \<and> n \<le> 90 \<or> 48 \<le> n \<and> n \<le> 57)"

fun volumeIDPattern :: "string \<Rightarrow> bool" where
  "volumeIDPattern [] = False"
| "volumeIDPattern (c # cs) =
     ((alnum c \<or> c \<in> {CHR ''_'', CHR ''+''}) \<and>
      list_all (\<lambda>c. alnum c \<or> c \<in> {CHR ''_'', CHR ''+'', CHR ''.'', CHR ''-''}) cs)"

text \<open>The host part has no colon, so the expression can only match at the first one.\<close>

definition targetAddressPattern :: "string \<Rightarrow> bool" where
  "targetAddressPattern s =
     (case Cut s (CHR '':'') of
        None \<Rightarrow> False
      | Some (host, port) \<Rightarrow>
          host \<noteq> [] \<and> list_all (\<lambda>c. alnum c \<or> c \<in> {CHR ''.'', CHR ''_'', CHR ''-''}) host \<and>
          port \<noteq> [] \<and> list_all is_digit port)"

section \<open>Authorization\<close>

definition RoleOrchestrator :: string where
  "RoleOrchestrator = ''beanstore-orchestrator''"

definition RoleNode :: string where
  "RoleNode = ''beanstore-node''"

definition transferServicePrefix :: string where
  "transferServicePrefix = ''/beanstore.v1.TransferService/''"

text \<open>
  The transport's knowledge of a caller: the verified chains, each certificate given by its
  organizational units, or another kind of transport. A call without a peer is \<open>None\<close>.
\<close>

datatype AuthInfo = TLSInfo "string list list list" | OtherAuth

definition peerRole :: "AuthInfo option \<Rightarrow> string" where
  "peerRole p =
     (case p of
        Some (TLSInfo ((leaf # _) # _)) \<Rightarrow>
          (case find (\<lambda>ou. ou = RoleOrchestrator \<or> ou = RoleNode) leaf of Some ou \<Rightarrow> ou | None \<Rightarrow> [])
      | _ \<Rightarrow> [])"

definition authorize :: "AuthInfo option \<Rightarrow> string \<Rightarrow> Status + unit" where
  "authorize p fullMethod =
     (let role = peerRole p in
      if role = RoleOrchestrator then Inr ()
      else if role = RoleNode \<and> HasPrefix fullMethod transferServicePrefix then Inr ()
      else if role = RoleNode
      then Inl (status_Error PermissionDenied ''the node role only calls the transfer plane'')
      else Inl (status_Error PermissionDenied ''the client certificate carries no beanstore role''))"

definition authorizeUnary ::
  "AuthInfo option \<Rightarrow> string \<Rightarrow> ('w, Status, 'a) go \<Rightarrow> ('w, Status, 'a) go" where
  "authorizeUnary p fullMethod handler =
     (case authorize p fullMethod of Inl e \<Rightarrow> fail e | Inr _ \<Rightarrow> handler)"

definition authorizeStream ::
  "AuthInfo option \<Rightarrow> string \<Rightarrow> ('w, Status, 'a) go \<Rightarrow> ('w, Status, 'a) go" where
  "authorizeStream p fullMethod handler =
     (case authorize p fullMethod of Inl e \<Rightarrow> fail e | Inr _ \<Rightarrow> handler)"

text \<open>
  The options of the server: its transport credentials, which the grpc and tls packages make, and the
  two interceptors when TLS is configured.
\<close>

record 'c ServerOption =
  so_Creds :: 'c
  so_Unary :: bool
  so_Stream :: bool

definition ServerOptions :: "(Config \<Rightarrow> string + 'c) \<Rightarrow> Config \<Rightarrow> string + 'c ServerOption" where
  "ServerOptions serverCredentials cfg =
     (case serverCredentials cfg of
        Inl e \<Rightarrow> Inl e
      | Inr creds \<Rightarrow>
          Inr \<lparr>so_Creds = creds, so_Unary = tls_Enabled (cfg_TLS cfg), so_Stream = tls_Enabled (cfg_TLS cfg)\<rparr>)"

text \<open>What a server with these options does with a call.\<close>

definition dispatch ::
  "'c ServerOption \<Rightarrow> bool \<Rightarrow> AuthInfo option \<Rightarrow> string \<Rightarrow> ('w, Status, 'a) go \<Rightarrow> ('w, Status, 'a) go" where
  "dispatch opts streaming p fullMethod handler =
     (if streaming
      then (if so_Stream opts then authorizeStream p fullMethod handler else handler)
      else (if so_Unary opts then authorizeUnary p fullMethod handler else handler))"

section \<open>Lemmas\<close>

lemma err_Is_unique: "err_Is e s \<Longrightarrow> err_Is e t \<Longrightarrow> s = t"
  by (induction e) auto

lemma wrong_state_no_sentinel: "err_As_WrongState e = Some p \<Longrightarrow> \<not> err_Is e s \<and> \<not> err_Is_lvm e k"
  by (induction e) auto

lemma volumeIDPattern_iff: "volumeIDPattern s \<longleftrightarrow> lv_name_ok s"
  by (cases s) (auto simp: lv_name_ok_def name_char_def alnum_def Let_def list_all_iff)

lemma separators [simp]:
  "\<not> alnum (CHR '','')" "\<not> alnum (CHR '' '')" "\<not> alnum (CHR '':'')" "\<not> is_digit (CHR '','')" "\<not> is_digit (CHR '' '')"
  by (simp_all add: alnum_def is_digit_def)

lemma Cut_Some_iff: "Cut s c = Some (a, b) \<longleftrightarrow> s = a @ c # b \<and> c \<notin> set a"
proof (induction s arbitrary: a)
  case (Cons d s)
  show ?case
  proof (cases "d = c")
    case True
    then show ?thesis by (cases a) auto
  next
    case False
    have "Cut (d # s) c = Some (a, b) \<longleftrightarrow> (\<exists>a'. Cut s c = Some (a', b) \<and> a = d # a')"
      using False by (cases "Cut s c") auto
    then show ?thesis using False Cons by (cases a) auto
  qed
qed simp

lemma protoState_inject: "protoState s = protoState t \<longleftrightarrow> s = t"
  by (cases s; cases t) (simp_all add: protoState_def)

lemmas role_evals = RoleOrchestrator_def RoleNode_def transferServicePrefix_def

section \<open>Theorems\<close>

text \<open>
  The statuses of the transfer plane tell the failures apart that the pushing node acts on: data loss
  exactly for a digest mismatch, not found exactly for an unknown transfer, and so on; every other
  failure is internal and answered without its detail.
\<close>

theorem transferError_codes:
  "let c = st_Code (transferError e message) in
     (c = DataLoss \<longleftrightarrow> err_Is e ErrDigestMismatch) \<and> (c = NotFound \<longleftrightarrow> err_Is e ErrTransferUnknown) \<and>
     (c = AlreadyExists \<longleftrightarrow> err_Is e ErrTransferUsed) \<and> (c = ResourceExhausted \<longleftrightarrow> err_Is e ErrTransferLimit) \<and>
     (c = Aborted \<longleftrightarrow> err_Is e ErrTransferBusy) \<and> (c = InvalidArgument \<longleftrightarrow> err_Is e ErrBadFrame) \<and>
     (c = Internal \<longleftrightarrow> transferError e message = status_Error Internal message) \<and>
     c \<in> {DataLoss, NotFound, AlreadyExists, ResourceExhausted, Aborted, InvalidArgument, Internal}"
  by (auto simp: transferError_def status_Error_def Let_def dest: err_Is_unique)

text \<open>
  C36. A refused state reaches the client whole: from the error of a strict-state refusal, however wrapped,
  the client reads back the volume and the state the node found, under the code of a failed
  precondition; different states are different on the wire.
\<close>

theorem refusal_detail_roundtrip:
  assumes "err_As_WrongState e = Some (v, s)"
  shows "WrongState (PeerError (volumeError e message)) = Some (v, protoState s) \<and>
    st_Code (volumeError e message) = FailedPrecondition \<and>
    (\<forall>t. protoState t = protoState s \<longrightarrow> t = s)"
  using assms wrong_state_no_sentinel [OF assms] by (simp add: volumeError_def protoState_inject)

theorem refusal_detail_roundtrip_witness:
  "WrongState (PeerError (volumeError (Wrap ''deleting: '' (WrongStateError ''v'' StateAttached) []) ''deleting failed'')) =
    Some (''v'', VOLUME_STATE_ATTACHED)"
  using refusal_detail_roundtrip [of "Wrap ''deleting: '' (WrongStateError ''v'' StateAttached) []" "''v''" StateAttached
      "''deleting failed''"]
  by (simp add: protoState_def)

text \<open>
  The ids the api accepts are exactly the names lvm takes as one plain word, so a checked id cannot
  change the meaning of a selection or a tag list it becomes part of; a checked target address is a
  nonempty host and a nonempty port of digits, free of commas.
\<close>

theorem accepted_names:
  "(volumeIDPattern s \<longleftrightarrow> lv_name_ok s) \<and>
   (targetAddressPattern s \<longleftrightarrow>
      (\<exists>host port. s = host @ '':'' @ port \<and> host \<noteq> [] \<and> port \<noteq> [] \<and> list_all is_digit port \<and>
         list_all (\<lambda>c. alnum c \<or> c \<in> {CHR ''.'', CHR ''_'', CHR ''-''}) host)) \<and>
   (volumeIDPattern s \<or> targetAddressPattern s \<longrightarrow> s \<noteq> [] \<and> CHR '','' \<notin> set s \<and> CHR '' '' \<notin> set s)"
proof -
  have colon: "CHR '':'' \<notin> set host" if "list_all (\<lambda>c. alnum c \<or> c \<in> {CHR ''.'', CHR ''_'', CHR ''-''}) host" for host
    using that by (fastforce simp: list_all_iff)
  have addr: "targetAddressPattern s \<longleftrightarrow>
      (\<exists>host port. s = host @ '':'' @ port \<and> host \<noteq> [] \<and> port \<noteq> [] \<and> list_all is_digit port \<and>
         list_all (\<lambda>c. alnum c \<or> c \<in> {CHR ''.'', CHR ''_'', CHR ''-''}) host)"
    (is "_ \<longleftrightarrow> ?r")
  proof
    assume "targetAddressPattern s"
    then obtain host port where c: "Cut s (CHR '':'') = Some (host, port)" and "host \<noteq> []" "port \<noteq> []" "list_all is_digit port"
      "list_all (\<lambda>c. alnum c \<or> c \<in> {CHR ''.'', CHR ''_'', CHR ''-''}) host"
      by (auto simp: targetAddressPattern_def split: option.splits)
    moreover have "s = host @ '':'' @ port" using c by (simp add: Cut_Some_iff)
    ultimately show ?r by blast
  next
    assume ?r
    then obtain host port where h: "s = host @ CHR '':'' # port" "host \<noteq> []" "port \<noteq> []" "list_all is_digit port"
      "list_all (\<lambda>c. alnum c \<or> c \<in> {CHR ''.'', CHR ''_'', CHR ''-''}) host" by auto
    then have "Cut s (CHR '':'') = Some (host, port)" using colon by (simp add: Cut_Some_iff)
    then show "targetAddressPattern s" using h by (simp add: targetAddressPattern_def)
  qed
  have "s \<noteq> [] \<and> CHR '','' \<notin> set s \<and> CHR '' '' \<notin> set s" if "targetAddressPattern s"
    using that unfolding addr by (fastforce simp: list_all_iff)
  moreover have "s \<noteq> [] \<and> CHR '','' \<notin> set s \<and> CHR '' '' \<notin> set s" if "volumeIDPattern s"
    using that by (cases s) (fastforce simp: list_all_iff)+
  ultimately show ?thesis using addr volumeIDPattern_iff by blast
qed

theorem accepted_names_witness:
  "lv_name_ok ''vol-1.a'' \<and> CHR '','' \<notin> set ''node-2:7411''"
proof -
  have "volumeIDPattern ''vol-1.a''" "targetAddressPattern ''node-2:7411''"
    by (simp_all add: alnum_def targetAddressPattern_def is_digit_def Let_def)
  then show ?thesis using accepted_names [of "''vol-1.a''"] accepted_names [of "''node-2:7411''"] by blast
qed

text \<open>
  C35. With TLS configured a handler runs only for a caller with a verified certificate that carries a
  role, and for the node role only on the transfer plane: every other call is answered with
  permission denied and changes nothing.
\<close>

theorem dispatch_authorized:
  assumes "ServerOptions serverCredentials cfg = Inr opts" and "tls_Enabled (cfg_TLS cfg)"
  shows "dispatch opts streaming p fullMethod handler w =
    (if peerRole p = RoleOrchestrator \<or> peerRole p = RoleNode \<and> prefix transferServicePrefix fullMethod
     then handler w
     else (Inl (status_Error PermissionDenied
       (if peerRole p = RoleNode then ''the node role only calls the transfer plane''
        else ''the client certificate carries no beanstore role'')), w)) \<and>
    (peerRole p = RoleOrchestrator \<or> peerRole p = RoleNode \<longrightarrow>
      (\<exists>leaf certs chains. p = Some (TLSInfo ((leaf # certs) # chains)) \<and> peerRole p \<in> set leaf))"
proof
  have "RoleOrchestrator \<noteq> RoleNode" by (simp add: role_evals)
  then show "dispatch opts streaming p fullMethod handler w =
    (if peerRole p = RoleOrchestrator \<or> peerRole p = RoleNode \<and> prefix transferServicePrefix fullMethod
     then handler w
     else (Inl (status_Error PermissionDenied
       (if peerRole p = RoleNode then ''the node role only calls the transfer plane''
        else ''the client certificate carries no beanstore role'')), w))"
    using assms
    by (auto simp: ServerOptions_def dispatch_def authorizeUnary_def authorizeStream_def authorize_def Let_def
        HasPrefix_def fail_def split: sum.splits)
  show "peerRole p = RoleOrchestrator \<or> peerRole p = RoleNode \<longrightarrow>
      (\<exists>leaf certs chains. p = Some (TLSInfo ((leaf # certs) # chains)) \<and> peerRole p \<in> set leaf)"
    by (auto simp: peerRole_def role_evals find_Some_iff
        split: option.splits AuthInfo.splits list.splits) (metis nth_mem)+
qed

theorem dispatch_authorized_witness:
  "fst (dispatch \<lparr>so_Creds = (), so_Unary = True, so_Stream = True\<rparr> False (Some (TLSInfo [[[''ops'', ''beanstore-node'']]]))
     ''/beanstore.v1.VolumeService/DeleteVolume'' (ret ()) (0 :: nat)) =
    Inl (status_Error PermissionDenied ''the node role only calls the transfer plane'')"
proof -
  let ?cfg = "\<lparr>cfg_ListenAddress = '':7411'', cfg_LogLevel = LevelInfo, cfg_VolumeGroup = ''vg0'', cfg_ThinPool = ''thin'',
      cfg_CreatePool = False, cfg_PoolSize = \<lparr>ps_Bytes = 0, ps_Percent = 0\<rparr>, cfg_MaxInboundTransfers = 2,
      cfg_TransferGrace = 1, cfg_TLS = \<lparr>tls_CAFile = ''ca'', tls_CertFile = ''crt'', tls_KeyFile = ''key''\<rparr>,
      cfg_Insecure = False\<rparr>"
  have "ServerOptions (\<lambda>_. Inr ()) ?cfg = Inr \<lparr>so_Creds = (), so_Unary = True, so_Stream = True\<rparr>"
    by (simp add: ServerOptions_def tls_Enabled_def)
  moreover have "tls_Enabled (cfg_TLS ?cfg)" by (simp add: tls_Enabled_def)
  moreover have "peerRole (Some (TLSInfo [[[''ops'', ''beanstore-node'']]])) = RoleNode"
    "RoleNode \<noteq> RoleOrchestrator" "\<not> prefix transferServicePrefix ''/beanstore.v1.VolumeService/DeleteVolume''"
    by (simp_all add: peerRole_def role_evals)
  ultimately show ?thesis
    using dispatch_authorized [of "\<lambda>_. Inr ()" ?cfg "\<lparr>so_Creds = (), so_Unary = True, so_Stream = True\<rparr>" False
        "Some (TLSInfo [[[''ops'', ''beanstore-node'']]])" "''/beanstore.v1.VolumeService/DeleteVolume''" "ret ()" "0 :: nat"]
    by simp
qed

end
