(* ===== verification/RefLvm.thy ===== *)
theory RefLvm
  imports LvmHost "HOL-Library.AList"
begin

text \<open>
  An executable reference host. It reads the command lines the client library renders, changes a
  list of logical volumes and prints the \<^verbatim>\<open>lvs\<close> json report, with the effects \<open>lv_effect\<close> states. It
  shows that the contract of \<open>lvm2\<close> can be met, and it is the host on which the theorems over the
  contract are instantiated.
\<close>

type_synonym refhost = "(string \<times> lvobj) list"

section \<open>Reading command lines\<close>

fun take_tags :: "string \<Rightarrow> Cmd \<Rightarrow> string list \<times> Cmd" where
  "take_tags f (x # y # z # rest) =
     (if x = f then (let (ts, r) = take_tags f (z # rest) in (y # ts, r)) else ([], x # y # z # rest))"
| "take_tags f r = ([], r)"

fun take_arg :: "string \<Rightarrow> Cmd \<Rightarrow> string option \<times> Cmd" where
  "take_arg f [x, y, z] = (if x = f then (Some y, [z]) else (None, [x, y, z]))"
| "take_arg f r = (None, r)"

definition parse_bytes :: "string \<Rightarrow> u64" where
  "parse_bytes s = (case ParseUint (butlast s) of Inl _ \<Rightarrow> 0 | Inr n \<Rightarrow> n)"

definition lv_of_path :: "string \<Rightarrow> string \<Rightarrow> string" where
  "lv_of_path vg s = drop (Suc (length vg)) s"

definition read_yn :: "string option \<Rightarrow> bool option" where
  "read_yn v = map_option (\<lambda>s. s = ''y'') v"

definition read_lvchange :: "string \<Rightarrow> Cmd \<Rightarrow> lvop" where
  "read_lvchange vg rest =
     (let name = lv_of_path vg (last rest) in
      if take 2 rest = [''-a'', ''y''] then OpActivate name (length rest = 4)
      else if take 2 rest = [''-a'', ''n''] then OpDeactivate name
      else let (adds, r1) = take_tags ''--addtag'' rest; (dels, r2) = take_tags ''--deltag'' r1;
               (skip, r3) = take_arg ''-k'' r2 in
        OpChange name adds dels (read_yn skip))"

definition read_lvcreate :: "string \<Rightarrow> Cmd \<Rightarrow> lvop" where
  "read_lvcreate vg rest =
     (if hd rest = ''--type'' then
        let (tags, r1) = take_tags ''--addtag'' (drop 8 rest); (act, r2) = take_arg ''-a'' r1 in
        OpCreateThin (rest ! 7) (parse_bytes (rest ! 5)) tags (read_yn act)
      else
        let (tags, r1) = take_tags ''--addtag'' (drop 3 rest); (perm, r2) = take_arg ''-p'' r1 in
        OpSnapshot (lv_of_path vg (last rest)) (rest ! 2) tags (case perm of None \<Rightarrow> [] | Some p \<Rightarrow> p))"

definition read_cmd :: "string \<Rightarrow> Cmd \<Rightarrow> lvop option" where
  "read_cmd vg cmd =
     (let sub = cmd ! 1; rest = drop 2 cmd in
      if sub = ''lvchange'' then Some (read_lvchange vg rest)
      else if sub = ''lvcreate'' then Some (read_lvcreate vg rest)
      else if sub = ''lvremove'' then Some (OpRemove (lv_of_path vg (last rest)))
      else if sub = ''lvrename'' then Some (OpRename (rest ! 1) (rest ! 2))
      else if sub = ''lvresize'' then Some (OpResize (lv_of_path vg (last rest)) (parse_bytes (rest ! 1)))
      else None)"

lemma take_tags_flag:
  "r \<noteq> [] \<Longrightarrow> length r \<le> 2 \<or> hd r \<noteq> f \<Longrightarrow> take_tags f (flag_tags f ts @ r) = (ts, r)"
proof (induction ts)
  case Nil
  then show ?case by (cases "(f, r)" rule: take_tags.cases) (auto simp: flag_tags_def)
next
  case (Cons t ts)
  then obtain z rest where "flag_tags f ts @ r = z # rest" by (cases "flag_tags f ts @ r") auto
  then have "take_tags f (flag_tags f (t # ts) @ r) = (t # ts, r)"
    using Cons by (simp add: flag_tags_def)
  then show ?case .
qed

lemma lv_of_path_append [simp]: "lv_of_path vg (vg @ ''/'' @ n) = n" "lv_of_path vg (vg @ CHR ''/'' # n) = n"
  by (simp_all add: lv_of_path_def)

lemma parse_bytes_format [simp]: "parse_bytes (FormatUint n @ ''b'') = n"
  by (simp add: parse_bytes_def)

lemma take_arg_bool:
  "take_arg f (flag_bool f ob @ [z]) = (map_option flagValue ob, [z])"
  by (cases ob) (auto simp: flag_bool_def)

lemma read_yn_flagValue [simp]: "read_yn (map_option flagValue ob) = ob"
  by (cases ob) (auto simp: read_yn_def flagValue_def)

lemma flag_bool_shape:
  "flag_bool f ob @ [z] \<noteq> []" "hd (flag_bool f ob @ [z]) \<noteq> g \<longleftrightarrow> (if ob = None then z \<noteq> g else f \<noteq> g)"
  "length (flag_bool f ob @ [z]) = (if ob = None then 1 else 3)"
  by (cases ob; simp add: flag_bool_def)+

lemma read_change:
  "read_lvchange vg (flag_tags ''--addtag'' adds @ flag_tags ''--deltag'' dels @ flag_bool ''-k'' skip @ [vg @ ''/'' @ n]) =
    OpChange n adds dels skip"
proof -
  let ?z = "vg @ ''/'' @ n"
  let ?r2 = "flag_bool ''-k'' skip @ [?z]"
  let ?r1 = "flag_tags ''--deltag'' dels @ ?r2"
  let ?r = "flag_tags ''--addtag'' adds @ ?r1"
  have t2: "take_tags ''--deltag'' ?r1 = (dels, ?r2)"
    by (rule take_tags_flag) (auto simp: flag_bool_shape)
  have "length ?r1 \<le> 2 \<or> hd ?r1 \<noteq> ''--addtag''"
    by (cases dels; cases skip) (auto simp: flag_tags_def flag_bool_def)
  then have t1: "take_tags ''--addtag'' ?r = (adds, ?r1)"
    by (intro take_tags_flag) auto
  have "take 2 ?r \<noteq> [''-a'', y]" for y
    by (cases adds; cases dels; cases skip) (auto simp: flag_tags_def flag_bool_def)
  moreover have "last ?r = ?z" by simp
  ultimately show ?thesis
    by (simp only: read_lvchange_def Let_def t1 t2 take_arg_bool read_yn_flagValue prod.case
        lv_of_path_append if_False)
qed

lemma read_create:
  "read_lvcreate vg ([''--type'', ''thin'', ''--thinpool'', pool, ''-V'', FormatUint s @ ''b'', ''-n'', n] @
     flag_tags ''--addtag'' tags @ flag_bool ''-a'' act @ [vg]) = OpCreateThin n s tags act"
proof -
  have "take_tags ''--addtag'' (flag_tags ''--addtag'' tags @ flag_bool ''-a'' act @ [vg]) =
      (tags, flag_bool ''-a'' act @ [vg])"
    by (rule take_tags_flag) (auto simp: flag_bool_shape)
  then show ?thesis by (simp add: read_lvcreate_def take_arg_bool)
qed

lemma read_snapshot:
  "read_lvcreate vg ([''-s'', ''-n'', n] @ flag_tags ''--addtag'' tags @ flag_str ''-p'' perm @ [vg @ ''/'' @ origin]) =
    OpSnapshot origin n tags perm"
proof -
  have "take_tags ''--addtag'' (flag_tags ''--addtag'' tags @ flag_str ''-p'' perm @ [vg @ ''/'' @ origin]) =
      (tags, flag_str ''-p'' perm @ [vg @ ''/'' @ origin])"
    by (rule take_tags_flag) (auto simp: flag_str_def)
  then show ?thesis by (simp add: read_lvcreate_def flag_str_def)
qed

lemma read_cmd_argv: "read_cmd vg (argv vg pool op) = Some op"
proof (cases op)
  case (OpChange n adds dels skip)
  then show ?thesis using read_change [of vg adds dels skip n] by (simp add: read_cmd_def)
next
  case (OpActivate n ignore)
  then show ?thesis by (cases ignore) (simp_all add: read_cmd_def read_lvchange_def)
next
  case (OpDeactivate n)
  then show ?thesis by (simp add: read_cmd_def read_lvchange_def)
next
  case (OpCreateThin n s tags act)
  then show ?thesis using read_create [of vg pool s n tags act] by (simp add: read_cmd_def)
next
  case (OpSnapshot origin n tags perm)
  then show ?thesis using read_snapshot [of vg n tags perm origin] by (simp add: read_cmd_def)
qed (simp_all add: read_cmd_def)

section \<open>Executing commands\<close>

definition ref_tags :: "string list \<Rightarrow> string list \<Rightarrow> string list \<Rightarrow> string list" where
  "ref_tags ts adds dels = filter (\<lambda>t. t \<notin> set dels) (remdups (ts @ adds))"

fun exec :: "string \<Rightarrow> lvop \<Rightarrow> refhost \<Rightarrow> refhost option" where
  "exec pool (OpChange n adds dels skip) w =
     map_option (\<lambda>x. AList.update n (x\<lparr>o_tags := ref_tags (o_tags x) adds dels,
        o_skip := (case skip of None \<Rightarrow> o_skip x | Some b \<Rightarrow> b)\<rparr>) w) (map_of w n)"
| "exec pool (OpActivate n ignore) w =
     map_option (\<lambda>x. AList.update n (x\<lparr>o_active := o_active x \<or> ignore \<or> \<not> o_skip x\<rparr>) w) (map_of w n)"
| "exec pool (OpDeactivate n) w =
     map_option (\<lambda>x. AList.update n (x\<lparr>o_active := False\<rparr>) w) (map_of w n)"
| "exec pool (OpRemove n) w =
     (if map_of w n = None then None
      else Some (map (\<lambda>(m, x). (m, reorigin n [] x)) (AList.delete n w)))"
| "exec pool (OpCreateThin n s tags act) w =
     (if map_of w n \<noteq> None then None
      else Some (AList.update n \<lparr>o_tags = remdups tags, o_pool = pool, o_origin = [], o_size = s,
        o_active = (act \<noteq> Some False), o_skip = False, o_data = (\<lambda>_. 0)\<rparr> w))"
| "exec pool (OpSnapshot origin n tags perm) w =
     (if map_of w n \<noteq> None then None
      else map_option (\<lambda>x. AList.update n \<lparr>o_tags = remdups tags, o_pool = o_pool x, o_origin = origin,
        o_size = o_size x, o_active = False, o_skip = True, o_data = o_data x\<rparr> w) (map_of w origin))"
| "exec pool (OpRename a b) w =
     (if map_of w b \<noteq> None then None
      else map_option (\<lambda>x. map (\<lambda>(m, y). (m, reorigin a b y)) (AList.update b x (AList.delete a w))) (map_of w a))"
| "exec pool (OpResize n s) w =
     map_option (\<lambda>x. AList.update n (x\<lparr>o_size := s\<rparr>) w) (map_of w n)"

lemma map_of_map_snd: "map_of (map (\<lambda>(m, x). (m, f x)) w) n = map_option f (map_of w n)"
  by (simp add: map_of_map)

lemma exec_effect:
  assumes "exec pool op w = Some w'"
  shows "lv_effect pool op (map_of w) (map_of w')"
proof (cases op)
  case (OpChange n adds dels skip)
  then show ?thesis using assms
    by (auto simp: AList.update_conv' ref_tags_def intro!: eff_change)
next
  case (OpActivate n ignore)
  then show ?thesis using assms by (auto simp: AList.update_conv' intro: eff_activate)
next
  case (OpDeactivate n)
  then show ?thesis using assms by (auto simp: AList.update_conv' intro: eff_deactivate)
next
  case (OpRemove n)
  then have "map_of w' = (\<lambda>m. if m = n then None else map_option (reorigin n []) (map_of w m))"
    using assms by (auto simp: map_of_map_snd AList.delete_conv' fun_eq_iff split: if_splits)
  moreover obtain x where "map_of w n = Some x"
    using assms OpRemove by (cases "map_of w n") auto
  ultimately show ?thesis using OpRemove by (simp add: eff_remove)
next
  case (OpCreateThin n s tags act)
  then show ?thesis using assms
    by (auto simp: AList.update_conv' split: if_splits intro!: eff_create)
next
  case (OpSnapshot origin n tags perm)
  then show ?thesis using assms
    by (auto simp: AList.update_conv' split: if_splits intro!: eff_snapshot)
next
  case (OpRename a b)
  then obtain x where x: "map_of w b = None" "map_of w a = Some x"
    and w': "w' = map (\<lambda>(m, y). (m, reorigin a b y)) (AList.update b x (AList.delete a w))"
    using assms by (auto split: if_splits)
  have "map_of w' = (\<lambda>m. map_option (reorigin a b) (if m = b then Some x else if m = a then None else map_of w m))"
    unfolding w' by (auto simp: map_of_map_snd AList.update_conv' AList.delete_conv' fun_eq_iff)
  then show ?thesis using x OpRename by (simp add: eff_rename)
next
  case (OpResize n s)
  then show ?thesis using assms by (auto simp: AList.update_conv' intro: eff_resize)
qed

section \<open>Reporting\<close>

definition obj_lv :: "string \<Rightarrow> string \<times> lvobj \<Rightarrow> LogicalVolume" where
  "obj_lv vg p =
     (let (n, x) = p in
      \<lparr>lv_Name = n, lv_UUID = [], lv_VolumeGroup = vg, lv_SizeBytes = o_size x, lv_MetadataSizeBytes = 0,
       lv_ChunkSizeBytes = 0, lv_Attributes = [], lv_Tags = o_tags x, lv_Pool = o_pool x,
       lv_Origin = o_origin x, lv_Path = (if o_active x then ''/dev/'' @ vg @ ''/'' @ n else []),
       lv_DevicePath = [], lv_DataPercent = Fin 0, lv_MetadataPercent = Fin 0, lv_Active = o_active x,
       lv_Layout = []\<rparr>)"

definition printable :: "string \<Rightarrow> refhost \<Rightarrow> bool" where
  "printable vg w \<longleftrightarrow>
     distinct (map fst w) \<and>
     list_all (\<lambda>p. plain_raw (raw_of_lv [] [] (obj_lv vg p)) \<and> list_all list_item (o_tags (snd p))) w"

definition selected :: "string \<Rightarrow> string \<times> lvobj \<Rightarrow> bool" where
  "selected sel p =
     (case CutPrefix sel ''lv_name = '' of
        Some n \<Rightarrow> fst p = n
      | None \<Rightarrow> (case CutPrefix sel ''pool_lv = '' of Some n \<Rightarrow> o_pool (snd p) = n | None \<Rightarrow> True))"

definition ref_run :: "string \<Rightarrow> string \<Rightarrow> refhost runner" where
  "ref_run vg pool cmd w =
     (if cmd ! 1 = ''lvs'' then
        (if printable vg w
         then (Inr (lv_report (map (\<lambda>p. raw_of_lv [] [] (obj_lv vg p)) (filter (selected (cmd ! 11)) w))), w)
         else (Inl (RunError 5 ''cannot report''), w))
      else case read_cmd vg cmd of
        None \<Rightarrow> (Inl (RunError 3 ''unknown command''), w)
      | Some op \<Rightarrow>
          (case exec pool op w of None \<Rightarrow> (Inl (RunError 5 ''refused''), w) | Some w' \<Rightarrow> (Inr [], w')))"

lemma ref_run_argv:
  "ref_run vg pool (argv vg pool op) w =
    (case exec pool op w of None \<Rightarrow> (Inl (RunError 5 ''refused''), w) | Some w' \<Rightarrow> (Inr [], w'))"
proof -
  have "argv vg pool op ! 1 \<noteq> ''lvs''" by (cases op) simp_all
  then show ?thesis by (simp add: ref_run_def read_cmd_argv)
qed

lemma ref_run_lvs:
  "ref_run vg pool (lvs_argv vg sel) w =
    (if printable vg w
     then (Inr (lv_report (map (\<lambda>p. raw_of_lv [] [] (obj_lv vg p)) (filter (selected sel) w))), w)
     else (Inl (RunError 5 ''cannot report''), w))"
  by (simp add: ref_run_def lvs_argv_def)

lemma ref_report:
  assumes "printable vg w"
  shows "parseLVReport (lv_report (map (\<lambda>p. raw_of_lv [] [] (obj_lv vg p)) (filter P w))) =
    Inr (map (obj_lv vg) (filter P w))"
proof -
  have "list_all plain_raw (map (\<lambda>p. raw_of_lv [] [] (obj_lv vg p)) (filter P w))"
    using assms by (auto simp: printable_def list_all_iff)
  moreover have "parse_raw_lv (raw_of_lv [] [] (obj_lv vg p)) = Inr (obj_lv vg p)" if "p \<in> set w" for p
    using that assms
    by (intro parse_raw_of_lv)
      (auto simp: printable_def list_all_iff obj_lv_def parsePercent_def split: prod.splits)
  then have "parse_each parse_raw_lv (map (\<lambda>p. raw_of_lv [] [] (obj_lv vg p)) (filter P w)) =
      Inr (map (obj_lv vg) (filter P w))"
    by (intro parse_each_map) simp
  ultimately show ?thesis by (simp add: parseLVReport_lv_report)
qed

lemma selected_name [simp]: "selected (sel_name n) p \<longleftrightarrow> fst p = n"
  unfolding selected_def sel_name_def CutPrefix_append by simp

lemma selected_pool [simp]: "selected (sel_pool n) p \<longleftrightarrow> o_pool (snd p) = n"
proof -
  have "CutPrefix (''pool_lv = '' @ n) ''lv_name = '' = None" by (simp add: CutPrefix_def)
  moreover have "CutPrefix (''pool_lv = '' @ n) ''pool_lv = '' = Some n" by (rule CutPrefix_append)
  ultimately show ?thesis by (simp add: selected_def sel_pool_def del: append.simps)
qed

lemma ref_reports:
  assumes "printable vg w" and "\<And>p. P p \<longleftrightarrow> Q (fst p) (snd p)"
  shows "reports Q (map_of w) (map (obj_lv vg) (filter P w))"
proof -
  have names: "map lv_Name (map (obj_lv vg) (filter P w)) = map fst (filter P w)"
    by (auto simp: obj_lv_def split: prod.splits)
  have dist: "distinct (map fst w)" using assms(1) by (simp add: printable_def)
  have "set (map fst (filter P w)) = {n. \<exists>x. map_of w n = Some x \<and> Q n x}"
    using dist assms(2) by (force simp: image_iff)
  moreover have "distinct (map fst (filter P w))" using dist by (rule distinct_map_filter)
  moreover have "\<exists>x. map_of w (lv_Name lv) = Some x \<and> shows_obj lv x"
    if "lv \<in> set (map (obj_lv vg) (filter P w))" for lv
    using that dist by (auto simp: obj_lv_def shows_obj_def)
  ultimately show ?thesis unfolding reports_def names by blast
qed

interpretation ref: lvm2 "ref_run vg pool" vg pool map_of for vg pool
proof
  fix op w out f r w' sel n lvs
  show "ref_run vg pool (argv vg pool op) w = (Inr out, w') \<Longrightarrow> lv_effect pool op (map_of w) (map_of w')"
    by (auto simp: ref_run_argv intro: exec_effect split: option.splits)
  show "ref_run vg pool (argv vg pool op) w = (Inl f, w') \<Longrightarrow>
      map_of w' = map_of w \<or> lv_effect pool op (map_of w) (map_of w')"
    by (auto simp: ref_run_argv split: option.splits)
  show "ref_run vg pool (lvs_argv vg sel) w = (r, w') \<Longrightarrow> map_of w' = map_of w"
    by (auto simp: ref_run_lvs split: if_splits)
  show "lv_name_ok n \<Longrightarrow> ref_run vg pool (lvs_argv vg (sel_name n)) w = (Inr out, w') \<Longrightarrow>
      parseLVReport out = Inr lvs \<Longrightarrow> reports (\<lambda>m _. m = n) (map_of w) lvs"
    using ref_report [of vg w "selected (sel_name n)"] ref_reports [of vg w "selected (sel_name n)" "\<lambda>m _. m = n"]
    by (auto simp: ref_run_lvs split: if_splits)
  show "lv_name_ok pool \<Longrightarrow> ref_run vg pool (lvs_argv vg (sel_pool pool)) w = (Inr out, w') \<Longrightarrow>
      parseLVReport out = Inr lvs \<Longrightarrow> reports (\<lambda>_ x. o_pool x = pool) (map_of w) lvs"
    using ref_report [of vg w "selected (sel_pool pool)"]
      ref_reports [of vg w "selected (sel_pool pool)" "\<lambda>_ x. o_pool x = pool"]
    by (auto simp: ref_run_lvs split: if_splits)
qed

end
