(* ===== verification/VolumeVerbs.thy ===== *)
theory VolumeVerbs
  imports Volumes RefLvm
begin

text \<open>
  What the volume verbs do, on every branch. The locale \<open>node\<close> is what a verb relies on: the lvm
  contract for the configured volume group and pool, and a validated configuration. Its lemmas give
  the outcome of each verb in terms of the view of the volume group, of the abstract state \<open>vstate\<close> and of the
  content of the volumes; the theorems at the end of the theory state them with the locale
  as a hypothesis.
\<close>

locale node =
  fixes run :: "'w runner"
    and cfg :: Config
    and view :: "'w \<Rightarrow> lvview"
  assumes contract: "lvm2 run (cfg_VolumeGroup cfg) (cfg_ThinPool cfg) view"
    and vg_set: "cfg_VolumeGroup cfg \<noteq> []"
    and pool_ok: "lv_name_ok (cfg_ThinPool cfg)"

sublocale node \<subseteq> lvm2 run "cfg_VolumeGroup cfg" "cfg_ThinPool cfg" view
  by (rule contract)

section \<open>What a volume record tells\<close>

definition obj_origin :: "lvobj \<Rightarrow> string" where
  "obj_origin x =
     (let origin = tagValue (o_tags x) originTagPrefix in
      if origin = [] \<and> obj_state x = Some StateSnapshot then o_origin x else origin)"

definition vol_shows :: "lvobj \<Rightarrow> Volume \<Rightarrow> bool" where
  "vol_shows x vol \<longleftrightarrow>
     obj_state x = Some (vol_State vol) \<and> vol_SizeBytes vol = o_size x \<and> vol_Active vol = o_active x \<and>
     vol_Origin vol = obj_origin x \<and>
     vol_OriginTagged vol = (tagValue (o_tags x) originTagPrefix \<noteq> []) \<and>
     vol_Transfer vol = tagValue (o_tags x) transferTagPrefix \<and>
     vol_PushTarget vol = tagValue (o_tags x) targetTagPrefix \<and>
     vol_RollbackTarget vol = tagValue (o_tags x) rollbackTargetTagPrefix"

lemma volumeFromLV_shows:
  assumes "shows_obj lv x" and "snd (stateOf (lv_Tags lv))"
  shows "vol_shows x (volumeFromLV lv)" and "vol_ID (volumeFromLV lv) = lv_Name lv"
  using assms
  by (auto simp: vol_shows_def volumeFromLV_def shows_obj_def obj_state_def obj_origin_def Let_def
      split: prod.splits)

lemma vol_showsD: "vol_shows x vol \<Longrightarrow> obj_state x = Some (vol_State vol)"
  by (simp add: vol_shows_def)

text \<open>The volumes of the pool the node owns.\<close>

definition pool_volumes :: "string \<Rightarrow> lvview \<Rightarrow> string set" where
  "pool_volumes pool v = {n. \<exists>x. v n = Some x \<and> o_pool x = pool \<and> obj_state x \<noteq> None}"

definition snapshots_of :: "string \<Rightarrow> lvview \<Rightarrow> string \<Rightarrow> string set" where
  "snapshots_of pool v vid =
     {n. \<exists>x. v n = Some x \<and> o_pool x = pool \<and> obj_state x = Some StateSnapshot \<and> obj_origin x = vid}"

text \<open>
  A verb moves a volume to another state: its tags and its skip flag change, nothing else does, and
  no other volume changes.
\<close>

definition skipped :: "bool option \<Rightarrow> lvobj \<Rightarrow> bool" where
  "skipped skip x = (case skip of None \<Rightarrow> o_skip x | Some b \<Rightarrow> b)"

definition retagged :: "State \<Rightarrow> string list \<Rightarrow> State \<Rightarrow> string list \<Rightarrow> string list \<Rightarrow> string list \<Rightarrow> bool" where
  "retagged s' adds s dels ts ts' \<longleftrightarrow>
     distinct ts' \<and> set ts' = (set ts \<union> set (StateTag s' # adds)) - set (StateTag s # dels) \<and>
     one_state ts' \<and> stateOf ts' = (s', True)"

definition moves ::
  "string \<Rightarrow> State \<Rightarrow> string list \<Rightarrow> State \<Rightarrow> string list \<Rightarrow> bool option \<Rightarrow> lvview \<Rightarrow> lvview \<Rightarrow> bool" where
  "moves n s' adds s dels skip v v' \<longleftrightarrow>
     (\<exists>x ts. v n = Some x \<and> obj_state x = Some s \<and> retagged s' adds s dels (o_tags x) ts \<and>
        v' = v(n \<mapsto> x\<lparr>o_tags := ts, o_skip := skipped skip x\<rparr>))"

definition can_move :: "string \<Rightarrow> State \<Rightarrow> string list \<Rightarrow> State \<Rightarrow> string list \<Rightarrow> lvview \<Rightarrow> bool" where
  "can_move n s' adds s dels v \<longleftrightarrow>
     wf_view v \<and> vstate v n = Some s \<and> s \<noteq> StateUnknown \<and> s \<noteq> s' \<and>
     \<not> list_ex state_tag adds \<and> \<not> list_ex state_tag dels"

lemma skipped_simps [simp]: "skipped None x = o_skip x" "skipped (Some b) x = b"
  by (simp_all add: skipped_def)

lemma movesE:
  assumes "moves n s' adds s dels skip v v'"
  obtains x ts where "v n = Some x" and "obj_state x = Some s" and "retagged s' adds s dels (o_tags x) ts"
    and "v' = v(n \<mapsto> x\<lparr>o_tags := ts, o_skip := skipped skip x\<rparr>)"
  using assms unfolding moves_def by blast

lemma movesD:
  assumes "moves n s' adds s dels skip v v'" and "wf_view v"
  shows "wf_view v'" and "vstate v' = (vstate v)(n \<mapsto> s')" and "content v' = content v"
    and "vstate v n = Some s" and "\<And>m. m \<noteq> n \<Longrightarrow> v' m = v m"
  using assms
  by (auto elim!: movesE simp: retagged_def wf_view_upd obj_state_def vstate_def content_def fun_eq_iff)

lemma effect_moves:
  assumes "lv_effect pool (OpChange n (StateTag s' # adds) (StateTag s # dels) skip) v v'"
    and "can_move n s' adds s dels v"
  shows "moves n s' adds s dels skip v v'"
proof (rule effect_retag [OF assms(1)])
  fix x y
  assume a: "v n = Some x" "v' = v(n \<mapsto> y)" "obj_state y = Some s'" "one_state (o_tags y)"
    "distinct (o_tags y)"
    "y = x\<lparr>o_tags := o_tags y, o_skip := (case skip of None \<Rightarrow> o_skip x | Some b \<Rightarrow> b)\<rparr>"
    "set (o_tags y) = (set (o_tags x) \<union> set (StateTag s' # adds)) - set (StateTag s # dels)"
  have "v' = v(n \<mapsto> x\<lparr>o_tags := o_tags y, o_skip := skipped skip x\<rparr>)"
    using a(2,6) by (simp add: skipped_def)
  moreover have "obj_state x = Some s" using assms(2) a(1) by (simp add: vstate_def can_move_def)
  moreover have "retagged s' adds s dels (o_tags x) (o_tags y)"
    using a(3-5,7) by (simp add: retagged_def obj_state_Some_iff)
  ultimately show ?thesis unfolding moves_def using a(1) by blast
qed (use assms(2) in \<open>auto simp: can_move_def\<close>)

lemma does_wrap: "does view pool op m \<Longrightarrow> does view pool op (wrap what m)"
  unfolding wrap_def by (rule does_mapErr)

section \<open>Reading\<close>

context node
begin

lemma GetVolume_cases:
  assumes "GetVolume (daemon_client run) cfg vid w = (r, w')" and "lv_name_ok vid"
  obtains (ok) x vol where "r = Inr vol" and "view w vid = Some x" and "vol_shows x vol"
      and "vol_ID vol = vid" and "view w' = view w"
  | (missing) "r = Inl (sentinel_err ErrNotFound vid)" and "vstate (view w) vid = None"
      and "view w' = view w"
  | (fault) e where "r = Inl (Wrap (''looking up volume '' @ vid @ '': '') (OfLvm e) [])"
      and "view w' = view w"
proof -
  let ?l = "ListLogicalVolumes (daemon_client run) (list_opts (cfg_VolumeGroup cfg) (sel_name vid))"
  obtain q w1 where l: "?l w = (q, w1)" by fastforce
  have frame: "view w1 = view w" by (rule list_frame [OF sel_nonempty(1) vg_set l])
  show ?thesis
  proof (cases q)
    case (Inl e)
    then show ?thesis using assms(1) l frame fault
      by (auto simp: GetVolume_def wrap_def seqE_def mapErr_def)
  next
    case (Inr lvs)
    then have rep: "reports (\<lambda>m _. m = vid) (view w) lvs"
      using l by (auto intro: list_by_name [OF vg_set assms(2)])
    have body: "(case lvs of [] \<Rightarrow> fail (sentinel_err ErrNotFound vid)
        | lv # _ \<Rightarrow> if \<not> snd (stateOf (lv_Tags lv)) then fail (sentinel_err ErrNotFound vid)
            else ret (volumeFromLV lv)) w1 = (r, w')"
      using assms(1) l Inr by (simp add: GetVolume_def wrap_def seqE_def mapErr_def)
    show ?thesis
    proof (cases lvs)
      case Nil
      with rep have "view w vid = None" by (auto simp: reports_def)
      then show ?thesis using body Nil missing frame by (auto simp: vstate_None)
    next
      case (Cons lv rest)
      with rep have name: "lv_Name lv = vid" by (auto simp: reports_def)
      with rep Cons obtain x where x: "view w vid = Some x" and sh: "shows_obj lv x"
        by (auto simp: reports_def)
      show ?thesis
      proof (cases "snd (stateOf (lv_Tags lv))")
        case True
        then show ?thesis
          using body Cons ok [OF _ x] volumeFromLV_shows [OF sh True] frame name by auto
      next
        case False
        then have "obj_state x = None"
          using sh by (auto simp: obj_state_def shows_obj_def split: prod.splits)
        then show ?thesis using body Cons False missing frame x by (auto simp: vstate_def)
      qed
    qed
  qed
qed

lemma VolumeExists_cases:
  assumes "VolumeExists (daemon_client run) cfg vid w = (r, w')" and "lv_name_ok vid"
  obtains (ok) "r = Inr (view w vid \<noteq> None)" and "view w' = view w"
  | (fault) e where "r = Inl (Wrap (''looking up volume '' @ vid @ '': '') (OfLvm e) [])"
      and "view w' = view w"
proof -
  let ?l = "ListLogicalVolumes (daemon_client run) (list_opts (cfg_VolumeGroup cfg) (sel_name vid))"
  obtain q w1 where l: "?l w = (q, w1)" by fastforce
  have frame: "view w1 = view w" by (rule list_frame [OF sel_nonempty(1) vg_set l])
  show ?thesis
  proof (cases q)
    case (Inl e)
    then show ?thesis using assms(1) l frame fault
      by (auto simp: VolumeExists_def wrap_def seqE_def mapErr_def)
  next
    case (Inr lvs)
    then have "reports (\<lambda>m _. m = vid) (view w) lvs"
      using l by (auto intro: list_by_name [OF vg_set assms(2)])
    then have "set (map lv_Name lvs) = {n. \<exists>x. view w n = Some x \<and> n = vid}"
      by (simp add: reports_def)
    then have "(0 < length lvs) = (view w vid \<noteq> None)"
      by (cases lvs) auto
    then show ?thesis using assms(1) l Inr frame ok
      by (simp add: VolumeExists_def wrap_def seqE_def mapErr_def)
  qed
qed

lemma ListVolumes_cases:
  assumes "ListVolumes (daemon_client run) cfg w = (r, w')"
  obtains (ok) vols where "r = Inr vols" and "view w' = view w" and "distinct (map vol_ID vols)"
      and "set (map vol_ID vols) = pool_volumes (cfg_ThinPool cfg) (view w)"
      and "\<And>vol. vol \<in> set vols \<Longrightarrow>
        \<exists>x. view w (vol_ID vol) = Some x \<and> o_pool x = cfg_ThinPool cfg \<and> vol_shows x vol"
  | (fault) e where "r = Inl (Wrap ''scanning volumes: '' (OfLvm e) [])" and "view w' = view w"
proof -
  let ?l = "ListLogicalVolumes (daemon_client run) (list_opts (cfg_VolumeGroup cfg) (sel_pool (cfg_ThinPool cfg)))"
  obtain q w1 where l: "?l w = (q, w1)" by fastforce
  have frame: "view w1 = view w" by (rule list_frame [OF sel_nonempty(2) vg_set l])
  show ?thesis
  proof (cases q)
    case (Inl e)
    then show ?thesis using assms(1) l frame fault
      by (auto simp: ListVolumes_def wrap_def seqE_def mapErr_def)
  next
    case (Inr lvs)
    let ?own = "filter (\<lambda>lv. snd (stateOf (lv_Tags lv))) lvs"
    have rep: "reports (\<lambda>_ x. o_pool x = cfg_ThinPool cfg) (view w) lvs"
      using l Inr by (auto intro: list_by_pool [OF vg_set pool_ok])
    have sh: "\<exists>x. view w (lv_Name lv) = Some x \<and> o_pool x = cfg_ThinPool cfg \<and> shows_obj lv x"
      if lv: "lv \<in> set lvs" for lv
    proof -
      have "lv_Name lv \<in> set (map lv_Name lvs)" using lv by simp
      then show ?thesis using rep lv unfolding reports_def by fastforce
    qed
    have ids: "map vol_ID (map volumeFromLV ?own) = map lv_Name ?own"
      by (simp add: volumeFromLV_def Let_def)
    have "set (map lv_Name ?own) = pool_volumes (cfg_ThinPool cfg) (view w)"
    proof (rule set_eqI, rule iffI)
      fix n
      assume "n \<in> set (map lv_Name ?own)"
      then show "n \<in> pool_volumes (cfg_ThinPool cfg) (view w)"
        using sh by (fastforce simp: pool_volumes_def obj_state_def shows_obj_def split: prod.splits)
    next
      fix n
      assume "n \<in> pool_volumes (cfg_ThinPool cfg) (view w)"
      then obtain x where x: "view w n = Some x" "o_pool x = cfg_ThinPool cfg" "obj_state x \<noteq> None"
        by (auto simp: pool_volumes_def)
      then have "n \<in> set (map lv_Name lvs)" using rep by (auto simp: reports_def)
      then obtain lv where lv: "lv \<in> set lvs" "lv_Name lv = n" by auto
      then have "snd (stateOf (lv_Tags lv))"
        using sh [OF lv(1)] x by (auto simp: obj_state_def shows_obj_def split: prod.splits if_splits)
      then show "n \<in> set (map lv_Name ?own)" using lv by auto
    qed
    moreover have "distinct (map lv_Name ?own)"
      using rep by (auto simp: reports_def intro: distinct_map_filter)
    moreover have "\<exists>x. view w (vol_ID vol) = Some x \<and> o_pool x = cfg_ThinPool cfg \<and> vol_shows x vol"
      if "vol \<in> set (map volumeFromLV ?own)" for vol
      using that sh volumeFromLV_shows by fastforce
    moreover have "(r, w') = (Inr (map volumeFromLV ?own), w1)"
      using assms(1) l Inr by (simp add: ListVolumes_def wrap_def seqE_def mapErr_def)
    ultimately show ?thesis using ok [of "map volumeFromLV ?own"] frame unfolding ids by simp
  qed
qed

lemma SnapshotsOf_cases:
  assumes "SnapshotsOf (daemon_client run) cfg vid w = (r, w')"
  obtains (ok) ids where "r = Inr ids" and "view w' = view w" and "distinct ids"
      and "set ids = snapshots_of (cfg_ThinPool cfg) (view w) vid"
  | (fault) e where "r = Inl (Wrap (''listing snapshots of '' @ vid @ '': '') (Wrap ''scanning volumes: '' (OfLvm e) []) [])"
      and "view w' = view w"
proof -
  obtain q w1 where l: "ListVolumes (daemon_client run) cfg w = (q, w1)" by fastforce
  from l show ?thesis
  proof (cases rule: ListVolumes_cases)
    case (fault e)
    then show ?thesis using assms l that(2)
      by (auto simp: SnapshotsOf_def rewrap_def seqE_def mapErr_def)
  next
    case (ok vols)
    let ?s = "filter (\<lambda>v. vol_State v = StateSnapshot \<and> vol_Origin v = vid) vols"
    have "set (map vol_ID ?s) = snapshots_of (cfg_ThinPool cfg) (view w) vid"
    proof (rule set_eqI, rule iffI)
      fix n
      assume "n \<in> set (map vol_ID ?s)"
      then show "n \<in> snapshots_of (cfg_ThinPool cfg) (view w) vid"
        using ok(5) by (fastforce simp: snapshots_of_def vol_shows_def)
    next
      fix n
      assume "n \<in> snapshots_of (cfg_ThinPool cfg) (view w) vid"
      then obtain x where x: "view w n = Some x" "o_pool x = cfg_ThinPool cfg"
        "obj_state x = Some StateSnapshot" "obj_origin x = vid"
        by (auto simp: snapshots_of_def)
      then have "n \<in> set (map vol_ID vols)" unfolding ok(4) by (auto simp: pool_volumes_def)
      then obtain vol where "vol \<in> set vols" "vol_ID vol = n" by auto
      moreover from this have "vol_shows x vol" using ok(5) x(1) by fastforce
      ultimately show "n \<in> set (map vol_ID ?s)" using x(3,4) by (auto simp: vol_shows_def)
    qed
    moreover have "distinct (map vol_ID ?s)" using ok(3) by (rule distinct_map_filter)
    ultimately show ?thesis using assms l ok(1,2) that(1) [of "map vol_ID ?s"]
      by (simp add: SnapshotsOf_def rewrap_def seqE_def mapErr_def)
  qed
qed

end

section \<open>Commands the verbs issue\<close>

context node
begin

lemma retag_cases:
  assumes "wrap what (ChangeLogicalVolume (daemon_client run) (lv_target cfg n)
      (retag_opts (StateTag s' # adds) (StateTag s # dels) skip)) w = (r, w')"
    and "can_move n s' adds s dels (view w)"
  obtains (none) e where "r = Inl e" and "view w' = view w"
  | (moved) "moves n s' adds s dels skip (view w) (view w')"
proof -
  have d: "does view (cfg_ThinPool cfg) (OpChange n (StateTag s' # adds) (StateTag s # dels) skip)
      (wrap what (ChangeLogicalVolume (daemon_client run) (lv_target cfg n)
        (retag_opts (StateTag s' # adds) (StateTag s # dels) skip)))"
    unfolding lv_target_def by (intro does_wrap does_retag) simp
  from does_cases [OF d assms(1)] show ?thesis
    using none moved effect_moves [OF _ assms(2)] by metis
qed

lemma activate_does:
  "does view (cfg_ThinPool cfg) (OpActivate n ignore)
    (wrap what (ActivateLogicalVolume (daemon_client run) (lv_target cfg n) (activate_opts ignore)))"
  unfolding lv_target_def by (intro does_wrap does_activate)

lemma deactivate_does:
  "does view (cfg_ThinPool cfg) (OpDeactivate n)
    (wrap what (DeactivateLogicalVolume (daemon_client run) (lv_target cfg n) no_common))"
  unfolding lv_target_def by (intro does_wrap does_deactivate)

lemma RemoveVolume_does: "does view (cfg_ThinPool cfg) (OpRemove n) (RemoveVolume (daemon_client run) cfg n)"
  unfolding lv_target_def RemoveVolume_def by (intro does_wrap does_remove)

lemma create_does:
  "does view (cfg_ThinPool cfg) (OpCreateThin n s tags act)
    (wrap what (CreateThinVolume (daemon_client run) (cfg_VolumeGroup cfg) (cfg_ThinPool cfg) n s (thin_opts tags act)))"
  by (intro does_wrap does_create)

lemma snapshot_does:
  "does view (cfg_ThinPool cfg) (OpSnapshot origin n tags perm)
    (wrap what (CreateThinSnapshot (daemon_client run) (cfg_VolumeGroup cfg) origin n (snap_opts tags perm)))"
  by (intro does_wrap does_snapshot)

lemma resize_does:
  "does view (cfg_ThinPool cfg) (OpResize n s)
    (wrap what (ResizeLogicalVolume (daemon_client run) (cfg_VolumeGroup cfg @ ''/'' @ n) (Bytes s) resize_opts))"
  by (intro does_wrap does_resize)

end

section \<open>Outcomes of the verbs\<close>

context node
begin

lemma CreateVolume_outcome:
  assumes "CreateVolume (daemon_client run) cfg vid n w = (r, w')" and wf: "wf_view (view w)"
  shows "view w' = view w \<and> is_err r \<or>
    view w vid = None \<and> wf_view (view w') \<and> (\<forall>m. m \<noteq> vid \<longrightarrow> view w' m = view w m) \<and>
    (\<exists>x. view w' vid = Some x \<and> n \<le> o_size x \<and> o_pool x = cfg_ThinPool cfg \<and> \<not> o_active x \<and> \<not> o_skip x \<and>
       o_data x = (\<lambda>_. 0) \<and>
       (obj_state x = Some StateReady \<or> is_err r \<and> obj_state x = Some StateCreating))"
proof -
  let ?c = "wrap (''creating volume '' @ vid) (CreateThinVolume (daemon_client run) (cfg_VolumeGroup cfg)
      (cfg_ThinPool cfg) vid n (thin_opts [StateTag StateCreating] (Some False)))"
  have born: "view w vid = None \<and> wf_view (view w1) \<and> (\<forall>m. m \<noteq> vid \<longrightarrow> view w1 m = view w m) \<and>
      (\<exists>x. view w1 vid = Some x \<and> n \<le> o_size x \<and> o_pool x = cfg_ThinPool cfg \<and> \<not> o_active x \<and> \<not> o_skip x \<and>
         o_data x = (\<lambda>_. 0) \<and> obj_state x = Some StateCreating)"
    if e: "lv_effect (cfg_ThinPool cfg) (OpCreateThin vid n [StateTag StateCreating] (Some False)) (view w) (view w1)" for w1
  proof -
    have "vstate (view w1) vid = Some StateCreating"
      using effect_create(2) [OF e wf] by simp
    then show ?thesis using e effect_create(1,4) [OF e wf]
      by (auto elim!: eff_createE simp: vstate_Some_iff)
  qed
  from assms(1) show ?thesis
    unfolding CreateVolume_def
  proof (cases rule: seqE_cases)
    case (err e)
    show ?thesis
      by (rule does_cases [OF create_does err(1)]) (use err(2) born in auto)
  next
    case (ok a w1)
    note b = born [OF does_ok [OF create_does ok(1)]]
    then have "can_move vid StateReady [] StateCreating [] (view w1)"
      by (auto simp: can_move_def vstate_Some_iff)
    with ok(2) show ?thesis
    proof (cases rule: retag_cases)
      case (none e)
      then show ?thesis using b by auto
    next
      case moved
      then show ?thesis using b movesD(1) [OF moved]
        by (auto elim!: movesE simp: retagged_def obj_state_def)
    qed
  qed
qed

end

text \<open>
  How a verb that starts by reading the volume refuses: the volume is missing, its state is not
  among the accepted ones, or the lookup failed.
\<close>

definition refusal :: "string \<Rightarrow> State set \<Rightarrow> lvview \<Rightarrow> err \<Rightarrow> bool" where
  "refusal vid states v e \<longleftrightarrow>
     (case vstate v vid of
        None \<Rightarrow> e = sentinel_err ErrNotFound vid
      | Some s \<Rightarrow> s \<notin> states \<and> e = WrongStateError vid s) \<or>
     (\<exists>l. e = Wrap (''looking up volume '' @ vid @ '': '') (OfLvm l) [])"

text \<open>The volumes in \<open>T\<close> moved to \<open>s\<close>, everything else stayed.\<close>

definition mark :: "string set \<Rightarrow> State \<Rightarrow> (string \<rightharpoonup> State) \<Rightarrow> (string \<rightharpoonup> State)" where
  "mark T s m = (\<lambda>n. if n \<in> T then Some s else m n)"

text \<open>How a delete refuses, without touching anything.\<close>

definition delete_refusal :: "string \<Rightarrow> ExportPins \<Rightarrow> bool \<Rightarrow> string \<Rightarrow> lvview \<Rightarrow> err \<Rightarrow> bool" where
  "delete_refusal pool pins force vid v e \<longleftrightarrow>
     refusal vid {StateReady, StateRetired} v e \<or>
     \<not> force \<and> snapshots_of pool v vid \<noteq> {} \<and> e = sentinel_err ErrHasSnapshots vid \<or>
     (\<exists>n \<in> snapshots_of pool v vid. Pinned pins n \<and> e = sentinel_err ErrExportInProgress n) \<or>
     (\<exists>l. e = Wrap (''listing snapshots of '' @ vid @ '': '') (Wrap ''scanning volumes: '' (OfLvm l) []) [])"

text \<open>A scan over \<open>ids\<close> marked some of them, and all of them unless it failed.\<close>

definition marked :: "string list \<Rightarrow> bool \<Rightarrow> lvview \<Rightarrow> lvview \<Rightarrow> bool" where
  "marked ids failed v v' \<longleftrightarrow>
     wf_view v' \<and> content v' = content v \<and> (\<forall>m. m \<notin> set ids \<longrightarrow> v' m = v m) \<and>
     (\<exists>T \<subseteq> set ids. vstate v' = mark T StateDeleting (vstate v) \<and> (failed \<or> T = set ids))"

lemma markedI:
  assumes "wf_view v'" and "content v' = content v" and "\<And>m. m \<notin> set ids \<Longrightarrow> v' m = v m"
    and "T \<subseteq> set ids" and "vstate v' = mark T StateDeleting (vstate v)" and "failed \<or> T = set ids"
  shows "marked ids failed v v'"
  using assms unfolding marked_def by blast

lemma mark_empty [simp]: "mark {} s m = m"
  by (simp add: mark_def)

lemma mark_insert [simp]: "mark (insert n T) s m = (mark T s m)(n \<mapsto> s)"
  by (auto simp: mark_def fun_eq_iff)

context node
begin

lemma read_first_cases:
  assumes "seqE (GetVolume (daemon_client run) cfg vid)
      (\<lambda>vol. if vol_State vol \<notin> states then fail (WrongStateError vid (vol_State vol)) else m vol) w = (r, w')"
    and "lv_name_ok vid"
  obtains (refused) e where "r = Inl e" and "view w' = view w" and "refusal vid states (view w) e"
  | (pass) x vol w1 where "view w vid = Some x" and "vol_shows x vol" and "vol_ID vol = vid"
      and "vol_State vol \<in> states" and "vstate (view w) vid = Some (vol_State vol)"
      and "view w1 = view w" and "m vol w1 = (r, w')"
  using assms(1)
proof (cases rule: seqE_cases)
  case (err e)
  from err(1) assms(2) show ?thesis
    by (cases rule: GetVolume_cases) (use err(2) refused in \<open>auto simp: refusal_def\<close>)
next
  case (ok vol w1)
  from ok(1) assms(2) show ?thesis
  proof (cases rule: GetVolume_cases)
    case (ok x vol')
    have st: "vstate (view w) vid = Some (vol_State vol)"
      using ok by (auto simp: vstate_def vol_shows_def)
    show ?thesis
      using pass refused ok st \<open>(if vol_State vol \<notin> states then _ else _) w1 = (r, w')\<close>
      by (cases "vol_State vol \<in> states") (auto simp: refusal_def)
  qed auto
qed

lemma CreateSnapshot_outcome:
  assumes "CreateSnapshot (daemon_client run) cfg origin vid w = (r, w')" and wf: "wf_view (view w)"
    and "lv_name_ok origin"
  shows "(\<exists>e. r = Inl e \<and> view w' = view w \<and> refusal origin {StateReady, StateAttached} (view w) e) \<or>
    (vstate (view w) origin = Some StateReady \<or> vstate (view w) origin = Some StateAttached) \<and>
    (is_err r \<and> view w' = view w \<or>
     view w vid = None \<and> wf_view (view w') \<and> (\<forall>m. m \<noteq> vid \<longrightarrow> view w' m = view w m) \<and>
     (\<exists>x y. view w origin = Some x \<and> view w' vid = Some y \<and> obj_state y = Some StateSnapshot \<and>
        obj_origin y = origin \<and> o_data y = o_data x \<and> o_size y = o_size x \<and> \<not> o_active y))"
  using assms(1) [unfolded CreateSnapshot_def] assms(3)
proof (cases rule: read_first_cases)
  case (pass x vol w1)
  let ?tags = "[StateTag StateSnapshot, originTagPrefix @ origin]"
  have fresh: "view w vid = None \<and> wf_view (view w') \<and> (\<forall>m. m \<noteq> vid \<longrightarrow> view w' m = view w m) \<and>
     (\<exists>x y. view w origin = Some x \<and> view w' vid = Some y \<and> obj_state y = Some StateSnapshot \<and>
        obj_origin y = origin \<and> o_data y = o_data x \<and> o_size y = o_size x \<and> \<not> o_active y)"
    if e: "lv_effect (cfg_ThinPool cfg) (OpSnapshot origin vid ?tags PermissionReadOnly) (view w) (view w')"
  proof -
    have st: "vstate (view w') vid = Some StateSnapshot" and "wf_view (view w')"
      using effect_snapshot(1,2) [OF e wf] by simp_all
    moreover obtain x y where y: "view w origin = Some x" "view w vid = None" "view w' = (view w)(vid \<mapsto> y)"
        "set (o_tags y) = set ?tags" "o_data y = o_data x" "o_size y = o_size x" "\<not> o_active y"
      using e by (auto elim!: eff_snapshotE)
    moreover have "tagValue (o_tags y) originTagPrefix = origin"
      using y(4) by (intro tagValue_eqI) auto
    moreover from this have "obj_origin y = origin"
      using st y(3) assms(3) by (simp add: obj_origin_def Let_def lv_name_ok_def)
    ultimately show ?thesis by auto
  qed
  from pass(7) have "is_err r \<and> view w' = view w \<or>
      lv_effect (cfg_ThinPool cfg) (OpSnapshot origin vid ?tags PermissionReadOnly) (view w) (view w')"
    unfolding pass(6) [symmetric] by (rule does_cases [OF snapshot_does]) auto
  then show ?thesis using fresh pass(4,5) by auto
qed auto

lemma DeleteSnapshot_outcome:
  assumes "DeleteSnapshot (daemon_client run) cfg pins vid w = (r, w')" and "lv_name_ok vid"
  shows "(\<exists>e. r = Inl e \<and> view w' = view w \<and>
      (refusal vid {StateSnapshot} (view w) e \<or>
       vstate (view w) vid = Some StateSnapshot \<and> Pinned pins vid \<and> e = sentinel_err ErrExportInProgress vid)) \<or>
    vstate (view w) vid = Some StateSnapshot \<and> \<not> Pinned pins vid \<and>
    (is_err r \<and> view w' = view w \<or> lv_effect (cfg_ThinPool cfg) (OpRemove vid) (view w) (view w'))"
  using assms(1) [unfolded DeleteSnapshot_def] assms(2)
proof (cases rule: read_first_cases)
  case (pass x vol w1)
  show ?thesis
  proof (cases "Pinned pins vid")
    case True
    then show ?thesis using pass by auto
  next
    case False
    then have "RemoveVolume (daemon_client run) cfg vid w1 = (r, w')" using pass(7) by simp
    then have "is_err r \<and> view w' = view w1 \<or>
        lv_effect (cfg_ThinPool cfg) (OpRemove vid) (view w1) (view w')"
      by (rule does_cases [OF RemoveVolume_does]) auto
    then show ?thesis using False pass by auto
  qed
qed auto

lemma Attach_outcome:
  assumes "Attach (daemon_client run) cfg vid w = (r, w')" and wf: "wf_view (view w)" and "lv_name_ok vid"
  shows "(\<exists>e. r = Inl e \<and> view w' = view w \<and> refusal vid {StateReady} (view w) e) \<or>
    vstate (view w) vid = Some StateReady \<and> wf_view (view w') \<and> content (view w') = content (view w) \<and>
    (\<forall>m. m \<noteq> vid \<longrightarrow> view w' m = view w m) \<and>
    (is_err r \<and> view w' = view w \<or>
     vstate (view w') = (vstate (view w))(vid \<mapsto> StateAttached) \<and>
       (is_err r \<or> (\<exists>x. view w' vid = Some x \<and> (o_active x \<or> o_skip x))))"
  using assms(1) [unfolded Attach_def] assms(3)
proof (cases rule: read_first_cases)
  case (pass x vol w1)
  have can: "can_move vid StateAttached [] StateReady [] (view w1)"
    using wf pass by (simp add: can_move_def)
  from pass(7) show ?thesis
  proof (cases rule: seqE_cases)
    case (err e)
    from err(1) can show ?thesis
    proof (cases rule: retag_cases)
      case moved
      then show ?thesis using movesD [OF moved] wf err pass by auto
    qed (use pass err wf in auto)
  next
    case (ok u w2)
    from ok(1) can have moved: "moves vid StateAttached [] StateReady [] None (view w1) (view w2)"
      by (cases rule: retag_cases) auto
    note m = movesD [OF moved, unfolded pass(6), OF wf]
    have quiet: "wf_view v' \<and> vstate v' = vstate (view w2) \<and> content v' = content (view w2) \<and>
        (\<forall>m. m \<noteq> vid \<longrightarrow> v' m = view w2 m) \<and> (\<exists>x. v' vid = Some x \<and> (o_active x \<or> o_skip x))"
      if e: "lv_effect (cfg_ThinPool cfg) (OpActivate vid False) (view w2) v'" for v'
      using e effect_active [OF disjI1 [OF e] m(1)] by (auto elim!: eff_activateE)
    from ok(2) show ?thesis
    proof (cases rule: seqE_cases)
      case (err e)
      show ?thesis
        by (rule does_cases [OF activate_does err(1)]) (use quiet m err(2) pass in auto)
    next
      case (ok u' w3)
      note q = quiet [OF does_ok [OF activate_does ok(1)]]
      from ok(2) show ?thesis
      proof (cases rule: seqE_cases)
        case (err e)
        from err(1) assms(3) have "view w' = view w3" by (cases rule: GetVolume_cases) auto
        then show ?thesis using q m err(2) pass by auto
      next
        case (ok vol' w4)
        from ok(1) assms(3) have "view w4 = view w3" by (cases rule: GetVolume_cases) auto
        then show ?thesis using q m ok(2) pass by auto
      qed
    qed
  qed
qed auto

text \<open>The path an attach returns is read after the activation.\<close>

lemma Attach_path:
  assumes "Attach (daemon_client run) cfg vid w = (Inr path, w')" and "lv_name_ok vid"
  shows "\<exists>x vol w1. view w' vid = Some x \<and> view w1 = view w' \<and> GetVolume (daemon_client run) cfg vid w1 = (Inr vol, w') \<and>
    vol_shows x vol \<and> path = vol_Path vol"
  using assms(1) [unfolded Attach_def] assms(2)
proof (cases rule: read_first_cases)
  case (pass x vol w1)
  then obtain w2 vol' where g: "GetVolume (daemon_client run) cfg vid w2 = (Inr vol', w')" and p: "path = vol_Path vol'"
    by (auto simp: ret_def elim!: seqE_cases)
  from g assms(2) obtain y where "view w2 vid = Some y" "vol_shows y vol'" "view w' = view w2"
    by (cases rule: GetVolume_cases) auto
  then show ?thesis using g p by auto
qed auto

lemma Detach_outcome:
  assumes "Detach (daemon_client run) cfg vid w = (r, w')" and wf: "wf_view (view w)" and "lv_name_ok vid"
  shows "(\<exists>e. r = Inl e \<and> view w' = view w \<and> refusal vid {StateAttached} (view w) e) \<or>
    vstate (view w) vid = Some StateAttached \<and> wf_view (view w') \<and> content (view w') = content (view w) \<and>
    (\<forall>m. m \<noteq> vid \<longrightarrow> view w' m = view w m) \<and>
    (is_err r \<and> vstate (view w') = vstate (view w) \<or>
     vstate (view w') = (vstate (view w))(vid \<mapsto> StateReady) \<and> (\<exists>x. view w' vid = Some x \<and> \<not> o_active x))"
  using assms(1) [unfolded Detach_def] assms(3)
proof (cases rule: read_first_cases)
  case (pass x vol w1)
  have quiet: "wf_view v' \<and> vstate v' = vstate (view w) \<and> content v' = content (view w) \<and>
      (\<forall>m. m \<noteq> vid \<longrightarrow> v' m = view w m) \<and> (\<exists>x. v' vid = Some x \<and> \<not> o_active x)"
    if e: "lv_effect (cfg_ThinPool cfg) (OpDeactivate vid) (view w1) v'" for v'
    using e effect_active [OF disjI2 [OF e [unfolded pass(6)]] wf] pass(6) by (auto elim!: eff_deactivateE)
  from pass(7) show ?thesis
  proof (cases rule: seqE_cases)
    case (err e)
    show ?thesis
      by (rule does_cases [OF deactivate_does err(1)]) (use quiet pass err(2) wf in auto)
  next
    case (ok u w2)
    note q = quiet [OF does_ok [OF deactivate_does ok(1)]]
    then have "can_move vid StateReady [] StateAttached [] (view w2)"
      using pass by (simp add: can_move_def)
    with ok(2) show ?thesis
    proof (cases rule: retag_cases)
      case (none e)
      then show ?thesis using q pass by auto
    next
      case moved
      then have "\<exists>x. view w' vid = Some x \<and> \<not> o_active x" using q by (auto elim!: movesE)
      then show ?thesis using q pass movesD [OF moved] by auto
    qed
  qed
qed auto

lemma ResizeVolume_outcome:
  assumes "ResizeVolume (daemon_client run) cfg vid n w = (r, w')" and wf: "wf_view (view w)" and "lv_name_ok vid"
  shows "(\<exists>e. r = Inl e \<and> view w' = view w \<and> refusal vid {StateReady, StateAttached} (view w) e) \<or>
    (\<exists>x s. view w vid = Some x \<and> obj_state x = Some s \<and> s \<in> {StateReady, StateAttached} \<and>
      (n \<le> o_size x \<and> view w' = view w \<and> (\<exists>e. r = Inl e \<and> err_Is e ErrShrink) \<or>
       o_size x < n \<and>
        (is_err r \<and> view w' = view w \<or>
         (\<exists>n'. n \<le> n' \<and> view w' = (view w)(vid \<mapsto> x\<lparr>o_size := n'\<rparr>)))))"
  using assms(1) [unfolded ResizeVolume_def] assms(3)
proof (cases rule: read_first_cases)
  case (pass x vol w1)
  have x: "obj_state x = Some (vol_State vol)" "vol_SizeBytes vol = o_size x"
    using pass(2) by (simp_all add: vol_shows_def)
  show ?thesis
  proof (cases "n \<le> o_size x")
    case True
    then show ?thesis using pass x by auto
  next
    case False
    then have "wrap (''resizing volume '' @ vid) (ResizeLogicalVolume (daemon_client run)
        (cfg_VolumeGroup cfg @ ''/'' @ vid) (Bytes n) resize_opts) w1 = (r, w')"
      using pass(7) x by simp
    then have "is_err r \<and> view w' = view w1 \<or> lv_effect (cfg_ThinPool cfg) (OpResize vid n) (view w1) (view w')"
      by (rule does_cases [OF resize_does]) auto
    then show ?thesis using False pass(1,4,6) x by (auto elim!: eff_resizeE)
  qed
qed auto

lemma mark_snapshots_outcome:
  assumes "mark_snapshots (daemon_client run) cfg ids w = (r, w')" and "wf_view (view w)" and "distinct ids"
    and "\<And>n. n \<in> set ids \<Longrightarrow> vstate (view w) n = Some StateSnapshot"
  shows "marked ids (is_err r) (view w) (view w')"
  using assms
proof (induction ids arbitrary: w)
  case Nil
  then show ?case by (auto simp: marked_def)
next
  case (Cons i ids)
  have can: "can_move i StateDeleting [] StateSnapshot [] (view w)"
    using Cons.prems by (simp add: can_move_def)
  from Cons.prems(1) [unfolded mark_snapshots.simps] show ?case
  proof (cases rule: seqE_cases)
    case (err e)
    from err(1) can show ?thesis
    proof (cases rule: retag_cases)
      case (none f)
      then show ?thesis using Cons.prems(2) err(2) by (intro markedI [of _ _ _ "{}"]) auto
    next
      case moved
      then show ?thesis
        using movesD [OF moved Cons.prems(2)] err(2) by (intro markedI [of _ _ _ "{i}"]) auto
    qed
  next
    case (ok u w1)
    from ok(1) can have moved: "moves i StateDeleting [] StateSnapshot [] None (view w) (view w1)"
      by (cases rule: retag_cases) auto
    note m = movesD [OF moved Cons.prems(2)]
    have "marked ids (is_err r) (view w1) (view w')"
      using Cons.prems m by (intro Cons.IH ok(2)) auto
    then obtain T where T: "T \<subseteq> set ids" "vstate (view w') = mark T StateDeleting (vstate (view w1))"
        "is_err r \<or> T = set ids" "wf_view (view w')" "content (view w') = content (view w1)"
        "\<And>m. m \<notin> set ids \<Longrightarrow> view w' m = view w1 m"
      unfolding marked_def by blast
    moreover have "mark T StateDeleting (vstate (view w1)) = mark (insert i T) StateDeleting (vstate (view w))"
      using m(2) by (auto simp: mark_def fun_eq_iff)
    ultimately show ?thesis
      using m(3,5) by (intro markedI [of _ _ _ "insert i T"]) auto
  qed
qed

lemma mark_all_outcome:
  assumes "seqE (mark_snapshots (daemon_client run) cfg ids) (\<lambda>_.
      seqE (wrap what (ChangeLogicalVolume (daemon_client run)
        (lv_target cfg vid) (retag_opts [StateTag StateDeleting] [StateTag s] None))) (\<lambda>_. ret ids)) w = (r, w')"
    and wf: "wf_view (view w)" and "distinct ids"
    and "\<And>n. n \<in> set ids \<Longrightarrow> vstate (view w) n = Some StateSnapshot"
    and "vstate (view w) vid = Some s" and "s \<in> {StateReady, StateRetired}" and "vid \<notin> set ids"
  shows "is_err r \<and> marked ids True (view w) (view w') \<or>
    (is_err r \<or> r = Inr ids) \<and> marked (vid # ids) False (view w) (view w')"
  using assms(1)
proof (cases rule: seqE_cases)
  case (err e)
  have "marked ids (is_err (Inl e :: err + unit)) (view w) (view w')"
    using err(1) wf assms(3,4) by (rule mark_snapshots_outcome)
  then show ?thesis using err(2) by simp
next
  case (ok u w1)
  have "marked ids (is_err (Inr u :: err + unit)) (view w) (view w1)"
    using ok(1) wf assms(3,4) by (rule mark_snapshots_outcome)
  then have m: "wf_view (view w1)" "content (view w1) = content (view w)"
      "\<And>m. m \<notin> set ids \<Longrightarrow> view w1 m = view w m"
      "vstate (view w1) = mark (set ids) StateDeleting (vstate (view w))"
    by (auto simp: marked_def)
  have can: "can_move vid StateDeleting [] s [] (view w1)"
    using m assms(5-7) by (auto simp: can_move_def mark_def)
  have all: "marked (vid # ids) False (view w) (view w')"
    if moved: "moves vid StateDeleting [] s [] None (view w1) (view w')"
    using movesD [OF moved m(1)] m
    by (intro markedI [of _ _ _ "insert vid (set ids)"]) auto
  have some: "marked ids True (view w) (view w')" if "view w' = view w1"
    using that m by (intro markedI [of _ _ _ "set ids"]) auto
  from ok(2) show ?thesis
  proof (cases rule: seqE_cases)
    case (err e)
    from err(1) can show ?thesis
      by (cases rule: retag_cases) (use err(2) all some in auto)
  next
    case (ok u' w2)
    from ok(1) can have "moves vid StateDeleting [] s [] None (view w1) (view w2)"
      by (cases rule: retag_cases) auto
    then show ?thesis using ok(2) all by auto
  qed
qed

lemma MarkDeleting_outcome:
  assumes "MarkDeleting (daemon_client run) cfg pins vid force w = (r, w')" and wf: "wf_view (view w)"
    and "lv_name_ok vid"
  shows "(\<exists>e. r = Inl e \<and> view w' = view w \<and> delete_refusal (cfg_ThinPool cfg) pins force vid (view w) e) \<or>
    (\<exists>ids. distinct ids \<and> set ids = snapshots_of (cfg_ThinPool cfg) (view w) vid \<and> vid \<notin> set ids \<and>
      (force \<or> ids = []) \<and> (\<forall>n \<in> set ids. \<not> Pinned pins n) \<and>
      (vstate (view w) vid = Some StateReady \<or> vstate (view w) vid = Some StateRetired) \<and>
      (is_err r \<and> marked ids True (view w) (view w') \<or>
       (is_err r \<or> r = Inr ids) \<and> marked (vid # ids) False (view w) (view w')))"
  using assms(1) [unfolded MarkDeleting_def] assms(3)
proof (cases rule: read_first_cases)
  case (refused e)
  then show ?thesis by (simp add: delete_refusal_def)
next
  case (pass x vol w1)
  from pass(7) show ?thesis
  proof (cases rule: seqE_cases)
    case (err e)
    from err(1) show ?thesis
      by (cases rule: SnapshotsOf_cases) (use err(2) pass(6) in \<open>auto simp: delete_refusal_def\<close>)
  next
    case (ok ids w2)
    from ok(1) have "view w2 = view w \<and> distinct ids \<and> set ids = snapshots_of (cfg_ThinPool cfg) (view w) vid"
      by (cases rule: SnapshotsOf_cases) (use pass(6) in auto)
    then have ids: "view w2 = view w" "distinct ids" "set ids = snapshots_of (cfg_ThinPool cfg) (view w) vid"
      by auto
    have snap: "vstate (view w) n = Some StateSnapshot" if "n \<in> set ids" for n
      using that ids(3) by (auto simp: snapshots_of_def vstate_def)
    then have fresh: "vid \<notin> set ids" using pass(4,5) by fastforce
    consider (has) "ids \<noteq> []" "\<not> force" | (pin) n where "force \<or> ids = []" "find (Pinned pins) ids = Some n"
      | (go) "force \<or> ids = []" "find (Pinned pins) ids = None"
      by (cases "find (Pinned pins) ids") auto
    then show ?thesis
    proof cases
      case has
      then have "r = Inl (sentinel_err ErrHasSnapshots vid)" "w' = w2" "snapshots_of (cfg_ThinPool cfg) (view w) vid \<noteq> {}"
        using ok(2) ids(3) by auto
      then show ?thesis using ids(1) has unfolding delete_refusal_def by blast
    next
      case pin
      then have "r = Inl (sentinel_err ErrExportInProgress n)" "w' = w2" using ok(2) by auto
      moreover have "n \<in> snapshots_of (cfg_ThinPool cfg) (view w) vid" "Pinned pins n"
        using pin(2) ids(3) by (auto simp: find_Some_iff)
      ultimately show ?thesis using ids(1) unfolding delete_refusal_def by blast
    next
      case go
      have "is_err r \<and> marked ids True (view w) (view w') \<or>
          (is_err r \<or> r = Inr ids) \<and> marked (vid # ids) False (view w) (view w')"
        unfolding ids(1) [symmetric]
        by (rule mark_all_outcome [where s = "vol_State vol"]) (use go ok(2) ids wf snap fresh pass(4,5) in auto)
      moreover have "\<forall>n \<in> set ids. \<not> Pinned pins n" using go(2) by (auto simp: find_None_iff)
      ultimately show ?thesis using go(1) ids(2,3) fresh pass(4,5) by auto
    qed
  qed
qed

end

end
