(* ===== verification/VolumeTheorems.thy ===== *)
theory VolumeTheorems
  imports VolumeVerbs
begin

text \<open>
  The reference node, and the theorems about the volume verbs.

  A reference node is the reference host of \<open>RefLvm\<close> under a small configuration, with a handful of
  volumes in different states. It satisfies the contract \<open>node\<close>; the theorems over the contract are
  applied to it, and the verbs can be run on it.
\<close>

section \<open>The reference node\<close>

definition demo_cfg :: Config where
  "demo_cfg =
     \<lparr>cfg_ListenAddress = '':7411'', cfg_LogLevel = LevelInfo, cfg_VolumeGroup = ''vg0'', cfg_ThinPool = ''thin'',
      cfg_CreatePool = False, cfg_PoolSize = \<lparr>ps_Bytes = 0, ps_Percent = 0\<rparr>, cfg_MaxInboundTransfers = 2,
      cfg_TransferGrace = 60000000000, cfg_TLS = \<lparr>tls_CAFile = [], tls_CertFile = [], tls_KeyFile = []\<rparr>,
      cfg_Insecure = True\<rparr>"

abbreviation demo_run :: "refhost runner" where
  "demo_run \<equiv> ref_run (cfg_VolumeGroup demo_cfg) (cfg_ThinPool demo_cfg)"

abbreviation demo_client :: "refhost Client" where
  "demo_client \<equiv> daemon_client demo_run"

definition demo_lv :: "string list \<Rightarrow> string \<Rightarrow> bool \<Rightarrow> lvobj" where
  "demo_lv tags origin act =
     \<lparr>o_tags = tags, o_pool = ''thin'', o_origin = origin, o_size = 4096, o_active = act,
      o_skip = (origin \<noteq> []), o_data = (\<lambda>i. of_nat i)\<rparr>"

definition demo_host :: refhost where
  "demo_host =
     [(''v'', demo_lv [StateTag StateReady] [] False),
      (''s'', demo_lv [StateTag StateSnapshot, originTagPrefix @ ''v''] ''v'' False),
      (''a'', demo_lv [StateTag StateAttached] [] True),
      (''p'', demo_lv [StateTag StatePushing, transferTagPrefix @ ''t1'', targetTagPrefix @ ''n2:7411''] [] True),
      (''q'', demo_lv [StateTag StateCommitting, transferTagPrefix @ ''t2'', targetTagPrefix @ ''n2:7411''] [] True),
      (''c'', demo_lv [StateTag StateCreating] [] False),
      (''x'', demo_lv [StateTag StateRollback, rollbackTargetTagPrefix @ ''y''] [] False)]"

lemma wf_view_map_of: "list_all (\<lambda>p. one_state (o_tags (snd p))) w \<Longrightarrow> wf_view (map_of w)"
  by (fastforce simp: wf_view_def list_all_iff dest: map_of_SomeD)

lemma demo_node: "node demo_run demo_cfg map_of"
  by unfold_locales (simp_all add: demo_cfg_def lv_name_ok_def name_char_def Let_def)

interpretation demo: node demo_run demo_cfg map_of
  by (rule demo_node)

lemmas tag_evals = StateTag_def stateTagPrefix_def originTagPrefix_def transferTagPrefix_def targetTagPrefix_def
  rollbackTargetTagPrefix_def

lemma demo_wf [simp]: "wf_view (map_of demo_host)"
  by (rule wf_view_map_of) (simp add: demo_host_def demo_lv_def one_state_def state_tag_def tag_evals)

lemma demo_names [simp]:
  "lv_name_ok ''v''" "lv_name_ok ''s''" "lv_name_ok ''a''" "lv_name_ok ''p''" "lv_name_ok ''q''"
  "lv_name_ok ''c''" "lv_name_ok ''x''" "lv_name_ok ''y''" "lv_name_ok ''n''" "lv_name_ok ''v+rb''" "lv_name_ok ''thin''"
  by (simp_all add: lv_name_ok_def name_char_def Let_def)

lemma demo_printable: "printable ''vg0'' demo_host"
  by (simp add: printable_def demo_host_def demo_lv_def tag_evals plain_raw_def raw_values_def raw_of_lv_def
      obj_lv_def plain_char_def list_item_def FormatUint_def digits_of.simps)

lemma demo_host_simps [simp]:
  "map_of demo_host ''v'' = Some (demo_lv [StateTag StateReady] [] False)"
  "map_of demo_host ''s'' = Some (demo_lv [StateTag StateSnapshot, originTagPrefix @ ''v''] ''v'' False)"
  "map_of demo_host ''a'' = Some (demo_lv [StateTag StateAttached] [] True)"
  "map_of demo_host ''p'' =
    Some (demo_lv [StateTag StatePushing, transferTagPrefix @ ''t1'', targetTagPrefix @ ''n2:7411''] [] True)"
  "map_of demo_host ''q'' =
    Some (demo_lv [StateTag StateCommitting, transferTagPrefix @ ''t2'', targetTagPrefix @ ''n2:7411''] [] True)"
  "map_of demo_host ''c'' = Some (demo_lv [StateTag StateCreating] [] False)"
  "map_of demo_host ''x'' = Some (demo_lv [StateTag StateRollback, rollbackTargetTagPrefix @ ''y''] [] False)"
  "map_of demo_host ''y'' = None" "map_of demo_host ''n'' = None" "map_of demo_host ''v+rb'' = None"
  by (simp_all add: demo_host_def)

lemma CutPrefix_StateTag [simp]: "CutPrefix (StateTag s) stateTagPrefix = Some (State_string s)"
  by (simp add: StateTag_def)

lemma demo_states [simp]:
  "vstate (map_of demo_host) ''v'' = Some StateReady" "vstate (map_of demo_host) ''s'' = Some StateSnapshot"
  "vstate (map_of demo_host) ''a'' = Some StateAttached" "vstate (map_of demo_host) ''p'' = Some StatePushing"
  "vstate (map_of demo_host) ''q'' = Some StateCommitting" "vstate (map_of demo_host) ''c'' = Some StateCreating"
  "vstate (map_of demo_host) ''x'' = Some StateRollback" "vstate (map_of demo_host) ''n'' = None"
  by (simp_all add: vstate_def obj_state_def demo_lv_def knownState_def knownStates_def)

text \<open>Listing on the reference host is a filter, so reading a volume evaluates.\<close>

lemma ref_list:
  assumes "printable vg w" and "vg \<noteq> []" and "sel \<noteq> []"
  shows "ListLogicalVolumes (daemon_client (ref_run vg pool)) (list_opts vg sel) w =
    (Inr (map (obj_lv vg) (filter (selected sel) w)), w)"
  by (simp add: list_command [OF assms(3,2)] seqE_def run_output_def mapErr_def client_run_def ref_run_lvs
      assms(1) ref_report)

text \<open>A command on the reference host is \<open>exec\<close>.\<close>

lemma run_unit_ref:
  assumes "exec pool op w = Some w'"
  shows "run_unit (daemon_client (ref_run vg pool)) what (argv vg pool op) w = (Inr (), w')"
  by (simp add: run_unit_def seqE_def mapErr_def client_run_def ref_run_argv assms del: argv.simps)

lemma demo_commands:
  "exec ''thin'' (OpChange n adds dels skip) w = Some w' \<Longrightarrow> adds @ dels \<noteq> [] \<Longrightarrow>
    ChangeLogicalVolume demo_client (lv_target demo_cfg n) (retag_opts adds dels skip) w = (Inr (), w')"
  "exec ''thin'' (OpCreateThin n s tags act) w = Some w' \<Longrightarrow>
    CreateThinVolume demo_client (cfg_VolumeGroup demo_cfg) (cfg_ThinPool demo_cfg) n s (thin_opts tags act) w = (Inr (), w')"
  "exec ''thin'' (OpSnapshot origin n tags perm) w = Some w' \<Longrightarrow>
    CreateThinSnapshot demo_client (cfg_VolumeGroup demo_cfg) origin n (snap_opts tags perm) w = (Inr (), w')"
  "exec ''thin'' (OpActivate n ignore) w = Some w' \<Longrightarrow>
    ActivateLogicalVolume demo_client (lv_target demo_cfg n) (activate_opts ignore) w = (Inr (), w')"
  "exec ''thin'' (OpDeactivate n) w = Some w' \<Longrightarrow>
    DeactivateLogicalVolume demo_client (lv_target demo_cfg n) no_common w = (Inr (), w')"
  "exec ''thin'' (OpRemove n) w = Some w' \<Longrightarrow>
    RemoveLogicalVolume demo_client (lv_target demo_cfg n) force_remove w = (Inr (), w')"
  "exec ''thin'' (OpRename a b) w = Some w' \<Longrightarrow>
    RenameLogicalVolume demo_client (cfg_VolumeGroup demo_cfg) a b no_common w = (Inr (), w')"
proof -
  have pool: "cfg_ThinPool demo_cfg = ''thin''" by (simp add: demo_cfg_def)
  note r = run_unit_ref [of "''thin''" _ _ _ "cfg_VolumeGroup demo_cfg"]
  show "exec ''thin'' (OpChange n adds dels skip) w = Some w' \<Longrightarrow> adds @ dels \<noteq> [] \<Longrightarrow>
    ChangeLogicalVolume demo_client (lv_target demo_cfg n) (retag_opts adds dels skip) w = (Inr (), w')"
    unfolding lv_target_def pool
    by (simp only: retag_command [where pool = "''thin''"] r not_False_eq_True)
  show "exec ''thin'' (OpCreateThin n s tags act) w = Some w' \<Longrightarrow>
    CreateThinVolume demo_client (cfg_VolumeGroup demo_cfg) (cfg_ThinPool demo_cfg) n s (thin_opts tags act) w = (Inr (), w')"
    unfolding pool by (simp only: create_command r)
  show "exec ''thin'' (OpSnapshot origin n tags perm) w = Some w' \<Longrightarrow>
    CreateThinSnapshot demo_client (cfg_VolumeGroup demo_cfg) origin n (snap_opts tags perm) w = (Inr (), w')"
    unfolding pool by (simp only: snapshot_command [where pool = "''thin''"] r)
  show "exec ''thin'' (OpActivate n ignore) w = Some w' \<Longrightarrow>
    ActivateLogicalVolume demo_client (lv_target demo_cfg n) (activate_opts ignore) w = (Inr (), w')"
    unfolding lv_target_def pool by (simp only: activate_command [where pool = "''thin''"] r)
  show "exec ''thin'' (OpDeactivate n) w = Some w' \<Longrightarrow>
    DeactivateLogicalVolume demo_client (lv_target demo_cfg n) no_common w = (Inr (), w')"
    unfolding lv_target_def pool by (simp only: deactivate_command [where pool = "''thin''"] r)
  show "exec ''thin'' (OpRemove n) w = Some w' \<Longrightarrow>
    RemoveLogicalVolume demo_client (lv_target demo_cfg n) force_remove w = (Inr (), w')"
    unfolding lv_target_def pool by (simp only: remove_command [where pool = "''thin''"] r)
  show "exec ''thin'' (OpRename a b) w = Some w' \<Longrightarrow>
    RenameLogicalVolume demo_client (cfg_VolumeGroup demo_cfg) a b no_common w = (Inr (), w')"
    unfolding pool by (simp only: rename_command [where pool = "''thin''"] r)
qed

lemma demo_GetVolume:
  assumes "printable ''vg0'' w" and "map_of w n = Some x" and "obj_state x \<noteq> None"
  shows "GetVolume demo_client demo_cfg n w = (Inr (volumeFromLV (obj_lv ''vg0'' (n, x))), w)"
proof -
  have dist: "distinct (map fst w)" using assms(1) by (simp add: printable_def)
  have mem: "(n, x) \<in> set w" using assms(2) by (rule map_of_SomeD)
  have uniq: "p = (n, x)" if "p \<in> set w" "fst p = n" for p
  proof (cases p)
    case (Pair m y)
    then have "map_of w n = Some y" using map_of_is_SomeI [OF dist, of n y] that by simp
    then show ?thesis using Pair assms(2) that(2) by simp
  qed
  have "distinct w" using dist by (simp add: distinct_map)
  moreover have "{p \<in> set w. fst p = n} = {(n, x)}"
  proof
    show "{p \<in> set w. fst p = n} \<subseteq> {(n, x)}" using uniq by blast
    show "{(n, x)} \<subseteq> {p \<in> set w. fst p = n}" using mem by simp
  qed
  ultimately have "filter (\<lambda>p. fst p = n) w = [(n, x)]"
    by (simp add: filter_eq_singleton_iff)
  moreover have "snd (stateOf (lv_Tags (obj_lv ''vg0'' (n, x))))"
    using assms(3) by (auto simp: obj_lv_def obj_state_def split: prod.splits if_splits)
  moreover have "ListLogicalVolumes demo_client (list_opts (cfg_VolumeGroup demo_cfg) (sel_name n)) w =
      (Inr (map (obj_lv ''vg0'') (filter (\<lambda>p. fst p = n) w)), w)"
    using ref_list [OF assms(1), of "sel_name n" "''thin''"]
    by (simp add: demo_cfg_def) (simp add: selected_name [abs_def])
  ultimately show ?thesis
    by (simp add: GetVolume_def wrap_def mapErr_def seqE_def)
qed

section \<open>Theorems\<close>

text \<open>
  Reading a volume: on success the record describes the logical volume of that name, whose state
  tag it decodes; a missing volume and a foreign logical volume are reported as not found; every
  other failure is a failed listing. Nothing changes on the host.
\<close>

theorem GetVolume_correct:
  assumes "node run cfg view" and "lv_name_ok vid"
    and "GetVolume (daemon_client run) cfg vid w = (r, w')"
  shows "view w' = view w \<and>
    (case r of
       Inr vol \<Rightarrow> vol_ID vol = vid \<and> (\<exists>x. view w vid = Some x \<and> vol_shows x vol)
     | Inl e \<Rightarrow> err_Is e ErrNotFound \<and> vstate (view w) vid = None \<or>
         (\<exists>l. e = Wrap (''looking up volume '' @ vid @ '': '') (OfLvm l) []))"
  by (rule node.GetVolume_cases [OF assms(1,3,2)]) (auto simp: sentinel_err_def)

theorem GetVolume_correct_witness:
  "lv_name_ok ''v'' \<and>
   (case fst (GetVolume demo_client demo_cfg ''v'' demo_host) of
      Inr vol \<Rightarrow> vol_ID vol = ''v'' \<and> (\<exists>x. map_of demo_host ''v'' = Some x \<and> vol_shows x vol)
    | Inl e \<Rightarrow> err_Is e ErrNotFound \<and> vstate (map_of demo_host) ''v'' = None \<or>
        (\<exists>l. e = Wrap (''looking up volume '' @ ''v'' @ '': '') (OfLvm l) []))"
  using GetVolume_correct [OF demo_node demo_names(1), of demo_host, OF prod.collapse [symmetric]]
  by (simp only: demo_names simp_thms)



text \<open>
  C20. Snapshots are taken of ready and attached volumes only, from the origin's current content; the
  snapshot is born inactive in state snapshot with the origin persisted as its lineage.
\<close>

theorem CreateSnapshot_correct:
  assumes "node run cfg view" and "wf_view (view w)" and "lv_name_ok origin"
    and "CreateSnapshot (daemon_client run) cfg origin vid w = (r, w')"
  shows "(\<exists>e. r = Inl e \<and> view w' = view w \<and> refusal origin {StateReady, StateAttached} (view w) e) \<or>
    (vstate (view w) origin = Some StateReady \<or> vstate (view w) origin = Some StateAttached) \<and>
    (is_err r \<and> view w' = view w \<or>
     view w vid = None \<and> wf_view (view w') \<and> (\<forall>m. m \<noteq> vid \<longrightarrow> view w' m = view w m) \<and>
     (\<exists>x y. view w origin = Some x \<and> view w' vid = Some y \<and> obj_state y = Some StateSnapshot \<and>
        obj_origin y = origin \<and> o_data y = o_data x \<and> o_size y = o_size x \<and> \<not> o_active y))"
  by (rule node.CreateSnapshot_outcome [OF assms(1,4,2,3)])

theorem CreateSnapshot_correct_witness:
  "let st = CreateSnapshot demo_client demo_cfg ''a'' ''n'' demo_host in
   fst st = Inr () \<and> (\<exists>y. map_of (snd st) ''n'' = Some y \<and> obj_origin y = ''a'' \<and> \<not> o_active y)"
proof -
  let ?st = "CreateSnapshot demo_client demo_cfg ''a'' ''n'' demo_host"
  have "GetVolume demo_client demo_cfg ''a'' demo_host =
      (Inr (volumeFromLV (obj_lv ''vg0'' (''a'', demo_lv [StateTag StateAttached] [] True))), demo_host)"
    by (rule demo_GetVolume [OF demo_printable]) (simp_all add: obj_state_def demo_lv_def)
  then have ok: "fst ?st = Inr ()"
    by (simp add: CreateSnapshot_def wrap_def mapErr_def seqE_def demo_commands volumeFromLV_def obj_lv_def
        demo_lv_def Let_def knownState_def knownStates_def)
  show ?thesis
    using CreateSnapshot_correct [OF demo_node demo_wf demo_names(3), of "''n''", OF prod.collapse [symmetric]] ok
    by (auto simp: Let_def)
qed

text \<open>
  Deleting a snapshot removes it only when it is in state snapshot and no export pins it; each
  refusal leaves the host as it was.
\<close>

theorem DeleteSnapshot_correct:
  assumes "node run cfg view" and "lv_name_ok vid"
    and "DeleteSnapshot (daemon_client run) cfg pins vid w = (r, w')"
  shows "(\<exists>e. r = Inl e \<and> view w' = view w \<and>
      (refusal vid {StateSnapshot} (view w) e \<or>
       vstate (view w) vid = Some StateSnapshot \<and> Pinned pins vid \<and> e = sentinel_err ErrExportInProgress vid)) \<or>
    vstate (view w) vid = Some StateSnapshot \<and> \<not> Pinned pins vid \<and>
    (is_err r \<and> view w' = view w \<or> lv_effect (cfg_ThinPool cfg) (OpRemove vid) (view w) (view w'))"
  by (rule node.DeleteSnapshot_outcome [OF assms(1,3,2)])

theorem DeleteSnapshot_correct_witness:
  "let st = DeleteSnapshot demo_client demo_cfg (snd (Acquire NewExportPins ''s'')) ''s'' demo_host in
   is_err (fst st) \<and> map_of (snd st) = map_of demo_host"
proof -
  have pin: "Pinned (snd (Acquire NewExportPins ''s'')) ''s''"
    by (simp add: Pinned_def Acquire_def NewExportPins_def pin_count_def Let_def)
  show ?thesis
    using DeleteSnapshot_correct [OF demo_node demo_names(2),
        of "snd (Acquire NewExportPins ''s'')" demo_host, OF prod.collapse [symmetric]] pin
    by (auto simp: Let_def)
qed

text \<open>
  C14. Attaching: only a ready volume is attached. Success means that it is in state attached, that it is active
  unless lvm is told to skip it at activation, and that the returned path is the one lvm reports for it after the
  activation. The state tag flips before the activation, so a failure leaves the volume ready or attached, never in
  between. No content and no other volume changes.
\<close>

theorem Attach_correct:
  assumes "node run cfg view" and "wf_view (view w)" and "lv_name_ok vid"
    and "Attach (daemon_client run) cfg vid w = (r, w')"
  shows "(\<exists>e. r = Inl e \<and> view w' = view w \<and> refusal vid {StateReady} (view w) e) \<or>
    vstate (view w) vid = Some StateReady \<and> wf_view (view w') \<and> content (view w') = content (view w) \<and>
    (\<forall>m. m \<noteq> vid \<longrightarrow> view w' m = view w m) \<and>
    (is_err r \<and> view w' = view w \<or>
     vstate (view w') = (vstate (view w))(vid \<mapsto> StateAttached) \<and>
       (is_err r \<or>
        (\<exists>x path vol w1. view w' vid = Some x \<and> (o_active x \<or> o_skip x) \<and> r = Inr path \<and>
           GetVolume (daemon_client run) cfg vid w1 = (Inr vol, w') \<and> view w1 = view w' \<and>
           vol_shows x vol \<and> path = vol_Path vol)))"
proof (cases r)
  case (Inl e)
  then show ?thesis using node.Attach_outcome [OF assms(1,4,2,3)] by auto
next
  case (Inr path)
  obtain x vol w1 where "view w' vid = Some x" "view w1 = view w'" "GetVolume (daemon_client run) cfg vid w1 = (Inr vol, w')"
    "vol_shows x vol" "path = vol_Path vol"
    using node.Attach_path [OF assms(1,4) [unfolded Inr] assms(3)] by blast
  then show ?thesis using node.Attach_outcome [OF assms(1,4,2,3)] Inr by fastforce
qed

definition demo_attached :: refhost where
  "demo_attached = AList.update ''v'' (demo_lv [StateTag StateAttached] [] True)
     (AList.update ''v'' (demo_lv [StateTag StateAttached] [] False) demo_host)"

lemma demo_Attach: "Attach demo_client demo_cfg ''v'' demo_host = (Inr ''/dev/vg0/v'', demo_attached)"
proof -
  let ?w1 = "AList.update ''v'' (demo_lv [StateTag StateAttached] [] False) demo_host"
  have g: "GetVolume demo_client demo_cfg ''v'' demo_host =
      (Inr (volumeFromLV (obj_lv ''vg0'' (''v'', demo_lv [StateTag StateReady] [] False))), demo_host)"
    by (rule demo_GetVolume [OF demo_printable]) (simp_all add: obj_state_def demo_lv_def)
  have c: "ChangeLogicalVolume demo_client (lv_target demo_cfg ''v'') (retag_opts [StateTag StateAttached] [StateTag StateReady] None)
      demo_host = (Inr (), ?w1)"
    by (rule demo_commands(1)) (simp_all add: ref_tags_def demo_lv_def tag_evals)
  have a: "ActivateLogicalVolume demo_client (lv_target demo_cfg ''v'') (activate_opts False) ?w1 = (Inr (), demo_attached)"
    by (rule demo_commands(4)) (simp add: demo_attached_def AList.update_conv' demo_lv_def)
  have "printable ''vg0'' demo_attached"
    by (simp add: printable_def demo_attached_def demo_host_def demo_lv_def tag_evals plain_raw_def raw_values_def raw_of_lv_def
        obj_lv_def plain_char_def list_item_def FormatUint_def digits_of.simps)
  then have "GetVolume demo_client demo_cfg ''v'' demo_attached =
      (Inr (volumeFromLV (obj_lv ''vg0'' (''v'', demo_lv [StateTag StateAttached] [] True))), demo_attached)"
    by (rule demo_GetVolume) (simp_all add: demo_attached_def AList.update_conv' obj_state_def demo_lv_def)
  with g c a show ?thesis
    by (simp add: Attach_def wrap_def mapErr_def seqE_def volumeFromLV_def obj_lv_def demo_lv_def Let_def knownState_def
        knownStates_def ret_def)
qed

theorem Attach_correct_witness:
  "Attach demo_client demo_cfg ''v'' demo_host = (Inr ''/dev/vg0/v'', demo_attached) \<and>
   vstate (map_of demo_attached) ''v'' = Some StateAttached \<and>
   (\<exists>x. map_of demo_attached ''v'' = Some x \<and> o_active x) \<and>
   (\<exists>vol w1. GetVolume demo_client demo_cfg ''v'' w1 = (Inr vol, demo_attached) \<and> vol_Path vol = ''/dev/vg0/v'')"
proof -
  have "\<exists>x. map_of demo_attached ''v'' = Some x \<and> o_active x" by (simp add: demo_attached_def AList.update_conv' demo_lv_def)
  then show ?thesis using Attach_correct [OF demo_node demo_wf demo_names(1) demo_Attach] demo_Attach by auto
qed

text \<open>
  C15. Detaching: the device is released first, so a volume that reads as ready is inactive; a failure
  leaves the volume attached or ready. No content and no other volume changes.
\<close>

theorem Detach_correct:
  assumes "node run cfg view" and "wf_view (view w)" and "lv_name_ok vid"
    and "Detach (daemon_client run) cfg vid w = (r, w')"
  shows "(\<exists>e. r = Inl e \<and> view w' = view w \<and> refusal vid {StateAttached} (view w) e) \<or>
    vstate (view w) vid = Some StateAttached \<and> wf_view (view w') \<and> content (view w') = content (view w) \<and>
    (\<forall>m. m \<noteq> vid \<longrightarrow> view w' m = view w m) \<and>
    (is_err r \<and> vstate (view w') = vstate (view w) \<or>
     vstate (view w') = (vstate (view w))(vid \<mapsto> StateReady) \<and> (\<exists>x. view w' vid = Some x \<and> \<not> o_active x))"
  by (rule node.Detach_outcome [OF assms(1,4,2,3)])

theorem Detach_correct_witness:
  "let st = Detach demo_client demo_cfg ''a'' demo_host in
   fst st = Inr () \<and> vstate (map_of (snd st)) ''a'' = Some StateReady"
proof -
  let ?st = "Detach demo_client demo_cfg ''a'' demo_host"
  have "GetVolume demo_client demo_cfg ''a'' demo_host =
      (Inr (volumeFromLV (obj_lv ''vg0'' (''a'', demo_lv [StateTag StateAttached] [] True))), demo_host)"
    by (rule demo_GetVolume [OF demo_printable]) (simp_all add: obj_state_def demo_lv_def)
  then have ok: "fst ?st = Inr ()"
    by (simp add: Detach_def wrap_def mapErr_def seqE_def demo_commands volumeFromLV_def obj_lv_def
        demo_lv_def Let_def knownState_def knownStates_def AList.update_conv')
  show ?thesis
    using Detach_correct [OF demo_node demo_wf demo_names(3), OF prod.collapse [symmetric]] ok
    by (auto simp: Let_def refusal_def)
qed

text \<open>
  Resizing grows only: a size that does not exceed the current one is refused as a shrink, and a
  successful resize leaves at least the requested size and changes nothing else.
\<close>

theorem ResizeVolume_correct:
  assumes "node run cfg view" and "wf_view (view w)" and "lv_name_ok vid"
    and "ResizeVolume (daemon_client run) cfg vid n w = (r, w')"
  shows "(\<exists>e. r = Inl e \<and> view w' = view w \<and> refusal vid {StateReady, StateAttached} (view w) e) \<or>
    (\<exists>x s. view w vid = Some x \<and> obj_state x = Some s \<and> s \<in> {StateReady, StateAttached} \<and>
      (n \<le> o_size x \<and> view w' = view w \<and> (\<exists>e. r = Inl e \<and> err_Is e ErrShrink) \<or>
       o_size x < n \<and>
        (is_err r \<and> view w' = view w \<or>
         (\<exists>n'. n \<le> n' \<and> view w' = (view w)(vid \<mapsto> x\<lparr>o_size := n'\<rparr>)))))"
  by (rule node.ResizeVolume_outcome [OF assms(1,4,2,3)])

theorem ResizeVolume_correct_witness:
  "let st = ResizeVolume demo_client demo_cfg ''v'' 4096 demo_host in
   is_err (fst st) \<and> map_of (snd st) = map_of demo_host"
  using ResizeVolume_correct [OF demo_node demo_wf demo_names(1), of 4096, OF prod.collapse [symmetric]]
  by (auto simp: Let_def demo_lv_def)

text \<open>
  C16. Deleting a volume: a refusal (wrong state, snapshots without force, a pinned snapshot) leaves the
  host as it was. Otherwise only the volume and its snapshots are marked: a failure leaves some of the
  snapshots marked and the volume not, and once the volume is marked all its snapshots are, so that
  recovery removes them together. A success answers exactly those snapshots.
\<close>

theorem MarkDeleting_correct:
  assumes "node run cfg view" and "wf_view (view w)" and "lv_name_ok vid"
    and "MarkDeleting (daemon_client run) cfg pins vid force w = (r, w')"
  shows "(\<exists>e. r = Inl e \<and> view w' = view w \<and> delete_refusal (cfg_ThinPool cfg) pins force vid (view w) e) \<or>
    (\<exists>ids. distinct ids \<and> set ids = snapshots_of (cfg_ThinPool cfg) (view w) vid \<and> vid \<notin> set ids \<and>
      (force \<or> ids = []) \<and> (\<forall>n \<in> set ids. \<not> Pinned pins n) \<and>
      (vstate (view w) vid = Some StateReady \<or> vstate (view w) vid = Some StateRetired) \<and>
      (is_err r \<and> marked ids True (view w) (view w') \<or>
       (is_err r \<or> r = Inr ids) \<and> marked (vid # ids) False (view w) (view w')))"
  by (rule node.MarkDeleting_outcome [OF assms(1,4,2,3)])

theorem MarkDeleting_correct_witness:
  "let st = MarkDeleting demo_client demo_cfg NewExportPins ''a'' True demo_host in
   is_err (fst st) \<and> map_of (snd st) = map_of demo_host"
  using MarkDeleting_correct [OF demo_node demo_wf demo_names(3), of NewExportPins True, OF prod.collapse [symmetric]]
  by (auto simp: Let_def)

text \<open>
  A state survives the tag it is persisted as: reading the tags of a volume that carries the
  state tag of \<open>s\<close> and no other state tag yields \<open>s\<close>, whatever other tags surround it.
\<close>

theorem stateOf_StateTag:
  assumes "StateTag s \<in> set tags" and "\<forall>t \<in> set tags. prefix stateTagPrefix t \<longrightarrow> t = StateTag s"
  shows "stateOf tags = (s, True)"
proof (rule stateOf_eqI)
  show "one_state tags" using assms(2) by (auto simp: one_state_def state_tag_def)
qed (rule assms(1))

theorem stateOf_StateTag_witness:
  "stateOf [originTagPrefix @ ''v'', StateTag StateSnapshot] = (StateSnapshot, True)"
  by (rule stateOf_StateTag) (simp_all add: tag_evals)

end
