(* ===== verification/Pushes.thy ===== *)
theory Pushes
  imports VolumeTheorems
begin

text \<open>
  The source side of a push: \<^verbatim>\<open>internal/storage/pushes.go\<close>. A push persists its transfer id and target as
  tags beside the state tag, so that a restarted node can settle it. The lemmas give the outcome of
  each step, including the exact tags a finished or aborted push leaves.
\<close>

definition MarkPushing ::
  "'w Client \<Rightarrow> Config \<Rightarrow> string \<Rightarrow> string \<Rightarrow> string \<Rightarrow> ('w, err, unit) go" where
  "MarkPushing c cfg vid transferID target =
     seqE (GetVolume c cfg vid) (\<lambda>volume.
       if vol_State volume \<notin> {StateReady} then fail (WrongStateError vid (vol_State volume))
       else wrap (''marking volume '' @ vid @ '' pushing'')
         (ChangeLogicalVolume c (lv_target cfg vid)
            (retag_opts [StateTag StatePushing, transferTagPrefix @ transferID, targetTagPrefix @ target]
               [StateTag StateReady] None)))"

definition MarkCommitting :: "'w Client \<Rightarrow> Config \<Rightarrow> string \<Rightarrow> ('w, err, unit) go" where
  "MarkCommitting c cfg vid =
     seqE (GetVolume c cfg vid) (\<lambda>volume.
       if vol_State volume \<notin> {StatePushing} then fail (WrongStateError vid (vol_State volume))
       else wrap (''marking volume '' @ vid @ '' committing'')
         (ChangeLogicalVolume c (lv_target cfg vid)
            (retag_opts [StateTag StateCommitting] [StateTag StatePushing] None)))"

definition deactivatePushed :: "'w Client \<Rightarrow> Config \<Rightarrow> Volume \<Rightarrow> ('w, err, unit) go" where
  "deactivatePushed c cfg volume =
     (if \<not> vol_Active volume then ret ()
      else wrap (''deactivating pushed volume '' @ vol_ID volume)
        (DeactivateLogicalVolume c (lv_target cfg (vol_ID volume)) no_common))"

definition RetirePushed :: "'w Client \<Rightarrow> Config \<Rightarrow> string \<Rightarrow> ('w, err, unit) go" where
  "RetirePushed c cfg vid =
     seqE (GetVolume c cfg vid) (\<lambda>volume.
       if vol_State volume \<notin> {StateCommitting} then fail (WrongStateError vid (vol_State volume))
       else seqE (deactivatePushed c cfg volume) (\<lambda>_.
         wrap (''retiring volume '' @ vid)
           (ChangeLogicalVolume c (lv_target cfg vid)
              (retag_opts [StateTag StateRetired]
                 [StateTag StateCommitting, transferTagPrefix @ vol_Transfer volume,
                  targetTagPrefix @ vol_PushTarget volume] None))))"

definition AbortPush :: "'w Client \<Rightarrow> Config \<Rightarrow> string \<Rightarrow> ('w, err, unit) go" where
  "AbortPush c cfg vid =
     seqE (GetVolume c cfg vid) (\<lambda>volume.
       if vol_State volume \<notin> {StatePushing, StateCommitting} then fail (WrongStateError vid (vol_State volume))
       else seqE (deactivatePushed c cfg volume) (\<lambda>_.
         wrap (''aborting push of volume '' @ vid)
           (ChangeLogicalVolume c (lv_target cfg vid)
              (retag_opts [StateTag StateReady]
                 [StateTag (vol_State volume), transferTagPrefix @ vol_Transfer volume,
                  targetTagPrefix @ vol_PushTarget volume] None))))"

section \<open>Outcomes\<close>

text \<open>The tags that belong to the push a volume is part of.\<close>

definition push_tags :: "lvobj \<Rightarrow> string list" where
  "push_tags x =
     [transferTagPrefix @ tagValue (o_tags x) transferTagPrefix, targetTagPrefix @ tagValue (o_tags x) targetTagPrefix]"

text \<open>A push step that only moves the tags.\<close>

definition push_step :: "string \<Rightarrow> State \<Rightarrow> string list \<Rightarrow> State \<Rightarrow> bool \<Rightarrow> lvview \<Rightarrow> lvview \<Rightarrow> bool" where
  "push_step vid s' adds s failed v v' \<longleftrightarrow> vstate v vid = Some s \<and> (failed \<and> v' = v \<or> moves vid s' adds s [] None v v')"

text \<open>
  A settled push: the volume is inactive, in its new state, without its push tags, and otherwise
  unchanged. A failed attempt leaves it in its old state, perhaps inactive, or settled.
\<close>

definition settled :: "string \<Rightarrow> State \<Rightarrow> State \<Rightarrow> lvview \<Rightarrow> lvview \<Rightarrow> bool" where
  "settled vid s' s v v' \<longleftrightarrow>
     (\<exists>x ts. v vid = Some x \<and> obj_state x = Some s \<and> retagged s' [] s (push_tags x) (o_tags x) ts \<and>
        v' = v(vid \<mapsto> x\<lparr>o_active := False, o_tags := ts\<rparr>))"

definition unsettled :: "string \<Rightarrow> State \<Rightarrow> lvview \<Rightarrow> lvview \<Rightarrow> bool" where
  "unsettled vid s v v' \<longleftrightarrow>
     (\<exists>x b. v vid = Some x \<and> obj_state x = Some s \<and> v' = v(vid \<mapsto> x\<lparr>o_active := b\<rparr>))"

lemma settledD:
  assumes "settled vid s' s v v'" and "wf_view v"
  shows "wf_view v'" and "vstate v' = (vstate v)(vid \<mapsto> s')" and "content v' = content v"
    and "vstate v vid = Some s" and "\<And>m. m \<noteq> vid \<Longrightarrow> v' m = v m"
proof -
  from assms(1) obtain x ts where x: "v vid = Some x" "obj_state x = Some s" and ts: "one_state ts" "stateOf ts = (s', True)"
    and v': "v' = v(vid \<mapsto> x\<lparr>o_active := False, o_tags := ts\<rparr>)"
    unfolding settled_def retagged_def by blast
  show "wf_view v'" unfolding v' using assms(2) ts(1) by (simp add: wf_view_upd)
  show "vstate v' = (vstate v)(vid \<mapsto> s')" unfolding v' using ts(2) by (simp add: obj_state_def)
  show "content v' = content v" unfolding v' using x(1) by (auto simp: content_def fun_eq_iff)
  show "vstate v vid = Some s" using x by (simp add: vstate_def)
  show "\<And>m. m \<noteq> vid \<Longrightarrow> v' m = v m" using v' by simp
qed

lemma active_same:
  assumes "v n = Some x" and "wf_view v"
  shows "wf_view (v(n \<mapsto> x\<lparr>o_active := b\<rparr>))" and "vstate (v(n \<mapsto> x\<lparr>o_active := b\<rparr>)) = vstate v"
    and "content (v(n \<mapsto> x\<lparr>o_active := b\<rparr>)) = content v"
proof -
  have "one_state (o_tags x)" using assms by (rule wf_viewD [rotated])
  then show "wf_view (v(n \<mapsto> x\<lparr>o_active := b\<rparr>))" using assms(2) by (simp add: wf_view_upd)
  have "obj_state (x\<lparr>o_active := b\<rparr>) = vstate v n" using assms(1) by (simp add: vstate_def obj_state_def)
  then show "vstate (v(n \<mapsto> x\<lparr>o_active := b\<rparr>)) = vstate v" by (simp add: fun_upd_idem)
  show "content (v(n \<mapsto> x\<lparr>o_active := b\<rparr>)) = content v"
    using assms(1) by (auto simp: content_def fun_eq_iff)
qed

lemma unsettledD:
  assumes "unsettled vid s v v'" and "wf_view v"
  shows "wf_view v'" and "vstate v' = vstate v" and "content v' = content v"
    and "vstate v vid = Some s" and "\<And>m. m \<noteq> vid \<Longrightarrow> v' m = v m"
proof -
  from assms(1) obtain x b where x: "v vid = Some x" "obj_state x = Some s"
    and v': "v' = v(vid \<mapsto> x\<lparr>o_active := b\<rparr>)"
    unfolding unsettled_def by blast
  show "wf_view v'" "vstate v' = vstate v" "content v' = content v"
    unfolding v' using active_same [OF x(1) assms(2)] by auto
  show "vstate v vid = Some s" using x by (simp add: vstate_def)
  show "\<And>m. m \<noteq> vid \<Longrightarrow> v' m = v m" using v' by simp
qed

context node
begin

lemma MarkPushing_outcome:
  assumes "MarkPushing (daemon_client run) cfg vid tid target w = (r, w')" and wf: "wf_view (view w)"
    and "lv_name_ok vid"
  shows "(\<exists>e. r = Inl e \<and> view w' = view w \<and> refusal vid {StateReady} (view w) e) \<or>
    push_step vid StatePushing [transferTagPrefix @ tid, targetTagPrefix @ target] StateReady (is_err r) (view w) (view w')"
  using assms(1) [unfolded MarkPushing_def] assms(3)
proof (cases rule: read_first_cases)
  case (pass x vol w1)
  have "can_move vid StatePushing [transferTagPrefix @ tid, targetTagPrefix @ target] StateReady [] (view w1)"
    using wf pass by (simp add: can_move_def)
  with pass(7) show ?thesis
    by (cases rule: retag_cases) (use pass in \<open>auto simp: push_step_def\<close>)
qed auto

lemma MarkCommitting_outcome:
  assumes "MarkCommitting (daemon_client run) cfg vid w = (r, w')" and wf: "wf_view (view w)" and "lv_name_ok vid"
  shows "(\<exists>e. r = Inl e \<and> view w' = view w \<and> refusal vid {StatePushing} (view w) e) \<or>
    push_step vid StateCommitting [] StatePushing (is_err r) (view w) (view w')"
  using assms(1) [unfolded MarkCommitting_def] assms(3)
proof (cases rule: read_first_cases)
  case (pass x vol w1)
  have "can_move vid StateCommitting [] StatePushing [] (view w1)"
    using wf pass by (simp add: can_move_def)
  with pass(7) show ?thesis
    by (cases rule: retag_cases) (use pass in \<open>auto simp: push_step_def\<close>)
qed auto

lemma deactivatePushed_cases:
  assumes "deactivatePushed (daemon_client run) cfg vol w = (r, w')" and "view w (vol_ID vol) = Some x"
    and "vol_shows x vol"
  obtains (ok) "r = Inr ()" and "view w' = (view w)(vol_ID vol \<mapsto> x\<lparr>o_active := False\<rparr>)"
  | (fault) e b where "r = Inl e" and "view w' = (view w)(vol_ID vol \<mapsto> x\<lparr>o_active := b\<rparr>)"
proof (cases "vol_Active vol")
  case False
  then have "x\<lparr>o_active := False\<rparr> = x" using assms(3) by (simp add: vol_shows_def)
  then have "view w = (view w)(vol_ID vol \<mapsto> x\<lparr>o_active := False\<rparr>)" using assms(2) by auto
  then show ?thesis using assms(1) False ok by (simp add: deactivatePushed_def)
next
  case True
  have same: "(view w)(vol_ID vol \<mapsto> x\<lparr>o_active := o_active x\<rparr>) = view w" using assms(2) by auto
  have d: "wrap (''deactivating pushed volume '' @ vol_ID vol)
      (DeactivateLogicalVolume (daemon_client run) (lv_target cfg (vol_ID vol)) no_common) w = (r, w')"
    using assms(1) True by (simp add: deactivatePushed_def)
  show ?thesis
  proof (rule does_cases [OF deactivate_does d])
    fix e
    assume "r = Inl e" and "view w' = view w"
    then show ?thesis using fault [of e "o_active x"] same by simp
  next
    assume "lv_effect (cfg_ThinPool cfg) (OpDeactivate (vol_ID vol)) (view w) (view w')"
    then have "view w' = (view w)(vol_ID vol \<mapsto> x\<lparr>o_active := False\<rparr>)"
      using assms(2) by (auto elim!: eff_deactivateE)
    then show ?thesis using ok fault by (cases r) auto
  qed
qed

lemma settle_outcome:
  assumes "seqE (deactivatePushed (daemon_client run) cfg vol) (\<lambda>_.
      wrap what (ChangeLogicalVolume (daemon_client run) (lv_target cfg vid)
        (retag_opts [StateTag s'] [StateTag s, transferTagPrefix @ vol_Transfer vol,
           targetTagPrefix @ vol_PushTarget vol] None))) w = (r, w')"
    and wf: "wf_view (view w)" and x: "view w vid = Some x" "vol_shows x vol" "vol_ID vol = vid"
    and s: "vol_State vol = s" "s \<noteq> StateUnknown" "s \<noteq> s'"
  shows "is_err r \<and> unsettled vid s (view w) (view w') \<or> settled vid s' s (view w) (view w')"
  using assms(1)
proof (cases rule: seqE_cases)
  case (err e)
  from err(1) x(1) [folded x(3)] x(2) show ?thesis
    by (cases rule: deactivatePushed_cases) (use err(2) x s in \<open>auto simp: unsettled_def vol_shows_def\<close>)
next
  case (ok u w1)
  let ?x = "x\<lparr>o_active := False\<rparr>"
  have w1: "view w1 = (view w)(vid \<mapsto> ?x)"
    using ok(1) x(1) [folded x(3)] x(2) by (cases rule: deactivatePushed_cases) (use x(3) in auto)
  have x_s: "obj_state x = Some s" using x(2) s(1) by (simp add: vol_shows_def)
  then have st: "obj_state ?x = Some s" by (simp add: obj_state_def)
  have tags: "[transferTagPrefix @ vol_Transfer vol, targetTagPrefix @ vol_PushTarget vol] = push_tags x"
    using x(2) by (simp add: vol_shows_def push_tags_def)
  have "can_move vid s' [] s [transferTagPrefix @ vol_Transfer vol, targetTagPrefix @ vol_PushTarget vol] (view w1)"
    using wf w1 st s x(1) by (auto simp: can_move_def wf_view_def)
  with ok(2) show ?thesis
  proof (cases rule: retag_cases)
    case (none e)
    then show ?thesis using w1 x(1) x_s by (auto simp: unsettled_def)
  next
    case moved
    then obtain ts where "retagged s' [] s (push_tags x) (o_tags x) ts"
      and "view w' = (view w)(vid \<mapsto> x\<lparr>o_active := False, o_tags := ts\<rparr>)"
      unfolding tags using w1 by (auto elim!: movesE)
    then show ?thesis using x(1) x_s unfolding settled_def by blast
  qed
qed

lemma RetirePushed_outcome:
  assumes "RetirePushed (daemon_client run) cfg vid w = (r, w')" and wf: "wf_view (view w)" and "lv_name_ok vid"
  shows "(\<exists>e. r = Inl e \<and> view w' = view w \<and> refusal vid {StateCommitting} (view w) e) \<or>
    is_err r \<and> unsettled vid StateCommitting (view w) (view w') \<or>
    settled vid StateRetired StateCommitting (view w) (view w')"
  using assms(1) [unfolded RetirePushed_def] assms(3)
proof (cases rule: read_first_cases)
  case (pass x vol w1)
  have "is_err r \<and> unsettled vid StateCommitting (view w1) (view w') \<or>
      settled vid StateRetired StateCommitting (view w1) (view w')"
    by (rule settle_outcome [OF pass(7)]) (use pass wf in auto)
  then show ?thesis using pass(6) by simp
qed auto

lemma AbortPush_outcome:
  assumes "AbortPush (daemon_client run) cfg vid w = (r, w')" and wf: "wf_view (view w)" and "lv_name_ok vid"
  shows "(\<exists>e. r = Inl e \<and> view w' = view w \<and> refusal vid {StatePushing, StateCommitting} (view w) e) \<or>
    (\<exists>s \<in> {StatePushing, StateCommitting}.
       is_err r \<and> unsettled vid s (view w) (view w') \<or> settled vid StateReady s (view w) (view w'))"
  using assms(1) [unfolded AbortPush_def] assms(3)
proof (cases rule: read_first_cases)
  case (pass x vol w1)
  have "is_err r \<and> unsettled vid (vol_State vol) (view w1) (view w') \<or>
      settled vid StateReady (vol_State vol) (view w1) (view w')"
    by (rule settle_outcome [OF pass(7)]) (use pass wf in auto)
  then show ?thesis using pass(4,6) by auto
qed auto

end

text \<open>A push that is marked and then aborted leaves the volume with the tags it had.\<close>

lemma push_abort_tags:
  assumes "v vid = Some x" and wf: "wf_view v" and "obj_state x = Some StateReady"
    and none: "\<And>t. t \<in> set (o_tags x) \<Longrightarrow> \<not> prefix transferTagPrefix t \<and> \<not> prefix targetTagPrefix t"
    and m: "moves vid StatePushing [transferTagPrefix @ tid, targetTagPrefix @ target] StateReady [] None v v1"
    and s: "settled vid StateReady StatePushing v1 v2"
  shows "\<exists>ts. set ts = set (o_tags x) \<and> v2 = v(vid \<mapsto> x\<lparr>o_active := False, o_tags := ts\<rparr>)"
proof -
  from m assms(1) obtain ts1 where ts1: "retagged StatePushing [transferTagPrefix @ tid, targetTagPrefix @ target]
      StateReady [] (o_tags x) ts1" and v1: "v1 = v(vid \<mapsto> x\<lparr>o_tags := ts1\<rparr>)"
    by (auto elim!: movesE)
  have set1: "set ts1 = (set (o_tags x) \<union> {StateTag StatePushing, transferTagPrefix @ tid, targetTagPrefix @ target}) -
      {StateTag StateReady}"
    using ts1 by (simp add: retagged_def)
  have "transferTagPrefix @ tid \<noteq> StateTag StateReady" "targetTagPrefix @ target \<noteq> StateTag StateReady"
    by (metis plain_tags(2) state_tag_StateTag, metis plain_tags(3) state_tag_StateTag)
  then have tv: "tagValue ts1 transferTagPrefix = tid" "tagValue ts1 targetTagPrefix = target"
    using set1 none by (auto intro!: tagValue_eqI)
  from s v1 obtain ts2 where ts2: "retagged StateReady [] StatePushing (push_tags (x\<lparr>o_tags := ts1\<rparr>)) ts1 ts2"
    and v2: "v2 = v(vid \<mapsto> x\<lparr>o_active := False, o_tags := ts2\<rparr>)"
    by (auto simp: settled_def)
  have "set ts2 = (set ts1 \<union> {StateTag StateReady}) -
      {StateTag StatePushing, transferTagPrefix @ tid, targetTagPrefix @ target}"
    using ts2 tv by (auto simp: retagged_def push_tags_def)
  moreover have "StateTag StateReady \<in> set (o_tags x)"
    using assms(3) by (auto simp: obj_state_Some_iff intro: stateOf_StateTag_mem)
  moreover have "StateTag StatePushing \<notin> set (o_tags x)"
    using wf_viewD [OF wf assms(1)] calculation(2) StateTag_inject [of StateReady StatePushing]
    unfolding one_state_def by (metis State.distinct state_tag_StateTag)
  moreover have "transferTagPrefix @ tid \<notin> set (o_tags x)" "targetTagPrefix @ target \<notin> set (o_tags x)"
    using none [of "transferTagPrefix @ tid"] none [of "targetTagPrefix @ target"] by auto
  ultimately have "set ts2 = set (o_tags x)"
    using set1 by auto
  then show ?thesis using v2 by blast
qed

section \<open>Theorems\<close>

text \<open>
  Starting a push: only a ready volume is marked, in one command that sets the state together with
  the transfer id and the target, so no crash separates them; a failed command changed nothing or
  landed as a whole.
\<close>

theorem MarkPushing_correct:
  assumes "node run cfg view" and "wf_view (view w)" and "lv_name_ok vid"
    and "MarkPushing (daemon_client run) cfg vid tid target w = (r, w')"
  shows "(\<exists>e. r = Inl e \<and> view w' = view w \<and> refusal vid {StateReady} (view w) e) \<or>
    push_step vid StatePushing [transferTagPrefix @ tid, targetTagPrefix @ target] StateReady (is_err r) (view w) (view w')"
  by (rule node.MarkPushing_outcome [OF assms(1,4,2,3)])

theorem MarkPushing_correct_witness:
  "let st = MarkPushing demo_client demo_cfg ''a'' ''t9'' ''n2:7411'' demo_host in
   is_err (fst st) \<and> map_of (snd st) = map_of demo_host"
  using MarkPushing_correct [OF demo_node demo_wf demo_names(3), of "''t9''" "''n2:7411''", OF prod.collapse [symmetric]]
  by (auto simp: Let_def push_step_def)

text \<open>
  A volume reaches committing only from pushing: a ready volume, whose commit could not be undone,
  is refused.
\<close>

theorem MarkCommitting_correct:
  assumes "node run cfg view" and "wf_view (view w)" and "lv_name_ok vid"
    and "MarkCommitting (daemon_client run) cfg vid w = (r, w')"
  shows "(\<exists>e. r = Inl e \<and> view w' = view w \<and> refusal vid {StatePushing} (view w) e) \<or>
    push_step vid StateCommitting [] StatePushing (is_err r) (view w) (view w')"
  by (rule node.MarkCommitting_outcome [OF assms(1,4,2,3)])

theorem MarkCommitting_correct_witness:
  "let st = MarkCommitting demo_client demo_cfg ''v'' demo_host in
   is_err (fst st) \<and> map_of (snd st) = map_of demo_host"
  using MarkCommitting_correct [OF demo_node demo_wf demo_names(1), OF prod.collapse [symmetric]]
  by (auto simp: Let_def push_step_def)

text \<open>
  C17. Retiring a pushed volume: only from committing; the result is retired, inactive and without the
  push tags, with its content kept; a failure leaves it committing (perhaps inactive) or retired.
\<close>

theorem RetirePushed_correct:
  assumes "node run cfg view" and "wf_view (view w)" and "lv_name_ok vid"
    and "RetirePushed (daemon_client run) cfg vid w = (r, w')"
  shows "(\<exists>e. r = Inl e \<and> view w' = view w \<and> refusal vid {StateCommitting} (view w) e) \<or>
    is_err r \<and> unsettled vid StateCommitting (view w) (view w') \<or>
    settled vid StateRetired StateCommitting (view w) (view w')"
  by (rule node.RetirePushed_outcome [OF assms(1,4,2,3)])

theorem RetirePushed_correct_witness:
  "let st = RetirePushed demo_client demo_cfg ''q'' demo_host in
   fst st = Inr () \<and> settled ''q'' StateRetired StateCommitting (map_of demo_host) (map_of (snd st))"
proof -
  let ?st = "RetirePushed demo_client demo_cfg ''q'' demo_host"
  have "GetVolume demo_client demo_cfg ''q'' demo_host =
      (Inr (volumeFromLV (obj_lv ''vg0'' (''q'', demo_lv [StateTag StateCommitting, transferTagPrefix @ ''t2'',
         targetTagPrefix @ ''n2:7411''] [] True))), demo_host)"
    by (rule demo_GetVolume [OF demo_printable]) (simp_all add: obj_state_def demo_lv_def)
  then have ok: "fst ?st = Inr ()"
    by (simp add: RetirePushed_def deactivatePushed_def wrap_def mapErr_def seqE_def demo_commands volumeFromLV_def obj_lv_def
        demo_lv_def Let_def knownState_def knownStates_def AList.update_conv')
  show ?thesis
    using RetirePushed_correct [OF demo_node demo_wf demo_names(5), OF prod.collapse [symmetric]] ok
    by (simp add: Let_def)
qed

text \<open>
  Aborting a push: from pushing or committing back to ready, inactive and without the push tags; a
  failure leaves the volume in the state it had.
\<close>

theorem AbortPush_correct:
  assumes "node run cfg view" and "wf_view (view w)" and "lv_name_ok vid"
    and "AbortPush (daemon_client run) cfg vid w = (r, w')"
  shows "(\<exists>e. r = Inl e \<and> view w' = view w \<and> refusal vid {StatePushing, StateCommitting} (view w) e) \<or>
    (\<exists>s \<in> {StatePushing, StateCommitting}.
       is_err r \<and> unsettled vid s (view w) (view w') \<or> settled vid StateReady s (view w) (view w'))"
  by (rule node.AbortPush_outcome [OF assms(1,4,2,3)])

theorem AbortPush_correct_witness:
  "let st = AbortPush demo_client demo_cfg ''p'' demo_host in
   \<exists>s \<in> {StatePushing, StateCommitting}.
     is_err (fst st) \<and> unsettled ''p'' s (map_of demo_host) (map_of (snd st)) \<or>
     settled ''p'' StateReady s (map_of demo_host) (map_of (snd st)) \<or> is_err (fst st)"
  using AbortPush_correct [OF demo_node demo_wf demo_names(4), OF prod.collapse [symmetric]]
  by (auto simp: Let_def)

text \<open>
  C18. A push that is marked and then aborted restores the volume: on a volume without push tags, a mark and an
  abort that both succeed leave the host as it was, with the same tags on the volume up to their order, the same
  size, content, origin and pool, and every other volume untouched. The volume is inactive afterwards, whether or
  not it was active before.
\<close>

theorem push_abort_roundtrip:
  assumes "node run cfg view" and "wf_view (view w)" and "lv_name_ok vid"
    and "view w vid = Some x"
    and "\<forall>t \<in> set (o_tags x). \<not> prefix transferTagPrefix t \<and> \<not> prefix targetTagPrefix t"
    and "MarkPushing (daemon_client run) cfg vid tid target w = (Inr (), w1)"
    and "AbortPush (daemon_client run) cfg vid w1 = (Inr (), w2)"
  shows "\<exists>ts. set ts = set (o_tags x) \<and> view w2 = (view w)(vid \<mapsto> x\<lparr>o_active := False, o_tags := ts\<rparr>)"
proof -
  have m: "moves vid StatePushing [transferTagPrefix @ tid, targetTagPrefix @ target] StateReady [] None (view w) (view w1)"
    using node.MarkPushing_outcome [OF assms(1,6,2,3)] by (simp add: push_step_def)
  note d = movesD [OF m assms(2)]
  have s: "settled vid StateReady StatePushing (view w1) (view w2)"
    using node.AbortPush_outcome [OF assms(1,7) d(1) assms(3)] d(2) settledD(4) [of vid StateReady StateCommitting, OF _ d(1)] by auto
  have "obj_state x = Some StateReady" using d(4) assms(4) by (simp add: vstate_def)
  then show ?thesis using push_abort_tags [OF assms(4,2) _ _ m s] assms(5) by blast
qed

definition demo_pushing :: refhost where
  "demo_pushing = AList.update ''v'' (demo_lv [StateTag StatePushing, transferTagPrefix @ ''t9'',
     targetTagPrefix @ ''n2:7411''] [] False) demo_host"

lemma demo_pushing_printable: "printable ''vg0'' demo_pushing"
  by (simp add: printable_def demo_pushing_def demo_host_def demo_lv_def tag_evals plain_raw_def raw_values_def raw_of_lv_def
      obj_lv_def plain_char_def list_item_def FormatUint_def digits_of.simps)

lemma demo_MarkPushing: "MarkPushing demo_client demo_cfg ''v'' ''t9'' ''n2:7411'' demo_host = (Inr (), demo_pushing)"
proof -
  have g: "GetVolume demo_client demo_cfg ''v'' demo_host =
      (Inr (volumeFromLV (obj_lv ''vg0'' (''v'', demo_lv [StateTag StateReady] [] False))), demo_host)"
    by (rule demo_GetVolume [OF demo_printable]) (simp_all add: obj_state_def demo_lv_def)
  have "exec ''thin'' (OpChange ''v'' [StateTag StatePushing, transferTagPrefix @ ''t9'', targetTagPrefix @ ''n2:7411'']
      [StateTag StateReady] None) demo_host = Some demo_pushing"
    by (simp add: demo_pushing_def ref_tags_def demo_lv_def tag_evals)
  then show ?thesis using g
    by (simp add: MarkPushing_def wrap_def mapErr_def seqE_def demo_commands volumeFromLV_def obj_lv_def
        demo_lv_def Let_def knownState_def knownStates_def del: exec.simps)
qed

theorem push_abort_roundtrip_witness:
  "\<exists>y. map_of (snd (AbortPush demo_client demo_cfg ''v'' demo_pushing)) ''v'' = Some y \<and>
     set (o_tags y) = {StateTag StateReady} \<and> o_size y = 4096 \<and> \<not> o_active y"
proof -
  have "map_of demo_pushing ''v'' = Some (demo_lv [StateTag StatePushing, transferTagPrefix @ ''t9'',
     targetTagPrefix @ ''n2:7411''] [] False)"
    by (simp add: demo_pushing_def AList.update_conv')
  then have "GetVolume demo_client demo_cfg ''v'' demo_pushing =
      (Inr (volumeFromLV (obj_lv ''vg0'' (''v'', demo_lv [StateTag StatePushing, transferTagPrefix @ ''t9'',
     targetTagPrefix @ ''n2:7411''] [] False))), demo_pushing)"
    by (rule demo_GetVolume [OF demo_pushing_printable]) (simp add: obj_state_def demo_lv_def)
  then have "fst (AbortPush demo_client demo_cfg ''v'' demo_pushing) = Inr ()"
    by (simp add: AbortPush_def deactivatePushed_def wrap_def mapErr_def seqE_def demo_commands volumeFromLV_def
        obj_lv_def demo_lv_def Let_def knownState_def knownStates_def demo_pushing_def AList.update_conv')
  then have "AbortPush demo_client demo_cfg ''v'' demo_pushing =
      (Inr (), snd (AbortPush demo_client demo_cfg ''v'' demo_pushing))"
    by (metis prod.collapse)
  from push_abort_roundtrip [OF demo_node demo_wf demo_names(1) demo_host_simps(1) _ demo_MarkPushing this]
  show ?thesis by (auto simp: demo_lv_def)
qed

end
