(* ===== verification/Rollback.thy ===== *)
theory Rollback
  imports Pushes
begin

text \<open>
  Rollback: \<^verbatim>\<open>internal/storage/rollback.go\<close>. A rollback clones the snapshot into a temporary copy, removes the
  volume and renames the copy onto its id. Between these commands the node may stop at any point;
  \<open>rb_phase\<close> lists the situations a rollback past its point of no return can be found in, and the
  lemmas show that finishing moves only forward through them.
\<close>

definition RollbackTempName :: "string \<Rightarrow> string" where
  "RollbackTempName volumeID = volumeID @ ''+rb''"

definition BeginRollback :: "'w Client \<Rightarrow> Config \<Rightarrow> string \<Rightarrow> string \<Rightarrow> ('w, err, unit) go" where
  "BeginRollback c cfg volumeID snapshotID =
     seqE (GetVolume c cfg volumeID) (\<lambda>volume.
       if vol_State volume \<notin> {StateReady} then fail (WrongStateError volumeID (vol_State volume))
       else seqE (GetVolume c cfg snapshotID) (\<lambda>snapshot.
         if vol_State snapshot \<notin> {StateSnapshot} then fail (WrongStateError snapshotID (vol_State snapshot))
         else if vol_Origin snapshot \<noteq> volumeID
         then fail (Wrap [] (Sentinel ErrWrongLineage)
           ('': '' @ snapshotID @ '' is of '' @ Quote (vol_Origin snapshot)))
         else wrap (''creating rollback copy for '' @ volumeID)
           (CreateThinSnapshot c (cfg_VolumeGroup cfg) snapshotID (RollbackTempName volumeID)
              (snap_opts [StateTag StateRollback, rollbackTargetTagPrefix @ volumeID] PermissionReadWrite))))"

definition FinishRollback :: "'w Client \<Rightarrow> Config \<Rightarrow> string \<Rightarrow> string \<Rightarrow> ('w, err, unit) go" where
  "FinishRollback c cfg tempID targetID =
     seqE (if tempID \<noteq> targetID
           then wrap (''renaming rollback copy of '' @ targetID)
             (RenameLogicalVolume c (cfg_VolumeGroup cfg) tempID targetID no_common)
           else ret ()) (\<lambda>_.
       wrap (''readying rolled back volume '' @ targetID)
         (ChangeLogicalVolume c (lv_target cfg targetID)
            (retag_opts [StateTag StateReady] [StateTag StateRollback, rollbackTargetTagPrefix @ targetID]
               (Some False))))"

section \<open>Copies and their targets\<close>

text \<open>
  What lvm records of a volume apart from the origin field, which other volumes' removals and
  renames update.
\<close>

definition core :: "lvview \<Rightarrow> string \<rightharpoonup> lvobj" where
  "core v n = map_option (\<lambda>x. x\<lparr>o_origin := []\<rparr>) (v n)"

text \<open>A rollback copy of \<open>vid\<close> under the name \<open>n\<close>: temporaries are identified by their tags only.\<close>

definition is_copy :: "lvview \<Rightarrow> string \<Rightarrow> string \<Rightarrow> bool" where
  "is_copy v n vid \<longleftrightarrow>
     (\<exists>x. v n = Some x \<and> obj_state x = Some StateRollback \<and> tagValue (o_tags x) rollbackTargetTagPrefix = vid)"

lemma core_None_iff [simp]: "core v n = None \<longleftrightarrow> v n = None"
  by (simp add: core_def)

lemma core_upd [simp]: "core (v(n \<mapsto> x)) = (core v)(n \<mapsto> x\<lparr>o_origin := []\<rparr>)"
  by (auto simp: core_def fun_eq_iff)

lemma core_cong:
  assumes "core v n = core v' n'"
  shows "vstate v n = vstate v' n'" and "content v n = content v' n'"
    and "is_copy v n vid \<longleftrightarrow> is_copy v' n' vid" and "v n = None \<longleftrightarrow> v' n' = None"
proof -
  consider (none) "v n = None" "v' n' = None"
    | (some) x y where "v n = Some x" "v' n' = Some y" "x\<lparr>o_origin := []\<rparr> = y\<lparr>o_origin := []\<rparr>"
    using assms by (cases "v n"; cases "v' n'") (auto simp: core_def)
  then have "vstate v n = vstate v' n' \<and> content v n = content v' n' \<and>
      (is_copy v n vid \<longleftrightarrow> is_copy v' n' vid) \<and> (v n = None \<longleftrightarrow> v' n' = None)"
  proof cases
    case none
    then show ?thesis by (simp add: vstate_def content_def is_copy_def)
  next
    case some
    have "o_tags x = o_tags y" "o_data x = o_data y"
      using arg_cong [OF some(3), of o_tags] arg_cong [OF some(3), of o_data] by simp_all
    then show ?thesis using some(1,2) by (simp add: vstate_def content_def is_copy_def obj_state_def)
  qed
  then show "vstate v n = vstate v' n'" and "content v n = content v' n'"
    and "is_copy v n vid \<longleftrightarrow> is_copy v' n' vid" and "v n = None \<longleftrightarrow> v' n' = None"
    by auto
qed

lemma reorigin_core [simp]: "(reorigin a b x)\<lparr>o_origin := []\<rparr> = x\<lparr>o_origin := []\<rparr>"
  by (simp add: reorigin_def)

lemma effect_remove_core: "lv_effect pool (OpRemove n) v v' \<Longrightarrow> core v' = (core v)(n := None)"
  by (auto elim!: eff_removeE simp: core_def fun_eq_iff option.map_comp comp_def)

lemma effect_rename_core: "lv_effect pool (OpRename a b) v v' \<Longrightarrow> core v' = (core v)(a := None, b := core v a)"
  by (auto elim!: eff_renameE simp: core_def fun_eq_iff option.map_comp comp_def)

text \<open>
  The retag that ends a rollback makes the volume ready, from the rollback state and also when it is
  repeated on a volume that is ready already.
\<close>

lemma finish_retag:
  assumes e: "lv_effect pool (OpChange n [StateTag StateReady] [StateTag StateRollback, rollbackTargetTagPrefix @ n]
      (Some False)) v v'"
    and wf: "wf_view v" and st: "vstate v n = Some StateRollback \<or> vstate v n = Some StateReady"
  shows "wf_view v'" and "vstate v' = (vstate v)(n \<mapsto> StateReady)" and "content v' = content v"
    and "\<And>m. m \<noteq> n \<Longrightarrow> v' m = v m"
    and "\<exists>y. v' n = Some y \<and> \<not> o_skip y \<and> rollbackTargetTagPrefix @ n \<notin> set (o_tags y)"
proof -
  from e obtain x ts where v': "v' = v(n \<mapsto> x\<lparr>o_tags := ts, o_skip := False\<rparr>)" and x: "v n = Some x"
    and ts: "set ts = (set (o_tags x) \<union> {StateTag StateReady}) - {StateTag StateRollback, rollbackTargetTagPrefix @ n}"
    by (auto elim!: eff_changeE)
  have one: "one_state (o_tags x)" by (rule wf_viewD [OF wf x])
  have ready: "StateTag StateReady \<in> set ts"
  proof -
    have "rollbackTargetTagPrefix @ n \<noteq> StateTag StateReady" by (metis plain_tags(4) state_tag_StateTag)
    then show ?thesis using ts by simp
  qed
  have only: "t = StateTag StateReady" if t: "t \<in> set ts" "state_tag t" for t
  proof (rule ccontr)
    assume "t \<noteq> StateTag StateReady"
    then have old: "t \<in> set (o_tags x)" "t \<noteq> StateTag StateRollback" using t ts by auto
    from st x have "StateTag StateRollback \<in> set (o_tags x) \<or> StateTag StateReady \<in> set (o_tags x)"
      by (auto simp: vstate_def obj_state_Some_iff dest: stateOf_StateTag_mem)
    then show False
      using one old t(2) \<open>t \<noteq> StateTag StateReady\<close> unfolding one_state_def by (metis state_tag_StateTag)
  qed
  then have one': "one_state ts" unfolding one_state_def by metis
  show "wf_view v'" unfolding v' using wf one' by (simp add: wf_view_upd)
  show "vstate v' = (vstate v)(n \<mapsto> StateReady)"
    unfolding v' using stateOf_eqI [OF one' ready] by (simp add: obj_state_def)
  show "content v' = content v" unfolding v' using x by (auto simp: content_def fun_eq_iff)
  show "\<And>m. m \<noteq> n \<Longrightarrow> v' m = v m" using v' by simp
  show "\<exists>y. v' n = Some y \<and> \<not> o_skip y \<and> rollbackTargetTagPrefix @ n \<notin> set (o_tags y)"
    unfolding v' using ts by simp
qed

section \<open>Phases\<close>

text \<open>
  A rollback of \<open>vid\<close> past its point of no return, with the restored content \<open>d\<close>: the copy waits
  under its temporary name, or sits under the target name and misses its retag, or is ready. All
  other volumes are as in \<open>v0\<close>.
\<close>

definition others_same :: "string set \<Rightarrow> lvview \<Rightarrow> lvview \<Rightarrow> bool" where
  "others_same S v v' \<longleftrightarrow> (\<forall>n. n \<notin> S \<longrightarrow> core v' n = core v n)"

definition rb_ready :: "string \<Rightarrow> string \<Rightarrow> (nat \<Rightarrow> u8) \<Rightarrow> lvview \<Rightarrow> bool" where
  "rb_ready vid temp d v \<longleftrightarrow>
     vstate v vid = Some StateReady \<and> content v vid = Some d \<and> (temp \<noteq> vid \<longrightarrow> v temp = None)"

definition rb_phase :: "string \<Rightarrow> string \<Rightarrow> (nat \<Rightarrow> u8) \<Rightarrow> lvview \<Rightarrow> lvview \<Rightarrow> bool" where
  "rb_phase vid temp d v0 v \<longleftrightarrow>
     wf_view v \<and> others_same {vid, temp} v0 v \<and>
     (is_copy v temp vid \<and> content v temp = Some d \<and> (temp \<noteq> vid \<longrightarrow> v vid = None) \<or>
      is_copy v vid vid \<and> content v vid = Some d \<and> (temp \<noteq> vid \<longrightarrow> v temp = None) \<or>
      rb_ready vid temp d v)"

context node
begin

lemma rename_does:
  "does view (cfg_ThinPool cfg) (OpRename a b)
    (wrap what (RenameLogicalVolume (daemon_client run) (cfg_VolumeGroup cfg) a b no_common))"
  by (intro does_wrap does_rename)

lemma finish_change_does:
  "does view (cfg_ThinPool cfg) (OpChange n [StateTag StateReady] [StateTag StateRollback, rollbackTargetTagPrefix @ n] (Some False))
    (wrap what (ChangeLogicalVolume (daemon_client run) (lv_target cfg n)
       (retag_opts [StateTag StateReady] [StateTag StateRollback, rollbackTargetTagPrefix @ n] (Some False))))"
  unfolding lv_target_def by (intro does_wrap does_retag) simp

text \<open>The retag alone, on a copy that already carries the target name.\<close>

lemma finish_in_place:
  assumes "wrap what (ChangeLogicalVolume (daemon_client run) (lv_target cfg vid)
       (retag_opts [StateTag StateReady] [StateTag StateRollback, rollbackTargetTagPrefix @ vid] (Some False))) w = (r, w')"
    and "rb_phase vid temp d v0 (view w)" and "view w vid \<noteq> None"
  shows "rb_phase vid temp d v0 (view w') \<and> view w' vid \<noteq> None \<and> (is_err r \<or> rb_ready vid temp d (view w'))"
proof -
  have here: "wf_view (view w)" "others_same {vid, temp} v0 (view w)" "content (view w) vid = Some d"
      "temp \<noteq> vid \<longrightarrow> view w temp = None"
      "vstate (view w) vid = Some StateRollback \<or> vstate (view w) vid = Some StateReady"
    using assms(2,3) by (auto simp: rb_phase_def rb_ready_def is_copy_def vstate_def)
  have fin: "rb_phase vid temp d v0 (view w') \<and> view w' vid \<noteq> None \<and> rb_ready vid temp d (view w')"
    if e: "lv_effect (cfg_ThinPool cfg)
      (OpChange vid [StateTag StateReady] [StateTag StateRollback, rollbackTargetTagPrefix @ vid] (Some False))
      (view w) (view w')"
  proof -
    note f = finish_retag [OF e here(1,5)]
    have "rb_ready vid temp d (view w')" using f here by (simp add: rb_ready_def)
    moreover have "others_same {vid, temp} v0 (view w')"
      using f(3,4) here(2) by (simp add: others_same_def core_def)
    ultimately show ?thesis using f(1,5) by (auto simp: rb_phase_def)
  qed
  show ?thesis
    by (rule does_cases [OF finish_change_does assms(1)]) (use assms(2,3) fin in auto)
qed

lemma FinishRollback_phase:
  assumes "FinishRollback (daemon_client run) cfg n vid w = (r, w')"
    and ph: "rb_phase vid temp d v0 (view w)"
    and n: "n = temp \<and> is_copy (view w) temp vid \<or> n = vid \<and> view w vid \<noteq> None"
  shows "rb_phase vid temp d v0 (view w') \<and> (is_err r \<and> view w' = view w \<or> view w' vid \<noteq> None) \<and>
    (is_err r \<or> rb_ready vid temp d (view w'))"
proof (cases "n = vid")
  case True
  then have "view w vid \<noteq> None" using n by (auto simp: is_copy_def)
  moreover have "wrap (''readying rolled back volume '' @ vid)
      (ChangeLogicalVolume (daemon_client run) (lv_target cfg vid)
         (retag_opts [StateTag StateReady] [StateTag StateRollback, rollbackTargetTagPrefix @ vid] (Some False))) w = (r, w')"
    using assms(1) True by (simp add: FinishRollback_def)
  ultimately have "rb_phase vid temp d v0 (view w') \<and> view w' vid \<noteq> None \<and> (is_err r \<or> rb_ready vid temp d (view w'))"
    using ph by (intro finish_in_place)
  then show ?thesis by blast
next
  case False
  then have nt: "n = temp" "temp \<noteq> vid" and copy: "is_copy (view w) temp vid" using n by auto
  then have "view w temp \<noteq> None" by (auto simp: is_copy_def)
  then have wait: "wf_view (view w)" "others_same {vid, temp} v0 (view w)" "content (view w) temp = Some d"
      "view w vid = None"
    using ph nt(2) by (auto simp: rb_phase_def rb_ready_def)
  have moved: "rb_phase vid temp d v0 (view w1) \<and> view w1 vid \<noteq> None"
    if e: "lv_effect (cfg_ThinPool cfg) (OpRename temp vid) (view w) (view w1)" for w1
  proof -
    note f = effect_rename [OF e wait(1)] effect_rename_core [OF e]
    have "is_copy (view w1) vid vid" using copy f(6) core_cong(3) [of "view w1" vid "view w" temp] by simp
    moreover have "view w1 temp = None"
      using f(6) nt(2) core_None_iff [of "view w1" temp] by simp
    moreover have "others_same {vid, temp} v0 (view w1)"
      using wait(2) f(6) by (simp add: others_same_def)
    ultimately show ?thesis
      using f(1,3) wait(3) by (auto simp: rb_phase_def is_copy_def)
  qed
  have body: "seqE (wrap (''renaming rollback copy of '' @ vid)
      (RenameLogicalVolume (daemon_client run) (cfg_VolumeGroup cfg) temp vid no_common)) (\<lambda>_.
       wrap (''readying rolled back volume '' @ vid)
         (ChangeLogicalVolume (daemon_client run) (lv_target cfg vid)
            (retag_opts [StateTag StateReady] [StateTag StateRollback, rollbackTargetTagPrefix @ vid]
               (Some False)))) w = (r, w')"
    using assms(1) False nt by (simp add: FinishRollback_def)
  then show ?thesis
  proof (cases rule: seqE_cases)
    case (err e)
    show ?thesis
      by (rule does_cases [OF rename_does err(1)]) (use err(2) ph moved in auto)
  next
    case (ok u w1)
    note m = moved [OF does_ok [OF rename_does ok(1)]]
    have "rb_phase vid temp d v0 (view w') \<and> view w' vid \<noteq> None \<and> (is_err r \<or> rb_ready vid temp d (view w'))"
      by (rule finish_in_place [OF ok(2)]) (use m in auto)
    then show ?thesis by blast
  qed
qed

lemma FinishRollback_blocked:
  assumes "FinishRollback (daemon_client run) cfg n vid w = (r, w')" and "n \<noteq> vid" and "view w vid \<noteq> None"
    and wf: "wf_view (view w)"
  shows "is_err r \<and> view w' = view w"
proof -
  have no: False if e: "lv_effect (cfg_ThinPool cfg) (OpRename n vid) (view w) v'" for v'
    using effect_rename(4) [OF e wf] assms(3) by simp
  from assms(1,2) have "seqE (wrap (''renaming rollback copy of '' @ vid)
      (RenameLogicalVolume (daemon_client run) (cfg_VolumeGroup cfg) n vid no_common)) (\<lambda>_.
       wrap (''readying rolled back volume '' @ vid)
         (ChangeLogicalVolume (daemon_client run) (lv_target cfg vid)
            (retag_opts [StateTag StateReady] [StateTag StateRollback, rollbackTargetTagPrefix @ vid]
               (Some False)))) w = (r, w')"
    by (simp add: FinishRollback_def)
  then show ?thesis
  proof (cases rule: seqE_cases)
    case (err e)
    show ?thesis
      by (rule does_cases [OF rename_does err(1)]) (use err(2) no in auto)
  next
    case (ok u w1)
    then show ?thesis using no does_ok [OF rename_does ok(1)] by blast
  qed
qed

lemma effect_rollback_copy:
  assumes e: "lv_effect pool (OpSnapshot snap temp [StateTag StateRollback, rollbackTargetTagPrefix @ vid] perm) v v'"
    and wf: "wf_view v"
  shows "v temp = None \<and> wf_view v' \<and> is_copy v' temp vid \<and> content v' temp = content v snap \<and>
    (\<forall>n. n \<noteq> temp \<longrightarrow> v' n = v n)"
proof -
  note f = effect_snapshot [OF e wf, simplified]
  obtain z where z: "v' = v(temp \<mapsto> z)" "set (o_tags z) = {StateTag StateRollback, rollbackTargetTagPrefix @ vid}"
    using e by (auto elim!: eff_snapshotE)
  have "tagValue (o_tags z) rollbackTargetTagPrefix = vid"
    using z(2) by (intro tagValue_eqI) auto
  moreover have "obj_state z = Some StateRollback"
    using f(2) z(1) vstate_Some_iff [of v' temp] by auto
  ultimately show ?thesis using f z(1) by (simp add: is_copy_def)
qed

lemma BeginRollback_outcome:
  assumes "BeginRollback (daemon_client run) cfg vid snap w = (r, w')" and wf: "wf_view (view w)"
    and "lv_name_ok vid" "lv_name_ok snap"
  shows "is_err r \<and> view w' = view w \<or>
    vstate (view w) vid = Some StateReady \<and> vstate (view w) snap = Some StateSnapshot \<and>
    (\<exists>x. view w snap = Some x \<and> obj_origin x = vid) \<and> view w (RollbackTempName vid) = None \<and>
    wf_view (view w') \<and> is_copy (view w') (RollbackTempName vid) vid \<and>
    content (view w') (RollbackTempName vid) = content (view w) snap \<and>
    (\<forall>n. n \<noteq> RollbackTempName vid \<longrightarrow> view w' n = view w n)"
  using assms(1) [unfolded BeginRollback_def] assms(3)
proof (cases rule: read_first_cases)
  case (refused e)
  then show ?thesis by simp
next
  case (pass x vol w1)
  note vol = pass
  from pass(7) assms(4) show ?thesis
  proof (cases rule: read_first_cases)
    case (refused e)
    then show ?thesis using vol(6) by simp
  next
    case (pass y snapv w2)
    have y: "view w snap = Some y" "vstate (view w) snap = Some StateSnapshot" "vol_Origin snapv = obj_origin y"
      using pass vol(6) by (auto simp: vol_shows_def)
    let ?tags = "[StateTag StateRollback, rollbackTargetTagPrefix @ vid]"
    show ?thesis
    proof (cases "vol_Origin snapv = vid")
      case False
      then show ?thesis using pass(6,7) vol(6) by auto
    next
      case True
      then have run: "wrap (''creating rollback copy for '' @ vid) (CreateThinSnapshot (daemon_client run)
          (cfg_VolumeGroup cfg) snap (RollbackTempName vid) (snap_opts ?tags PermissionReadWrite)) w2 = (r, w')"
        using pass(7) by simp
      have w2: "view w2 = view w" using pass(6) vol(6) by simp
      from run have "is_err r \<and> view w' = view w \<or> lv_effect (cfg_ThinPool cfg)
          (OpSnapshot snap (RollbackTempName vid) ?tags PermissionReadWrite) (view w) (view w')"
        unfolding w2 [symmetric] by (rule does_cases [OF snapshot_does]) auto
      then show ?thesis
      proof
        assume "is_err r \<and> view w' = view w"
        then show ?thesis by (rule disjI1)
      next
        assume e: "lv_effect (cfg_ThinPool cfg) (OpSnapshot snap (RollbackTempName vid) ?tags PermissionReadWrite)
          (view w) (view w')"
        have "vstate (view w) vid = Some StateReady" using vol(4,5) by simp
        moreover have "\<exists>x. view w snap = Some x \<and> obj_origin x = vid"
          using y(1,3) True by (intro exI [of _ y]) simp
        ultimately show ?thesis using effect_rollback_copy [OF e wf] y(2) by (intro disjI2 conjI) simp_all
      qed
    qed
  qed
qed

end

section \<open>Theorems\<close>

text \<open>
  Beginning a rollback: it changes nothing unless the volume is ready and the snapshot is in state
  snapshot and of this volume; then the only change is a fresh copy of the snapshot's content, tagged with its
  target. The volume itself is untouched.
\<close>

theorem BeginRollback_correct:
  assumes "node run cfg view" and "wf_view (view w)" and "lv_name_ok vid" and "lv_name_ok snap"
    and "BeginRollback (daemon_client run) cfg vid snap w = (r, w')"
  shows "is_err r \<and> view w' = view w \<or>
    vstate (view w) vid = Some StateReady \<and> vstate (view w) snap = Some StateSnapshot \<and>
    (\<exists>x. view w snap = Some x \<and> obj_origin x = vid) \<and> view w (RollbackTempName vid) = None \<and>
    wf_view (view w') \<and> is_copy (view w') (RollbackTempName vid) vid \<and>
    content (view w') (RollbackTempName vid) = content (view w) snap \<and>
    (\<forall>n. n \<noteq> RollbackTempName vid \<longrightarrow> view w' n = view w n)"
  by (rule node.BeginRollback_outcome [OF assms(1,5,2,3,4)])

theorem BeginRollback_correct_witness:
  "let st = BeginRollback demo_client demo_cfg ''v'' ''s'' demo_host in
   fst st = Inr () \<and> is_copy (map_of (snd st)) ''v+rb'' ''v''"
proof -
  let ?st = "BeginRollback demo_client demo_cfg ''v'' ''s'' demo_host"
  have "GetVolume demo_client demo_cfg ''v'' demo_host =
      (Inr (volumeFromLV (obj_lv ''vg0'' (''v'', demo_lv [StateTag StateReady] [] False))), demo_host)"
    and "GetVolume demo_client demo_cfg ''s'' demo_host =
      (Inr (volumeFromLV (obj_lv ''vg0'' (''s'', demo_lv [StateTag StateSnapshot, originTagPrefix @ ''v''] ''v'' False))), demo_host)"
    by (rule demo_GetVolume [OF demo_printable]; simp add: obj_state_def demo_lv_def)+
  moreover have "tagValue [StateTag StateSnapshot, originTagPrefix @ ''v''] originTagPrefix = ''v''"
    by (rule tagValue_eqI) auto
  ultimately have ok: "fst ?st = Inr ()"
    by (simp add: BeginRollback_def RollbackTempName_def wrap_def mapErr_def seqE_def demo_commands volumeFromLV_def
        obj_lv_def demo_lv_def Let_def knownState_def knownStates_def del: tagValue.simps)
  then show ?thesis
    using BeginRollback_correct [OF demo_node demo_wf demo_names(1,2), OF prod.collapse [symmetric]]
    by (auto simp: Let_def RollbackTempName_def)
qed

text \<open>
  C19. Finishing a rollback moves only forward, whatever fails: from any of its phases (copy waiting,
  copy renamed, ready) every call, successful or not, leaves the rollback in one of them with the
  restored content intact and all other volumes untouched; a successful call leaves the volume ready
  with that content and the temporary name free.
\<close>

theorem FinishRollback_forward:
  assumes "node run cfg view"
    and "rb_phase vid temp d v0 (view w)"
    and "n = temp \<and> is_copy (view w) temp vid \<or> n = vid \<and> view w vid \<noteq> None"
    and "FinishRollback (daemon_client run) cfg n vid w = (r, w')"
  shows "rb_phase vid temp d v0 (view w') \<and> (is_err r \<and> view w' = view w \<or> view w' vid \<noteq> None) \<and>
    (is_err r \<or> rb_ready vid temp d (view w'))"
  by (rule node.FinishRollback_phase [OF assms(1,4,2,3)])

lemma demo_phase: "rb_phase ''y'' ''x'' (\<lambda>i. of_nat i) (map_of demo_host) (map_of demo_host)"
proof -
  have "tagValue [StateTag StateRollback, rollbackTargetTagPrefix @ ''y''] rollbackTargetTagPrefix = ''y''"
    by (rule tagValue_eqI) auto
  then have "is_copy (map_of demo_host) ''x'' ''y''"
    by (simp add: is_copy_def demo_lv_def obj_state_def knownState_def knownStates_def del: tagValue.simps)
  then show ?thesis by (simp add: rb_phase_def others_same_def content_def demo_lv_def)
qed

theorem FinishRollback_forward_witness:
  "let st = FinishRollback demo_client demo_cfg ''x'' ''y'' demo_host in
   fst st = Inr () \<and> rb_ready ''y'' ''x'' (\<lambda>i. of_nat i) (map_of (snd st))"
proof -
  let ?st = "FinishRollback demo_client demo_cfg ''x'' ''y'' demo_host"
  have copy: "is_copy (map_of demo_host) ''x'' ''y''"
    using demo_phase by (auto simp: rb_phase_def rb_ready_def is_copy_def vstate_def)
  have ok: "fst ?st = Inr ()"
    by (simp add: FinishRollback_def wrap_def mapErr_def seqE_def demo_commands AList.update_conv'
        AList.delete_conv' map_of_map_snd demo_lv_def)
  show ?thesis
    using FinishRollback_forward [OF demo_node demo_phase _ prod.collapse [symmetric], of "''x''"] copy ok
    by (simp add: Let_def)
qed

end
