(* ===== verification/Recover.thy ===== *)
theory Recover
  imports Rollback
begin

text \<open>
  Startup recovery: \<^verbatim>\<open>internal/storage/recover.go\<close>. \<open>Recover\<close> scans the pool and applies one rule per
  volume; a failing rule is logged and the scan goes on. The model returns the log as the list of
  volumes whose rule failed, so that the theorems can tell a volume that was settled from one that
  was left for the next start.
\<close>

definition recoverRollback :: "'w Client \<Rightarrow> Config \<Rightarrow> Volume \<Rightarrow> (string \<Rightarrow> bool) \<Rightarrow> ('w, err, unit) go" where
  "recoverRollback c cfg volume byName =
     (let target = vol_RollbackTarget volume in
      if target = [] then fail (Errorf (''rollback copy '' @ vol_ID volume @ '' misses its target tag, resolve manually''))
      else if vol_ID volume = target then FinishRollback c cfg (vol_ID volume) target
      else if byName target then RemoveVolume c cfg (vol_ID volume)
      else FinishRollback c cfg (vol_ID volume) target)"

definition recoverSnapshot :: "'w Client \<Rightarrow> Config \<Rightarrow> Volume \<Rightarrow> ('w, err, unit) go" where
  "recoverSnapshot c cfg volume =
     seqE (if \<not> vol_OriginTagged volume \<and> vol_Origin volume \<noteq> []
           then mapErr OfLvm (ChangeLogicalVolume c (lv_target cfg (vol_ID volume))
             (retag_opts [originTagPrefix @ vol_Origin volume] [] None))
           else ret ()) (\<lambda>_.
       if \<not> vol_Active volume then ret ()
       else mapErr OfLvm (DeactivateLogicalVolume c (lv_target cfg (vol_ID volume)) no_common))"

definition recover_one :: "'w Client \<Rightarrow> Config \<Rightarrow> (string \<Rightarrow> bool) \<Rightarrow> Volume \<Rightarrow> ('w, err, unit) go" where
  "recover_one c cfg byName volume =
     (case vol_State volume of
        StateCreating \<Rightarrow> RemoveVolume c cfg (vol_ID volume)
      | StateDeleting \<Rightarrow> RemoveVolume c cfg (vol_ID volume)
      | StateAttached \<Rightarrow>
          mapErr OfLvm (ActivateLogicalVolume c (lv_target cfg (vol_ID volume)) (activate_opts False))
      | StateSnapshot \<Rightarrow> recoverSnapshot c cfg volume
      | StateIncoming \<Rightarrow> RemoveVolume c cfg (vol_ID volume)
      | StatePushing \<Rightarrow> AbortPush c cfg (vol_ID volume)
      | StateCommitting \<Rightarrow> ret ()
      | StateRollback \<Rightarrow> recoverRollback c cfg volume byName
      | StateReady \<Rightarrow> ret ()
      | StateRetired \<Rightarrow> ret ()
      | StateUnknown \<Rightarrow> ret ())"

fun recover_each ::
  "'w Client \<Rightarrow> Config \<Rightarrow> (string \<Rightarrow> bool) \<Rightarrow> Volume list \<Rightarrow> 'w \<Rightarrow> string list \<times> 'w" where
  "recover_each c cfg byName [] w = ([], w)"
| "recover_each c cfg byName (volume # volumes) w =
     (let (r, w1) = recover_one c cfg byName volume w; (failed, w2) = recover_each c cfg byName volumes w1 in
      (if is_err r then vol_ID volume # failed else failed, w2))"

definition Recover :: "'w Client \<Rightarrow> Config \<Rightarrow> ('w, err, string list) go" where
  "Recover c cfg =
     seqE (ListVolumes c cfg) (\<lambda>volumes w.
       let byName = (\<lambda>n. n \<in> set (map vol_ID volumes)); (failed, w') = recover_each c cfg byName volumes w in
       (Inr failed, w'))"

section \<open>The fate of a volume\<close>

definition same :: "string \<Rightarrow> lvview \<Rightarrow> lvview \<Rightarrow> bool" where
  "same n v v' \<longleftrightarrow> core v' n = core v n"

text \<open>
  What recovery makes of a volume found in the scan, from the view at the start of recovery to the
  one at its end. \<open>failed\<close> says that its rule was logged as failed.
\<close>

definition fate :: "(string \<Rightarrow> bool) \<Rightarrow> Volume \<Rightarrow> bool \<Rightarrow> lvview \<Rightarrow> lvview \<Rightarrow> bool" where
  "fate byName vol failed v v' \<longleftrightarrow>
     (let n = vol_ID vol; target = vol_RollbackTarget vol; gone = (v' n = None \<or> failed \<and> same n v v') in
      case vol_State vol of
        StateCreating \<Rightarrow> gone
      | StateDeleting \<Rightarrow> gone
      | StateIncoming \<Rightarrow> gone
      | StateAttached \<Rightarrow>
          vstate v' n = vstate v n \<and> content v' n = content v n \<and>
          (failed \<or> (\<exists>x. v' n = Some x \<and> (o_active x \<or> o_skip x)))
      | StateSnapshot \<Rightarrow>
          vstate v' n = vstate v n \<and> content v' n = content v n \<and>
          (failed \<or> (\<exists>x. v' n = Some x \<and> \<not> o_active x))
      | StatePushing \<Rightarrow>
          content v' n = content v n \<and>
          (vstate v' n = Some StateReady \<and> (\<exists>x. v' n = Some x \<and> \<not> o_active x) \<or>
           failed \<and> vstate v' n = Some StatePushing)
      | StateRollback \<Rightarrow>
          (if target = [] then failed \<and> same n v v'
           else if n \<noteq> target \<and> byName target then gone
           else failed \<and> same n v v' \<or>
             content v' target = content v n \<and> (n \<noteq> target \<longrightarrow> v' n = None) \<and>
             (vstate v' target = Some StateReady \<or> failed \<and> is_copy v' target target))
      | StateCommitting \<Rightarrow> same n v v'
      | StateReady \<Rightarrow> same n v v'
      | StateRetired \<Rightarrow> same n v v'
      | StateUnknown \<Rightarrow> same n v v')"

text \<open>
  A rule leaves alone every other volume that exists, and no name the scan found comes back.
\<close>

definition leaves_alone :: "(string \<Rightarrow> bool) \<Rightarrow> string set \<Rightarrow> lvview \<Rightarrow> lvview \<Rightarrow> bool" where
  "leaves_alone byName S v v' \<longleftrightarrow>
     (\<forall>n. n \<notin> S \<longrightarrow> v n \<noteq> None \<or> byName n \<longrightarrow> same n v v')"

lemma leaves_alone_refl [simp]: "leaves_alone byName S v v"
  by (simp add: leaves_alone_def same_def)

lemma leaves_alone_trans:
  assumes "leaves_alone byName S v v1" and "leaves_alone byName T v1 v2"
  shows "leaves_alone byName (S \<union> T) v v2"
  unfolding leaves_alone_def
proof (intro allI impI)
  fix n
  assume n: "n \<notin> S \<union> T" and ex: "v n \<noteq> None \<or> byName n"
  then have 1: "same n v v1" using assms(1) unfolding leaves_alone_def by blast
  then have "v1 n \<noteq> None \<or> byName n" using ex core_cong(4) [of v1 n v n] by (auto simp: same_def)
  then have "same n v1 v2" using assms(2) n unfolding leaves_alone_def by blast
  with 1 show "same n v v2" by (simp add: same_def)
qed

lemma effect_remove_alone:
  assumes "lv_effect pool (OpRemove n) v v'"
  shows "leaves_alone byName {n} v v'" and "v' n = None"
proof -
  have c: "core v' = (core v)(n := None)" using assms by (rule effect_remove_core)
  then show "leaves_alone byName {n} v v'" by (simp add: leaves_alone_def same_def)
  show "v' n = None" using c core_None_iff [of v' n] by simp
qed

lemma upd_alone: "leaves_alone byName {n} v (v(n \<mapsto> x))"
  by (simp add: leaves_alone_def same_def)

text \<open>What the rules use of a scanned volume, which earlier rules of the scan do not change.\<close>

definition scanned :: "lvobj \<Rightarrow> Volume \<Rightarrow> bool" where
  "scanned x vol \<longleftrightarrow>
     obj_state x = Some (vol_State vol) \<and> vol_Active vol = o_active x \<and>
     vol_RollbackTarget vol = tagValue (o_tags x) rollbackTargetTagPrefix"

lemma scanned_shows: "vol_shows x vol \<Longrightarrow> scanned x vol"
  by (simp add: vol_shows_def scanned_def)

lemma scanned_same:
  assumes "same n v v'" and "v n = Some x" and "scanned x vol"
  shows "\<exists>y. v' n = Some y \<and> scanned y vol"
proof -
  from assms(1,2) obtain y where y: "v' n = Some y" and eq: "y\<lparr>o_origin := []\<rparr> = x\<lparr>o_origin := []\<rparr>"
    by (cases "v' n") (auto simp: same_def core_def)
  have "o_tags y = o_tags x" "o_active y = o_active x"
    using arg_cong [OF eq, of o_tags] arg_cong [OF eq, of o_active] by simp_all
  then show ?thesis using y assms(3) by (simp add: scanned_def obj_state_def)
qed

definition rule_ok :: "(string \<Rightarrow> bool) \<Rightarrow> Volume \<Rightarrow> bool \<Rightarrow> lvview \<Rightarrow> lvview \<Rightarrow> bool" where
  "rule_ok byName vol failed v v' \<longleftrightarrow>
     wf_view v' \<and> leaves_alone byName {vol_ID vol} v v' \<and> fate byName vol failed v v'"

text \<open>A snapshot whose tags may have grown.\<close>

definition still_snapshot :: "string \<Rightarrow> lvobj \<Rightarrow> lvview \<Rightarrow> lvview \<Rightarrow> lvobj \<Rightarrow> bool" where
  "still_snapshot n x v v' y \<longleftrightarrow>
     v' = v(n \<mapsto> y) \<and> one_state (o_tags y) \<and> obj_state y = Some StateSnapshot \<and> o_data y = o_data x"

lemma effect_backfill:
  assumes e: "lv_effect pool (OpChange n [originTagPrefix @ origin] [] None) v v'" and wf: "wf_view v"
    and x: "v n = Some x" "obj_state x = Some StateSnapshot"
  shows "\<exists>y. still_snapshot n x v v' y \<and> o_active y = o_active x"
proof -
  obtain ts where ts: "v' = v(n \<mapsto> x\<lparr>o_tags := ts\<rparr>)" "set ts = set (o_tags x) \<union> {originTagPrefix @ origin}"
    using e x(1) by (auto elim!: eff_changeE)
  have "one_state (o_tags (x\<lparr>o_tags := ts\<rparr>)) \<and> obj_state (x\<lparr>o_tags := ts\<rparr>) = Some StateSnapshot"
    by (rule keep_state [OF wf_viewD [OF wf x(1)] x(2), where adds = "[originTagPrefix @ origin]" and dels = "[]"])
      (use ts in auto)
  then show ?thesis using ts(1) by (intro exI [of _ "x\<lparr>o_tags := ts\<rparr>"]) (simp add: still_snapshot_def)
qed

context node
begin

lemma RemoveVolume_gone:
  assumes "RemoveVolume (daemon_client run) cfg n w = (r, w')" and wf: "wf_view (view w)"
  shows "wf_view (view w') \<and> leaves_alone byName {n} (view w) (view w') \<and>
    (view w' n = None \<or> is_err r \<and> view w' = view w)"
proof (rule does_cases [OF RemoveVolume_does assms(1)])
  assume e: "lv_effect (cfg_ThinPool cfg) (OpRemove n) (view w) (view w')"
  show ?thesis using effect_remove(1) [OF e wf] effect_remove_alone [OF e] by simp
qed (use wf in auto)

lemma activate_raw_does:
  "does view (cfg_ThinPool cfg) (OpActivate n ignore)
    (mapErr OfLvm (ActivateLogicalVolume (daemon_client run) (lv_target cfg n) (activate_opts ignore)))"
  unfolding lv_target_def by (intro does_mapErr does_activate)

lemma deactivate_raw_does:
  "does view (cfg_ThinPool cfg) (OpDeactivate n)
    (mapErr OfLvm (DeactivateLogicalVolume (daemon_client run) (lv_target cfg n) no_common))"
  unfolding lv_target_def by (intro does_mapErr does_deactivate)

lemma backfill_does:
  "does view (cfg_ThinPool cfg) (OpChange n [t] [] None)
    (mapErr OfLvm (ChangeLogicalVolume (daemon_client run) (lv_target cfg n) (retag_opts [t] [] None)))"
  unfolding lv_target_def by (intro does_mapErr does_retag) simp

lemma backfill_outcome:
  assumes run: "(if \<not> vol_OriginTagged vol \<and> vol_Origin vol \<noteq> []
      then mapErr OfLvm (ChangeLogicalVolume (daemon_client run) (lv_target cfg n)
        (retag_opts [originTagPrefix @ vol_Origin vol] [] None)) else ret ()) w = (q, w1)"
    and wf: "wf_view (view w)" and x: "view w n = Some x" "obj_state x = Some StateSnapshot"
  shows "\<exists>y. still_snapshot n x (view w) (view w1) y \<and> o_active y = o_active x"
proof -
  have same: "\<exists>y. still_snapshot n x (view w) (view w) y \<and> o_active y = o_active x"
    using x wf_viewD [OF wf x(1)] by (intro exI [of _ x]) (auto simp: still_snapshot_def)
  show ?thesis
  proof (cases "\<not> vol_OriginTagged vol \<and> vol_Origin vol \<noteq> []")
    case True
    then have run': "mapErr OfLvm (ChangeLogicalVolume (daemon_client run) (lv_target cfg n)
        (retag_opts [originTagPrefix @ vol_Origin vol] [] None)) w = (q, w1)" using run by simp
    show ?thesis by (rule does_cases [OF backfill_does run']) (use effect_backfill [OF _ wf x] same in auto)
  next
    case False
    then have "w1 = w" using run by (simp only: if_False ret_apply prod.inject)
    then show ?thesis using same by simp
  qed
qed

lemma recoverSnapshot_outcome:
  assumes "recoverSnapshot (daemon_client run) cfg vol w = (r, w')" and wf: "wf_view (view w)"
    and x: "view w (vol_ID vol) = Some x" "scanned x vol" "vol_State vol = StateSnapshot"
  shows "\<exists>y. view w' = (view w)(vol_ID vol \<mapsto> y) \<and> one_state (o_tags y) \<and> obj_state y = Some StateSnapshot \<and>
    o_data y = o_data x \<and> (is_err r \<or> \<not> o_active y)"
proof -
  let ?n = "vol_ID vol"
  have st: "obj_state x = Some StateSnapshot" "vol_Active vol = o_active x"
    using x by (simp_all add: scanned_def)
  have "\<exists>y. still_snapshot ?n x (view w) (view w') y \<and> (is_err r \<or> \<not> o_active y)"
    using assms(1) [unfolded recoverSnapshot_def]
  proof (cases rule: seqE_cases)
    case (err e)
    then show ?thesis using backfill_outcome [OF err(1) wf x(1) st(1)] by auto
  next
    case (ok u w1)
    from backfill_outcome [OF ok(1) wf x(1) st(1)] obtain y
      where y: "still_snapshot ?n x (view w) (view w1) y" "o_active y = o_active x" by blast
    show ?thesis
    proof (cases "vol_Active vol")
      case False
      then show ?thesis using ok(2) y st(2) by auto
    next
      case True
      then have run: "mapErr OfLvm (DeactivateLogicalVolume (daemon_client run) (lv_target cfg ?n) no_common) w1 = (r, w')"
        using ok(2) by simp
      have "still_snapshot ?n x (view w) (view w') (y\<lparr>o_active := False\<rparr>)"
        if "lv_effect (cfg_ThinPool cfg) (OpDeactivate ?n) (view w1) (view w')"
        using that y(1) by (auto elim!: eff_deactivateE simp: still_snapshot_def obj_state_def)
      then have off: "lv_effect (cfg_ThinPool cfg) (OpDeactivate ?n) (view w1) (view w') \<Longrightarrow> ?thesis"
        by (intro exI [of _ "y\<lparr>o_active := False\<rparr>"]) simp
      show ?thesis by (rule does_cases [OF deactivate_raw_does run]) (use off y in auto)
    qed
  qed
  then show ?thesis by (auto simp: still_snapshot_def)
qed

lemma finish_rule:
  assumes run: "FinishRollback (daemon_client run) cfg (vol_ID vol) target w = (r, w')" and wf: "wf_view (view w)"
    and x: "view w (vol_ID vol) = Some x" "scanned x vol" "vol_State vol = StateRollback"
    and target: "target = vol_RollbackTarget vol" "target \<noteq> []" "vol_ID vol = target \<or> \<not> byName target"
  shows "rule_ok byName vol (is_err r) (view w) (view w')"
proof (cases "vol_ID vol = target \<or> view w target = None")
  case False
  then have "is_err r \<and> view w' = view w"
    by (intro FinishRollback_blocked [OF run _ _ wf]) auto
  then show ?thesis using False wf x(3) target by (auto simp: rule_ok_def fate_def Let_def same_def)
next
  case True
  let ?n = "vol_ID vol"
  have copy: "is_copy (view w) ?n target" using x target(1) by (auto simp: is_copy_def scanned_def)
  have cont: "content (view w) ?n = Some (o_data x)" using x(1) by (simp add: content_def)
  have "rb_phase target ?n (o_data x) (view w) (view w)"
    using wf copy cont True by (auto simp: rb_phase_def others_same_def)
  then have f: "rb_phase target ?n (o_data x) (view w) (view w')"
      "is_err r \<and> view w' = view w \<or> view w' target \<noteq> None"
      "is_err r \<or> rb_ready target ?n (o_data x) (view w')"
    using FinishRollback_phase [OF run] copy by blast+
  have "leaves_alone byName {?n} (view w) (view w')"
    unfolding leaves_alone_def same_def
  proof (intro allI impI)
    fix m
    assume "m \<notin> {?n}" and "view w m \<noteq> None \<or> byName m"
    then have "m \<notin> {target, ?n}" using True target(3) by auto
    then show "core (view w') m = core (view w) m" using f(1) by (simp add: rb_phase_def others_same_def)
  qed
  moreover have "is_err r \<and> view w' = view w \<or> content (view w') target = content (view w) ?n \<and>
      (?n \<noteq> target \<longrightarrow> view w' ?n = None) \<and>
      (vstate (view w') target = Some StateReady \<or> is_err r \<and> is_copy (view w') target target)"
    using f cont by (auto simp: rb_phase_def rb_ready_def)
  ultimately show ?thesis
    using f(1) x(3) target by (auto simp: rule_ok_def fate_def Let_def same_def rb_phase_def)
qed

lemma recoverRollback_rule:
  assumes run: "recoverRollback (daemon_client run) cfg vol byName w = (r, w')" and wf: "wf_view (view w)"
    and x: "view w (vol_ID vol) = Some x" "scanned x vol" "vol_State vol = StateRollback"
  shows "rule_ok byName vol (is_err r) (view w) (view w')"
proof -
  let ?t = "vol_RollbackTarget vol"
  consider (none) "?t = []" | (drop) "?t \<noteq> []" "vol_ID vol \<noteq> ?t" "byName ?t"
    | (finish) "?t \<noteq> []" "vol_ID vol = ?t \<or> \<not> byName ?t" by blast
  then show ?thesis
  proof cases
    case none
    then show ?thesis using run wf x(3)
      by (auto simp: recoverRollback_def rule_ok_def fate_def Let_def same_def)
  next
    case drop
    then have "RemoveVolume (daemon_client run) cfg (vol_ID vol) w = (r, w')"
      using run by (simp add: recoverRollback_def Let_def)
    from RemoveVolume_gone [OF this wf, of byName] show ?thesis
      using drop x(3) by (auto simp: rule_ok_def fate_def Let_def same_def)
  next
    case finish
    then have "FinishRollback (daemon_client run) cfg (vol_ID vol) ?t w = (r, w')"
      using run by (auto simp: recoverRollback_def Let_def split: if_splits)
    then show ?thesis using wf x finish by (intro finish_rule) auto
  qed
qed

lemma recover_one_rule:
  assumes run: "recover_one (daemon_client run) cfg byName vol w = (r, w')" and wf: "wf_view (view w)"
    and x: "view w (vol_ID vol) = Some x" "scanned x vol" and name: "lv_name_ok (vol_ID vol)"
  shows "rule_ok byName vol (is_err r) (view w) (view w')"
proof -
  let ?n = "vol_ID vol"
  have st: "vstate (view w) ?n = Some (vol_State vol)" using x by (simp add: vstate_def scanned_def)
  have removal: ?thesis
    if "RemoveVolume (daemon_client run) cfg ?n w = (r, w')" "vol_State vol \<in> {StateCreating, StateDeleting, StateIncoming}"
    using RemoveVolume_gone [OF that(1) wf, of byName] that(2)
    by (auto simp: rule_ok_def fate_def Let_def same_def)
  have idle: ?thesis
    if "ret () w = (r, w')" "vol_State vol \<in> {StateCommitting, StateReady, StateRetired, StateUnknown}"
    using that wf by (auto simp: rule_ok_def fate_def Let_def same_def)
  have attached: ?thesis
    if a: "mapErr OfLvm (ActivateLogicalVolume (daemon_client run) (lv_target cfg ?n) (activate_opts False)) w = (r, w')"
      "vol_State vol = StateAttached"
  proof (rule does_cases [OF activate_raw_does a(1)])
    fix e
    assume "r = Inl e" "view w' = view w"
    then show ?thesis using wf a(2) by (simp add: rule_ok_def fate_def Let_def)
  next
    assume e: "lv_effect (cfg_ThinPool cfg) (OpActivate ?n False) (view w) (view w')"
    have "view w' = (view w)(?n \<mapsto> x\<lparr>o_active := o_active x \<or> \<not> o_skip x\<rparr>)"
      using e x(1) by (auto elim!: eff_activateE)
    then show ?thesis using effect_active [OF disjI1 [OF e] wf] upd_alone a(2)
      by (simp add: rule_ok_def fate_def Let_def)
  qed
  have snapshot: ?thesis
    if a: "recoverSnapshot (daemon_client run) cfg vol w = (r, w')" "vol_State vol = StateSnapshot"
  proof -
    obtain y where y: "view w' = (view w)(?n \<mapsto> y)" "one_state (o_tags y)" "obj_state y = Some StateSnapshot"
      "o_data y = o_data x" "is_err r \<or> \<not> o_active y"
      using recoverSnapshot_outcome [OF a(1) wf x a(2)] by blast
    then show ?thesis using wf a(2) st x(1) upd_alone
      by (simp add: rule_ok_def fate_def Let_def wf_view_upd content_def)
  qed
  have pushing: ?thesis
    if a: "AbortPush (daemon_client run) cfg ?n w = (r, w')" "vol_State vol = StatePushing"
  proof -
    have "is_err r \<and> view w' = view w \<or> is_err r \<and> unsettled ?n StatePushing (view w) (view w') \<or>
        settled ?n StateReady StatePushing (view w) (view w')"
      using AbortPush_outcome [OF a(1) wf name] st a(2)
      by (auto dest: unsettledD(4) [OF _ wf] settledD(4) [OF _ wf])
    moreover have ?thesis if s: "settled ?n StateReady StatePushing (view w) (view w')"
      using settledD [OF s wf] s a(2)
      by (auto simp: rule_ok_def fate_def Let_def leaves_alone_def same_def core_def settled_def)
    moreover have ?thesis if u: "unsettled ?n StatePushing (view w) (view w')" "is_err r"
      using unsettledD [OF u(1) wf] u(2) a(2)
      by (auto simp: rule_ok_def fate_def Let_def leaves_alone_def same_def core_def)
    moreover have ?thesis if "view w' = view w" "is_err r"
      using that wf a(2) st by (simp add: rule_ok_def fate_def Let_def)
    ultimately show ?thesis by blast
  qed
  show ?thesis
    using run removal idle attached snapshot pushing recoverRollback_rule [OF _ wf x, of byName r w']
    by (cases "vol_State vol") (simp_all add: recover_one_def del: ret_apply)
qed

end

section \<open>The scan\<close>

lemma core_flags:
  assumes "core v n = core v' n'"
  shows "(\<exists>x. v n = Some x \<and> P (o_active x) (o_skip x)) \<longleftrightarrow> (\<exists>x. v' n' = Some x \<and> P (o_active x) (o_skip x))"
proof -
  have eq: "map_option (\<lambda>x. (o_active x, o_skip x)) (core v n) = map_option (\<lambda>x. (o_active x, o_skip x)) (core v' n')"
    using assms by simp
  then show ?thesis
    by (cases "v n"; cases "v' n'") (auto simp: core_def option.map_comp)
qed

text \<open>A fate read at the end of the scan, when the steps before and after left the volume alone.\<close>

lemma fate_transport:
  assumes f: "fate byName vol failed v1 v2" and before: "same (vol_ID vol) v v1"
    and after: "leaves_alone byName S v2 v'" and n: "vol_ID vol \<notin> S" "byName (vol_ID vol)"
    and t: "\<forall>m \<in> S. byName m"
  shows "fate byName vol failed v v'"
proof -
  let ?n = "vol_ID vol" and ?t = "vol_RollbackTarget vol"
  have a: "core v' ?n = core v2 ?n" using after n by (simp add: leaves_alone_def same_def)
  have b: "core v1 ?n = core v ?n" using before by (simp add: same_def)
  have tg: "core v' ?t = core v2 ?t" if "v2 ?t \<noteq> None" "?t = ?n \<or> \<not> byName ?t"
    using after that a t by (auto simp: leaves_alone_def same_def)
  note an = core_cong [OF a] and bn = core_cong [OF b]
  have act: "(\<exists>x. v' ?n = Some x \<and> (o_active x \<or> o_skip x)) \<longleftrightarrow> (\<exists>x. v2 ?n = Some x \<and> (o_active x \<or> o_skip x))"
    "(\<exists>x. v' ?n = Some x \<and> \<not> o_active x) \<longleftrightarrow> (\<exists>x. v2 ?n = Some x \<and> \<not> o_active x)"
    using core_flags [OF a, of "\<lambda>p q. p \<or> q"] core_flags [OF a, of "\<lambda>p q. \<not> p"] by blast+
  have sm: "same ?n v v' \<longleftrightarrow> same ?n v1 v2" using a b by (simp add: same_def)
  show ?thesis
  proof (cases "vol_State vol = StateRollback")
    case False
    then show ?thesis
      using f by (cases "vol_State vol") (simp_all add: fate_def Let_def an(1,2,4) bn(1,2,4) act sm)
  next
    case True
    show ?thesis
    proof (cases "?t = [] \<or> ?n \<noteq> ?t \<and> byName ?t \<or> failed \<and> same ?n v1 v2")
      case True
      then show ?thesis
        using f \<open>vol_State vol = StateRollback\<close> by (auto simp: fate_def Let_def an(4) sm)
    next
      case False
      then have res: "content v2 ?t = content v1 ?n" "?n \<noteq> ?t \<longrightarrow> v2 ?n = None"
          "vstate v2 ?t = Some StateReady \<or> failed \<and> is_copy v2 ?t ?t"
        using f \<open>vol_State vol = StateRollback\<close> by (auto simp: fate_def Let_def)
      then have "v2 ?t \<noteq> None" by (auto simp: is_copy_def vstate_Some_iff)
      then have "core v' ?t = core v2 ?t" using False by (intro tg) auto
      note c = core_cong [OF this]
      have "content v' ?t = content v ?n" using res(1) c(2) bn(2) by simp
      moreover have "?n \<noteq> ?t \<longrightarrow> v' ?n = None" using res(2) an(4) by simp
      moreover have "vstate v' ?t = Some StateReady \<or> failed \<and> is_copy v' ?t ?t" using res(3) c(1,3) by simp
      ultimately show ?thesis
        using False \<open>vol_State vol = StateRollback\<close> by (auto simp: fate_def Let_def)
    qed
  qed
qed

context node
begin

lemma recover_each_fates:
  assumes "recover_each (daemon_client run) cfg byName vols w = (failed, w')" and "wf_view (view w)"
    and "distinct (map vol_ID vols)"
    and "\<And>vol. vol \<in> set vols \<Longrightarrow> byName (vol_ID vol) \<and> lv_name_ok (vol_ID vol) \<and>
      (\<exists>x. view w (vol_ID vol) = Some x \<and> scanned x vol)"
  shows "wf_view (view w') \<and> leaves_alone byName (set (map vol_ID vols)) (view w) (view w') \<and>
    set failed \<subseteq> set (map vol_ID vols) \<and>
    (\<forall>vol \<in> set vols. fate byName vol (vol_ID vol \<in> set failed) (view w) (view w'))"
  using assms
proof (induction vols arbitrary: w failed)
  case Nil
  then show ?case by simp
next
  case (Cons vol vols)
  obtain r w1 where one: "recover_one (daemon_client run) cfg byName vol w = (r, w1)" by fastforce
  obtain fs where rest: "recover_each (daemon_client run) cfg byName vols w1 = (fs, w')"
    and failed: "failed = (if is_err r then vol_ID vol # fs else fs)"
    using Cons.prems(1) one by (auto split: prod.splits)
  have "rule_ok byName vol (is_err r) (view w) (view w1)"
    using recover_one_rule [OF one Cons.prems(2)] Cons.prems(4) [of vol] by auto
  then have ok: "wf_view (view w1)" "leaves_alone byName {vol_ID vol} (view w) (view w1)"
      "fate byName vol (is_err r) (view w) (view w1)"
    by (auto simp: rule_ok_def)
  have still: "same (vol_ID u) (view w) (view w1)" if "u \<in> set vols" for u
  proof -
    have "vol_ID u \<noteq> vol_ID vol" using Cons.prems(3) that by (auto simp: image_iff)
    then show ?thesis using ok(2) Cons.prems(4) [of u] that by (simp add: leaves_alone_def)
  qed
  have IH: "wf_view (view w') \<and> leaves_alone byName (set (map vol_ID vols)) (view w1) (view w') \<and>
      set fs \<subseteq> set (map vol_ID vols) \<and> (\<forall>u \<in> set vols. fate byName u (vol_ID u \<in> set fs) (view w1) (view w'))"
  proof (rule Cons.IH [OF rest ok(1)])
    show "distinct (map vol_ID vols)" using Cons.prems(3) by simp
    show "byName (vol_ID u) \<and> lv_name_ok (vol_ID u) \<and> (\<exists>x. view w1 (vol_ID u) = Some x \<and> scanned x u)"
      if "u \<in> set vols" for u
      using Cons.prems(4) [of u] that scanned_same [OF still [OF that]] by auto
  qed
  have names: "\<forall>m \<in> set (map vol_ID vols). byName m" using Cons.prems(4) by auto
  have new: "vol_ID vol \<notin> set (map vol_ID vols)" using Cons.prems(3) by simp
  then have flag: "vol_ID vol \<in> set failed \<longleftrightarrow> is_err r" using failed IH by auto
  have head: "fate byName vol (vol_ID vol \<in> set failed) (view w) (view w')"
    unfolding flag
    by (rule fate_transport [OF ok(3)]) (use IH new names Cons.prems(4) in \<open>auto simp: same_def\<close>)
  have tail: "fate byName u (vol_ID u \<in> set failed) (view w) (view w')" if "u \<in> set vols" for u
  proof -
    have "vol_ID u \<noteq> vol_ID vol" using new that by (auto simp: image_iff)
    then have "fate byName u (vol_ID u \<in> set failed) (view w1) (view w')" using IH failed that by auto
    then show ?thesis
      by (rule fate_transport [where S = "{}"]) (use still that Cons.prems(4) [of u] in auto)
  qed
  have "leaves_alone byName ({vol_ID vol} \<union> set (map vol_ID vols)) (view w) (view w')"
    using ok(2) IH by (blast intro: leaves_alone_trans)
  moreover have "set failed \<subseteq> set (map vol_ID (vol # vols))" using IH failed by auto
  ultimately show ?case using IH head tail by simp
qed

lemma Recover_outcome:
  assumes "Recover (daemon_client run) cfg w = (r, w')" and wf: "wf_view (view w)"
    and "\<forall>n. view w n \<noteq> None \<longrightarrow> lv_name_ok n"
  shows "is_err r \<and> view w' = view w \<or>
    (\<exists>failed vols. r = Inr failed \<and> wf_view (view w') \<and>
      set (map vol_ID vols) = pool_volumes (cfg_ThinPool cfg) (view w) \<and>
      (\<forall>vol \<in> set vols. \<exists>x. view w (vol_ID vol) = Some x \<and> vol_shows x vol) \<and>
      leaves_alone (\<lambda>n. n \<in> pool_volumes (cfg_ThinPool cfg) (view w))
        (pool_volumes (cfg_ThinPool cfg) (view w)) (view w) (view w') \<and>
      (\<forall>vol \<in> set vols. fate (\<lambda>n. n \<in> pool_volumes (cfg_ThinPool cfg) (view w)) vol
        (vol_ID vol \<in> set failed) (view w) (view w')))"
  using assms(1) [unfolded Recover_def]
proof (cases rule: seqE_cases)
  case (err e)
  from err(1) show ?thesis by (cases rule: ListVolumes_cases) (use err(2) in auto)
next
  case (ok vols w1)
  from ok(1) have l: "view w1 = view w" "distinct (map vol_ID vols)"
      "set (map vol_ID vols) = pool_volumes (cfg_ThinPool cfg) (view w)"
      "\<forall>vol \<in> set vols. \<exists>x. view w (vol_ID vol) = Some x \<and> vol_shows x vol"
    by (cases rule: ListVolumes_cases; fastforce)+
  let ?bn = "\<lambda>n. n \<in> pool_volumes (cfg_ThinPool cfg) (view w)"
  obtain failed where run: "recover_each (daemon_client run) cfg ?bn vols w1 = (failed, w')" and r: "r = Inr failed"
    using ok(2) unfolding l(3) by (auto simp: Let_def split: prod.splits)
  have "wf_view (view w') \<and> leaves_alone ?bn (set (map vol_ID vols)) (view w1) (view w') \<and>
      set failed \<subseteq> set (map vol_ID vols) \<and>
      (\<forall>vol \<in> set vols. fate ?bn vol (vol_ID vol \<in> set failed) (view w1) (view w'))"
  proof (rule recover_each_fates [OF run])
    show "wf_view (view w1)" using wf l(1) by simp
    show "?bn (vol_ID vol) \<and> lv_name_ok (vol_ID vol) \<and> (\<exists>x. view w1 (vol_ID vol) = Some x \<and> scanned x vol)"
      if v: "vol \<in> set vols" for vol
    proof -
      from l(4) v obtain x where x: "view w (vol_ID vol) = Some x" "vol_shows x vol" by blast
      have "vol_ID vol \<in> set (map vol_ID vols)" using v by simp
      then show ?thesis using x assms(3) l(1,3) scanned_shows by auto
    qed
  qed (rule l(2))
  then show ?thesis using r l by auto
qed

end

section \<open>Theorems\<close>

text \<open>
  C9. Recovery: unless the scan itself fails, in which case nothing happens, every volume the scan finds
  meets the fate of its state, whether its rule failed or not: creating, deleting and incoming volumes
  are gone; attached ones are active again; snapshots are inactive; pushing ones are ready;
  rollback copies are removed while their target exists and otherwise become it; ready, retired,
  committing and unreadable ones are untouched. A failed rule leaves its volume as it was or settled. Logical volumes
  outside the scan are left alone.
\<close>

theorem Recover_correct:
  assumes "node run cfg view" and "wf_view (view w)" and "\<forall>n. view w n \<noteq> None \<longrightarrow> lv_name_ok n"
    and "Recover (daemon_client run) cfg w = (r, w')"
  shows "is_err r \<and> view w' = view w \<or>
    (\<exists>failed vols. r = Inr failed \<and> wf_view (view w') \<and>
      set (map vol_ID vols) = pool_volumes (cfg_ThinPool cfg) (view w) \<and>
      (\<forall>vol \<in> set vols. \<exists>x. view w (vol_ID vol) = Some x \<and> vol_shows x vol) \<and>
      leaves_alone (\<lambda>n. n \<in> pool_volumes (cfg_ThinPool cfg) (view w))
        (pool_volumes (cfg_ThinPool cfg) (view w)) (view w) (view w') \<and>
      (\<forall>vol \<in> set vols. fate (\<lambda>n. n \<in> pool_volumes (cfg_ThinPool cfg) (view w)) vol
        (vol_ID vol \<in> set failed) (view w) (view w')))"
  by (rule node.Recover_outcome [OF assms(1,4,2,3)])

lemma demo_all_names: "\<forall>n. map_of demo_host n \<noteq> None \<longrightarrow> lv_name_ok n"
  by (auto simp: demo_host_def split: if_splits)

theorem Recover_correct_witness:
  "let st = Recover demo_client demo_cfg demo_host in
   is_err (fst st) \<and> map_of (snd st) = map_of demo_host \<or> wf_view (map_of (snd st))"
  using Recover_correct [OF demo_node demo_wf demo_all_names, OF prod.collapse [symmetric]]
  by (auto simp: Let_def)

text \<open>
  C3. Recovery never loses data: whatever commands fail, a volume that is ready, attached, retired,
  committing, pushing, a snapshot or unreadable, and a foreign logical volume, is there afterwards
  with the content it had, in the state it had (a pushing one may have become ready).
\<close>

theorem Recover_keeps_data:
  assumes "node run cfg view" and "wf_view (view w)" and "\<forall>n. view w n \<noteq> None \<longrightarrow> lv_name_ok n"
    and "Recover (daemon_client run) cfg w = (r, w')"
    and "view w n \<noteq> None"
    and "vstate (view w) n \<notin> Some ` {StateCreating, StateDeleting, StateIncoming, StateRollback}"
  shows "content (view w') n = content (view w) n \<and>
    (vstate (view w') n = vstate (view w) n \<or>
     vstate (view w) n = Some StatePushing \<and> vstate (view w') n = Some StateReady)"
proof -
  let ?P = "pool_volumes (cfg_ThinPool cfg) (view w)"
  from node.Recover_outcome [OF assms(1,4,2,3)] show ?thesis
  proof (elim disjE exE conjE)
    fix failed vols
    assume alone: "leaves_alone (\<lambda>n. n \<in> ?P) ?P (view w) (view w')" and ids: "set (map vol_ID vols) = ?P"
      and sh: "\<forall>vol \<in> set vols. \<exists>x. view w (vol_ID vol) = Some x \<and> vol_shows x vol"
      and fates: "\<forall>vol \<in> set vols. fate (\<lambda>n. n \<in> ?P) vol (vol_ID vol \<in> set failed) (view w) (view w')"
    show ?thesis
    proof (cases "n \<in> ?P")
      case False
      then have "core (view w') n = core (view w) n"
        using alone assms(5) by (simp add: leaves_alone_def same_def)
      then show ?thesis using core_cong(1,2) by blast
    next
      case True
      then obtain vol where vol: "vol \<in> set vols" "vol_ID vol = n" unfolding ids [symmetric] by auto
      then have st: "vstate (view w) n = Some (vol_State vol)" using sh by (auto simp: vstate_def vol_shows_def)
      have f: "fate (\<lambda>n. n \<in> ?P) vol (n \<in> set failed) (view w) (view w')" using fates vol by auto
      have same: "content (view w') n = content (view w) n \<and> vstate (view w') n = vstate (view w) n"
        if "same n (view w) (view w')"
        using that core_cong(1,2) [of "view w'" n "view w" n] by (simp add: same_def)
      show ?thesis
        using f st assms(6) vol(2) same by (cases "vol_State vol") (auto simp: fate_def Let_def)
    qed
  qed auto
qed

theorem Recover_keeps_data_witness:
  "content (map_of (snd (Recover demo_client demo_cfg demo_host))) ''q'' = Some (\<lambda>i. of_nat i) \<and>
   vstate (map_of (snd (Recover demo_client demo_cfg demo_host))) ''q'' = Some StateCommitting"
  using Recover_keeps_data [OF demo_node demo_wf demo_all_names, OF prod.collapse [symmetric], of "''q''"]
  by (auto simp: content_def demo_lv_def)

end
