(* ===== verification/Digest.thy ===== *)
theory Digest
  imports Volumes
begin

text \<open>
  Content digests, the device reader and the device copy: \<^verbatim>\<open>internal/storage/digest.go\<close>,
  \<^verbatim>\<open>internal/storage/reader.go\<close> and \<^verbatim>\<open>internal/storage/copy.go\<close>. The hash function is the parameter \<open>H\<close> (sha256
  in the program); a builder is the byte sequence written to the outer hash so far. A device is a
  parameter too: the operations of \<open>devio\<close> open, read, write and sync the device node of a path.

  \<open>chunks\<close> and \<open>content_digest\<close> are the specification: the digest of a content, and the frames that
  carry it. The loops of the source are shown to compute them.
\<close>

section \<open>The digest\<close>

definition TransferChunkBytes :: u64 where
  "TransferChunkBytes = 1048576"

definition chunk_len :: nat where
  "chunk_len = unat TransferChunkBytes"

type_synonym hash = "bytes \<Rightarrow> bytes"
type_synonym DigestBuilder = bytes

definition zeros :: "nat \<Rightarrow> bytes" where
  "zeros n = replicate n 0"

definition zeroChunkHash :: "hash \<Rightarrow> bytes" where
  "zeroChunkHash H = H (zeros chunk_len)"

definition NewDigestBuilder :: DigestBuilder where
  "NewDigestBuilder = []"

definition AddChunk :: "hash \<Rightarrow> DigestBuilder \<Rightarrow> bytes \<Rightarrow> DigestBuilder" where
  "AddChunk H b data = b @ H data"

definition AddZeroChunk :: "hash \<Rightarrow> DigestBuilder \<Rightarrow> u64 \<Rightarrow> DigestBuilder" where
  "AddZeroChunk H b n = (if n \<ge> TransferChunkBytes then b @ zeroChunkHash H else b @ H (zeros (unat n)))"

text \<open>The big-endian bytes of a size.\<close>

definition PutUint64 :: "u64 \<Rightarrow> bytes" where
  "PutUint64 n = map (\<lambda>i. ucast (drop_bit (8 * i) n)) [7, 6, 5, 4, 3, 2, 1, 0]"

definition Sum :: "hash \<Rightarrow> DigestBuilder \<Rightarrow> u64 \<Rightarrow> bytes \<times> DigestBuilder" where
  "Sum H b n = (let b' = b @ PutUint64 n in (H b', b'))"

section \<open>Reading a device\<close>

record Frame =
  fr_Offset :: u64
  fr_Data :: bytes

text \<open>
  The operations on device nodes: open a path for reading, seek to its end (the answer is the offset)
  and back, open it for writing, read a range, write a range, sync. Closing is not observable.
\<close>

record 'w devio =
  d_open :: "string \<Rightarrow> ('w, err, unit) go"
  d_seek_end :: "string \<Rightarrow> ('w, err, int) go"
  d_seek_start :: "string \<Rightarrow> ('w, err, unit) go"
  d_openw :: "string \<Rightarrow> ('w, err, unit) go"
  d_read :: "string \<Rightarrow> u64 \<Rightarrow> nat \<Rightarrow> ('w, err, bytes) go"
  d_write :: "string \<Rightarrow> u64 \<Rightarrow> bytes \<Rightarrow> ('w, err, unit) go"
  d_sync :: "string \<Rightarrow> ('w, err, unit) go"

text \<open>
  The read loop, from \<open>offset\<close> on. \<open>cancelled\<close> is the context: whether it is done by the time the
  chunk at an offset is read. The loop counts the bytes that are left, which is the loop condition
  \<^verbatim>\<open>offset < size\<close>: sizes come from a signed 64-bit seek, so the offset does not wrap around.
\<close>

function read_loop ::
  "hash \<Rightarrow> 'w devio \<Rightarrow> (u64 \<Rightarrow> err option) \<Rightarrow> string \<Rightarrow> (Frame \<Rightarrow> ('w, err, unit) go) \<Rightarrow>
   u64 \<Rightarrow> nat \<Rightarrow> DigestBuilder \<Rightarrow> ('w, err, DigestBuilder) go" where
  "read_loop H io cancelled path sink offset left b =
     (if left = 0 then ret b
      else case cancelled offset of
        Some e \<Rightarrow> fail e
      | None \<Rightarrow>
          let n = min chunk_len left in
          seqE (mapErr (\<lambda>e. Wrap (''reading '' @ path @ '' at '' @ FormatUint offset @ '': '') e []) (d_read io path offset n)) (\<lambda>chunk.
          if chunk = zeros n
          then read_loop H io cancelled path sink (offset + TransferChunkBytes) (left - n) (AddZeroChunk H b (of_nat n))
          else seqE (sink \<lparr>fr_Offset = offset, fr_Data = chunk\<rparr>) (\<lambda>_.
            read_loop H io cancelled path sink (offset + TransferChunkBytes) (left - n) (AddChunk H b chunk))))"
  by pat_completeness auto
termination
  by (relation "measure (\<lambda>(_, _, _, _, _, _, left, _). left)") (auto simp: chunk_len_def TransferChunkBytes_def)

declare read_loop.simps [simp del]

definition ReadDevice ::
  "hash \<Rightarrow> 'w devio \<Rightarrow> (u64 \<Rightarrow> err option) \<Rightarrow> string \<Rightarrow> (Frame \<Rightarrow> ('w, err, unit) go) \<Rightarrow>
   ('w, err, u64 \<times> bytes) go" where
  "ReadDevice H io cancelled path sink =
     seqE (mapErr (\<lambda>e. Wrap (''opening '' @ path @ '': '') e []) (d_open io path)) (\<lambda>_.
     seqE (mapErr (\<lambda>e. Wrap (''sizing '' @ path @ '': '') e []) (d_seek_end io path)) (\<lambda>endOffset.
     if endOffset < 0 then fail (Errorf (''sizing '' @ path @ '': %!w(<nil>)''))
     else let sz = of_int endOffset in
       seqE (mapErr (\<lambda>e. Wrap (''rewinding '' @ path @ '': '') e []) (d_seek_start io path)) (\<lambda>_.
       seqE (read_loop H io cancelled path sink 0 (unat sz) NewDigestBuilder) (\<lambda>b.
       ret (sz, fst (Sum H b sz))))))"

definition CopyDevice ::
  "hash \<Rightarrow> 'w devio \<Rightarrow> (u64 \<Rightarrow> err option) \<Rightarrow> string \<Rightarrow> string \<Rightarrow> (u64 \<Rightarrow> 'w \<Rightarrow> 'w) \<Rightarrow> ('w, err, unit) go" where
  "CopyDevice H io cancelled sourcePath targetPath progress =
     seqE (mapErr (\<lambda>e. Wrap ''opening copy target: '' e []) (d_openw io targetPath)) (\<lambda>_.
     seqE (ReadDevice H io cancelled sourcePath (\<lambda>frame.
        seqE (mapErr (\<lambda>e. Wrap (''writing copy at '' @ FormatUint (fr_Offset frame) @ '': '') e [])
                (d_write io targetPath (fr_Offset frame) (fr_Data frame))) (\<lambda>_ w.
          (Inr (), progress (fr_Offset frame + of_nat (length (fr_Data frame))) w)))) (\<lambda>_.
     mapErr (\<lambda>e. Wrap ''syncing copy target: '' e []) (d_sync io targetPath)))"

section \<open>Specification\<close>

function chunks :: "nat \<Rightarrow> 'a list \<Rightarrow> 'a list list" where
  "chunks n xs = (if n = 0 \<or> xs = [] then [] else take n xs # chunks n (drop n xs))"
  by pat_completeness auto
termination by (relation "measure (length \<circ> snd)") auto

declare chunks.simps [simp del]

definition content_digest :: "hash \<Rightarrow> bytes \<Rightarrow> bytes" where
  "content_digest H xs = H (concat (map H (chunks chunk_len xs)) @ PutUint64 (of_nat (length xs)))"

text \<open>The frames of a content from an offset on: its chunks that are not all zero, in order.\<close>

function frames_from :: "u64 \<Rightarrow> bytes \<Rightarrow> Frame list" where
  "frames_from offset xs =
     (if xs = [] then []
      else (if take chunk_len xs = zeros (length (take chunk_len xs)) then []
            else [\<lparr>fr_Offset = offset, fr_Data = take chunk_len xs\<rparr>]) @
           frames_from (offset + TransferChunkBytes) (drop chunk_len xs))"
  by pat_completeness auto
termination
  by (relation "measure (length \<circ> snd)") (auto simp: chunk_len_def TransferChunkBytes_def)

declare frames_from.simps [simp del]

text \<open>Run an action on each element, stopping at the first error.\<close>

fun each :: "('a \<Rightarrow> ('w, 'e, unit) go) \<Rightarrow> 'a list \<Rightarrow> ('w, 'e, unit) go" where
  "each f [] = ret ()"
| "each f (x # xs) = seqE (f x) (\<lambda>_. each f xs)"


lemma each_append: "each f (xs @ ys) = seqE (each f xs) (\<lambda>_. each f ys)"
  by (induction xs) (simp_all add: seqE_assoc)

lemma chunk_len_pos [simp]: "0 < chunk_len" "chunk_len \<noteq> 0"
  by (simp_all add: chunk_len_def TransferChunkBytes_def)

lemma AddZeroChunk_eq:
  assumes "n \<le> chunk_len"
  shows "AddZeroChunk H b (of_nat n) = AddChunk H b (zeros n)"
proof -
  have "n < 2 ^ 64" using assms by (simp add: chunk_len_def TransferChunkBytes_def)
  then have u: "unat (of_nat n :: u64) = n" by (simp add: unat_of_nat take_bit_eq_mod)
  show ?thesis
  proof (cases "n = chunk_len")
    case True
    then show ?thesis
      by (simp add: AddZeroChunk_def AddChunk_def zeroChunkHash_def chunk_len_def)
  next
    case False
    then have "\<not> TransferChunkBytes \<le> of_nat n"
      using assms u by (simp add: word_le_nat_alt chunk_len_def)
    then show ?thesis using u by (simp add: AddZeroChunk_def AddChunk_def)
  qed
qed

text \<open>A device whose reads deliver the content \<open>xs\<close>, whatever else happens to the host.\<close>

definition serves :: "'w devio \<Rightarrow> string \<Rightarrow> bytes \<Rightarrow> bool" where
  "serves io path xs \<longleftrightarrow>
     length xs < 2 ^ 63 \<and> d_open io path = ret () \<and> d_seek_end io path = ret (int (length xs)) \<and>
     d_seek_start io path = ret () \<and>
     (\<forall>off n. unat off + n \<le> length xs \<longrightarrow> d_read io path off n = ret (take n (drop (unat off) xs)))"

lemma next_offset:
  assumes "unat (offset :: u64) < 2 ^ 63"
  shows "unat (offset + TransferChunkBytes) = unat offset + chunk_len"
  using assms by (simp add: unat_word_ariths chunk_len_def TransferChunkBytes_def)

lemma mapErr_ret [simp]: "mapErr g (ret a) = ret a"
  by (rule ext) (simp add: mapErr_def ret_def)

lemma read_loop_spec:
  assumes s: "serves io path xs"
    and "left = length ys" and "ys = [] \<or> ys = drop (unat offset) xs"
  shows "read_loop H io (\<lambda>_. None) path sink offset left b =
    seqE (each sink (frames_from offset ys)) (\<lambda>_. ret (b @ concat (map H (chunks chunk_len ys))))"
  using assms(2,3)
proof (induction left arbitrary: offset ys b rule: less_induct)
  case (less left)
  show ?case
  proof (cases "ys = []")
    case True
    then show ?thesis using less.prems(1)
      by (subst read_loop.simps) (simp add: frames_from.simps chunks.simps ret_eta)
  next
    case False
    let ?c = "take chunk_len ys" and ?r = "drop chunk_len ys"
    let ?n = "min chunk_len left"
    have ys: "ys = drop (unat offset) xs" using less.prems(2) False by simp
    have off: "unat offset < length xs" "length xs < 2 ^ 63"
      using False ys s by (auto simp: serves_def)
    have n: "?n = length ?c" using less.prems(1) by simp
    have rd: "d_read io path offset ?n = ret ?c"
    proof -
      have "d_read io path offset ?n = ret (take ?n (drop (unat offset) xs))"
        using s off less.prems(1) ys by (auto simp: serves_def)
      moreover have "take ?n ys = ?c" using less.prems(1) by (auto simp: min_def)
      ultimately show ?thesis using ys by simp
    qed
    have rest: "read_loop H io (\<lambda>_. None) path sink (offset + TransferChunkBytes) (left - ?n) b' =
        seqE (each sink (frames_from (offset + TransferChunkBytes) ?r))
          (\<lambda>_. ret (b' @ concat (map H (chunks chunk_len ?r))))" for b'
    proof (rule less.IH)
      show "left - ?n < left" using False less.prems(1) chunk_len_pos(1) by (simp add: less.prems(1))
      show "left - ?n = length ?r" using less.prems(1) by simp
      have "unat (offset + TransferChunkBytes) = unat offset + chunk_len"
        using off by (intro next_offset) simp
      then show "?r = [] \<or> ?r = drop (unat (offset + TransferChunkBytes)) xs"
        using ys by (simp add: add.commute)
    qed
    have ch: "chunks chunk_len ys = ?c # chunks chunk_len ?r" using False by (subst chunks.simps) simp
    have zero: "AddZeroChunk H b (of_nat ?n) = AddChunk H b ?c" if "?c = zeros ?n"
      using AddZeroChunk_eq [of ?n H b] that by simp
    have step: "read_loop H io (\<lambda>_. None) path sink offset left b =
        (if ?c = zeros ?n
         then read_loop H io (\<lambda>_. None) path sink (offset + TransferChunkBytes) (left - ?n) (AddChunk H b ?c)
         else seqE (sink \<lparr>fr_Offset = offset, fr_Data = ?c\<rparr>) (\<lambda>_.
           read_loop H io (\<lambda>_. None) path sink (offset + TransferChunkBytes) (left - ?n) (AddChunk H b ?c)))"
    proof -
      have left: "left \<noteq> 0" using False less.prems(1) by simp
      show ?thesis by (subst read_loop.simps) (simp add: left Let_def rd zero)
    qed
    show ?thesis
      unfolding step rest ch
      by (subst frames_from.simps) (use False n in \<open>simp add: each_append seqE_assoc AddChunk_def\<close>)
  qed
qed

lemma ReadDevice_spec:
  assumes s: "serves io path xs"
  shows "ReadDevice H io (\<lambda>_. None) path sink =
    seqE (each sink (frames_from 0 xs)) (\<lambda>_. ret (of_nat (length xs), content_digest H xs))"
proof -
  have len: "length xs < 2 ^ 63" using s by (simp add: serves_def)
  then have "unat (of_nat (length xs) :: u64) = length xs" by (simp add: unat_of_nat take_bit_eq_mod)
  then have "read_loop H io (\<lambda>_. None) path sink 0 (unat (of_nat (length xs) :: u64)) NewDigestBuilder =
      seqE (each sink (frames_from 0 xs)) (\<lambda>_. ret (concat (map H (chunks chunk_len xs))))"
    using read_loop_spec [OF s, of "length xs" xs 0 H sink "[]"] by (simp add: NewDigestBuilder_def)
  then show ?thesis
    using s by (simp add: ReadDevice_def serves_def Let_def seqE_assoc Sum_def content_digest_def)
      (simp add: ret_eta)
qed

section \<open>Writing the frames reproduces the content\<close>

definition put :: "u64 \<Rightarrow> bytes \<Rightarrow> bytes \<Rightarrow> bytes" where
  "put off data xs = take (unat off) xs @ data @ drop (unat off + length data) xs"

definition put_frame :: "bytes \<Rightarrow> Frame \<Rightarrow> bytes" where
  "put_frame xs f = put (fr_Offset f) (fr_Data f) xs"

lemma length_put: "unat off + length data \<le> length xs \<Longrightarrow> length (put off data xs) = length xs"
  by (simp add: put_def)

lemma zeros_append: "zeros (m + n) = zeros m @ zeros n"
  by (simp add: zeros_def replicate_add)

lemma drop_zeros [simp]: "drop m (zeros n) = zeros (n - m)"
  by (simp add: zeros_def)

lemma length_zeros [simp]: "length (zeros n) = n" "zeros 0 = []"
  by (simp_all add: zeros_def)

lemma put_frames_content:
  assumes "length pre = unat off \<or> ys = []" and "length pre + length ys < 2 ^ 63"
  shows "foldl put_frame (pre @ zeros (length ys)) (frames_from off ys) = pre @ ys"
  using assms
proof (induction off ys arbitrary: pre rule: frames_from.induct)
  case (1 off ys)
  show ?case
  proof (cases "ys = []")
    case True
    then show ?thesis by (simp add: frames_from.simps zeros_def)
  next
    case False
    let ?c = "take chunk_len ys" and ?r = "drop chunk_len ys"
    have pre: "length pre = unat off" using 1(2) False by simp
    then have nx: "unat (off + TransferChunkBytes) = unat off + chunk_len"
      using 1(3) by (intro next_offset) simp
    have IH: "foldl put_frame ((pre @ ?c) @ zeros (length ?r)) (frames_from (off + TransferChunkBytes) ?r) = (pre @ ?c) @ ?r"
    proof (rule 1(1) [OF False])
      show "length (pre @ ?c) = unat (off + TransferChunkBytes) \<or> ?r = []" using pre nx by auto
      show "length (pre @ ?c) + length ?r < 2 ^ 63" using 1(3) by simp
    qed
    have split: "zeros (length ys) = zeros (length ?c) @ zeros (length ?r)"
      by (simp add: zeros_append [symmetric] del: length_take length_drop)
        (metis append_take_drop_id length_append)
    have first: "(if ?c = zeros (length ?c) then pre @ zeros (length ys)
        else put_frame (pre @ zeros (length ys)) \<lparr>fr_Offset = off, fr_Data = ?c\<rparr>) = (pre @ ?c) @ zeros (length ?r)"
      using pre split by (auto simp: put_frame_def put_def)
    have "foldl put_frame (pre @ zeros (length ys)) (frames_from off ys) =
        foldl put_frame (if ?c = zeros (length ?c) then pre @ zeros (length ys)
          else put_frame (pre @ zeros (length ys)) \<lparr>fr_Offset = off, fr_Data = ?c\<rparr>)
        (frames_from (off + TransferChunkBytes) ?r)"
      using False by (subst frames_from.simps) simp
    then show ?thesis using IH first by simp
  qed
qed

text \<open>Each frame lies inside the content, at a chunk boundary, and is not empty.\<close>

lemma frames_bounds:
  assumes "f \<in> set (frames_from off ys)" and "unat off + length ys < 2 ^ 63"
  shows "unat off \<le> unat (fr_Offset f) \<and> unat (fr_Offset f) + length (fr_Data f) \<le> unat off + length ys \<and>
    fr_Data f \<noteq> [] \<and> length (fr_Data f) \<le> chunk_len"
  using assms
proof (induction off ys rule: frames_from.induct)
  case (1 off ys)
  then have ne: "ys \<noteq> []" by (auto simp: frames_from.simps)
  have nx: "unat (off + TransferChunkBytes) = unat off + chunk_len"
    using 1(3) by (intro next_offset) simp
  from 1(2) ne consider (here) "f = \<lparr>fr_Offset = off, fr_Data = take chunk_len ys\<rparr>"
    | (later) "f \<in> set (frames_from (off + TransferChunkBytes) (drop chunk_len ys))"
    by (subst (asm) frames_from.simps) (auto split: if_splits)
  then show ?case
  proof cases
    case here
    then show ?thesis using ne by simp
  next
    case later
    then have "drop chunk_len ys \<noteq> []" by (auto simp: frames_from.simps)
    then have "chunk_len < length ys" by simp
    then show ?thesis using 1(1) [OF ne later] 1(3) nx by simp
  qed
qed

text \<open>A target whose writes land: \<open>get\<close> reads its content back.\<close>

definition lands :: "'w devio \<Rightarrow> string \<Rightarrow> ('w \<Rightarrow> bytes) \<Rightarrow> bool" where
  "lands io path get \<longleftrightarrow>
     (\<forall>w. \<exists>w'. d_openw io path w = (Inr (), w') \<and> get w' = get w) \<and>
     (\<forall>w. \<exists>w'. d_sync io path w = (Inr (), w') \<and> get w' = get w) \<and>
     (\<forall>w off data. unat off + length data \<le> length (get w) \<longrightarrow>
        (\<exists>w'. d_write io path off data w = (Inr (), w') \<and> get w' = put off data (get w)))"

lemma each_writes:
  assumes act: "\<And>f w. unat (fr_Offset f) + length (fr_Data f) \<le> length (get w) \<Longrightarrow>
      \<exists>w'. act f w = (Inr (), w') \<and> get w' = put_frame (get w) f"
    and "\<And>f. f \<in> set fs \<Longrightarrow> unat (fr_Offset f) + length (fr_Data f) \<le> length (get w)"
  shows "\<exists>w'. each act fs w = (Inr (), w') \<and> get w' = foldl put_frame (get w) fs"
  using assms(2)
proof (induction fs arbitrary: w)
  case (Cons f fs)
  have b: "unat (fr_Offset f) + length (fr_Data f) \<le> length (get w)" using Cons.prems by simp
  from act [OF b] obtain w1 where w1: "act f w = (Inr (), w1)" "get w1 = put_frame (get w) f" by blast
  then have "length (get w1) = length (get w)" using b by (simp add: put_frame_def length_put)
  then obtain w' where "each act fs w1 = (Inr (), w') \<and> get w' = foldl put_frame (get w1) fs"
    using Cons.IH [of w1] Cons.prems by fastforce
  then show ?case using w1 by (simp add: seqE_Inr)
qed simp

lemma CopyDevice_copies:
  assumes s: "serves io src xs" and l: "lands io dst get" and p: "\<And>n w. get (progress n w) = get w"
    and w: "get w = zeros (length xs)"
  shows "\<exists>w'. CopyDevice H io (\<lambda>_. None) src dst progress w = (Inr (), w') \<and> get w' = xs"
proof -
  let ?act = "\<lambda>frame. seqE (mapErr (\<lambda>e. Wrap (''writing copy at '' @ FormatUint (fr_Offset frame) @ '': '') e [])
        (d_write io dst (fr_Offset frame) (fr_Data frame))) (\<lambda>_ w.
          (Inr (), progress (fr_Offset frame + of_nat (length (fr_Data frame))) w))"
  have len: "length xs < 2 ^ 63" using s by (simp add: serves_def)
  have act: "\<exists>w'. ?act f w = (Inr (), w') \<and> get w' = put_frame (get w) f"
    if b: "unat (fr_Offset f) + length (fr_Data f) \<le> length (get w)" for f w
  proof -
    from l b obtain w1 where "d_write io dst (fr_Offset f) (fr_Data f) w = (Inr (), w1)"
      and "get w1 = put (fr_Offset f) (fr_Data f) (get w)" unfolding lands_def by blast
    then show ?thesis by (simp add: seqE_def mapErr_def p put_frame_def)
  qed
  obtain w1 where w1: "d_openw io dst w = (Inr (), w1)" "get w1 = zeros (length xs)"
    using l w unfolding lands_def by metis
  have "\<exists>w2. each ?act (frames_from 0 xs) w1 = (Inr (), w2) \<and> get w2 = foldl put_frame (get w1) (frames_from 0 xs)"
  proof (rule each_writes [OF act])
    fix f
    assume "f \<in> set (frames_from 0 xs)"
    from frames_bounds [OF this] show "unat (fr_Offset f) + length (fr_Data f) \<le> length (get w1)"
      using len w1(2) by simp
  qed auto
  then obtain w2 where w2: "each ?act (frames_from 0 xs) w1 = (Inr (), w2)" "get w2 = xs"
    using put_frames_content [of "[]" 0 xs] len w1(2) by auto
  obtain w3 where "d_sync io dst w2 = (Inr (), w3)" "get w3 = xs"
    using l w2(2) unfolding lands_def by metis
  then show ?thesis
    using w1(1) w2(1) unfolding CopyDevice_def ReadDevice_spec [OF s]
    by (simp add: seqE_def mapErr_def)
qed

section \<open>Theorems\<close>

lemma each_collect: "each (\<lambda>f w. (Inr (), w @ [f])) fs w = (Inr (), w @ fs)"
  by (induction fs arbitrary: w) (simp_all add: ret_def seqE_def)

text \<open>
  Reading a device with the content \<open>xs\<close>: the sink sees, in order, the chunks that are not all zero,
  each inside the content and with its offset; written onto zeros they are \<open>xs\<close> again. The result is
  the size and the digest of \<open>xs\<close>, in which the skipped chunks count.
\<close>

theorem ReadDevice_frames:
  assumes "serves io path xs"
  shows "ReadDevice H io (\<lambda>_. None) path (\<lambda>f fs. (Inr (), fs @ [f])) [] =
      (Inr (of_nat (length xs), content_digest H xs), frames_from 0 xs) \<and>
    foldl put_frame (zeros (length xs)) (frames_from 0 xs) = xs \<and>
    (\<forall>f \<in> set (frames_from 0 xs). unat (fr_Offset f) + length (fr_Data f) \<le> length xs \<and>
       fr_Data f \<noteq> [] \<and> length (fr_Data f) \<le> chunk_len)"
proof -
  have len: "length xs < 2 ^ 63" using assms by (simp add: serves_def)
  have "ReadDevice H io (\<lambda>_. None) path (\<lambda>f fs. (Inr (), fs @ [f])) [] =
      (Inr (of_nat (length xs), content_digest H xs), frames_from 0 xs)"
    unfolding ReadDevice_spec [OF assms] by (simp add: seqE_def each_collect ret_def)
  moreover have "foldl put_frame (zeros (length xs)) (frames_from 0 xs) = xs"
    using put_frames_content [of "[]" 0 xs] len by simp
  moreover have "unat (fr_Offset f) + length (fr_Data f) \<le> length xs \<and> fr_Data f \<noteq> [] \<and> length (fr_Data f) \<le> chunk_len"
    if "f \<in> set (frames_from 0 xs)" for f
    using frames_bounds [OF that] len by simp
  ultimately show ?thesis by blast
qed

text \<open>A device with a fixed content, next to a writable one.\<close>

definition fixed_io :: "bytes \<Rightarrow> ('w \<Rightarrow> u64 \<Rightarrow> bytes \<Rightarrow> 'w) \<Rightarrow> 'w devio" where
  "fixed_io xs store =
     \<lparr>d_open = (\<lambda>_. ret ()), d_seek_end = (\<lambda>_. ret (int (length xs))), d_seek_start = (\<lambda>_. ret ()),
      d_openw = (\<lambda>_. ret ()), d_read = (\<lambda>_ off n. ret (take n (drop (unat off) xs))),
      d_write = (\<lambda>_ off data w. (Inr (), store w off data)), d_sync = (\<lambda>_. ret ())\<rparr>"

lemma fixed_serves: "length xs < 2 ^ 63 \<Longrightarrow> serves (fixed_io xs store) path xs"
  by (simp add: serves_def fixed_io_def)

lemma fixed_lands: "lands (fixed_io xs (\<lambda>w off data. put off data w)) path (\<lambda>w. w)"
  by (simp add: lands_def fixed_io_def ret_def)

theorem ReadDevice_frames_witness:
  "ReadDevice (\<lambda>x. x) (fixed_io [5, 0] (\<lambda>w _ _. w)) (\<lambda>_. None) ''/dev/vg0/s'' (\<lambda>f fs. (Inr (), fs @ [f])) [] =
    (Inr (2, content_digest (\<lambda>x. x) [5, 0]), frames_from 0 [5, 0])"
  using ReadDevice_frames [OF fixed_serves, of "[5, 0]" "\<lambda>x. x" "\<lambda>w _ _. w" "''/dev/vg0/s''"] by simp

text \<open>
  C34. Copying a device with the content \<open>xs\<close> onto a zeroed one of the same size succeeds when its calls
  do, and leaves \<open>xs\<close> on it.
\<close>

theorem CopyDevice_correct:
  assumes "serves io src xs" and "lands io dst get" and "\<And>n w. get (progress n w) = get w"
    and "get w = zeros (length xs)"
  shows "\<exists>w'. CopyDevice H io (\<lambda>_. None) src dst progress w = (Inr (), w') \<and> get w' = xs"
  by (rule CopyDevice_copies [OF assms])

theorem CopyDevice_correct_witness:
  "CopyDevice (\<lambda>x. x) (fixed_io [5, 0, 6] (\<lambda>w off data. put off data w)) (\<lambda>_. None) ''/dev/vg0/s'' ''/dev/vg0/n''
     (\<lambda>_ w. w) [0, 0, 0] = (Inr (), [5, 0, 6])"
  using CopyDevice_correct [OF fixed_serves fixed_lands, of "[5, 0, 6]" "\<lambda>_ w. w" "[0, 0, 0]" "\<lambda>x. x" "''/dev/vg0/s''" "''/dev/vg0/n''"]
  by (auto simp: zeros_def)

end
