(* ===== verification/Transfers.thy ===== *)
theory Transfers
  imports Recover Digest
begin

text \<open>
  Inbound transfers: \<^verbatim>\<open>internal/storage/transfers.go\<close>. The table holds the live sessions, the ids that are
  used up and the ids that committed. Its methods run on the table and the host; a method of the
  source takes the table's lock for its reads and updates of the table; the two methods that release
  it and go on are split there, and the method is their composition. The expiry of a grace timer is
  an event of its own, \<open>grace_expired\<close>.

  The arithmetic on offsets is that of the source, modulo 2^64. The loops that hash skipped ranges
  count with such offsets too; they are partial functions, and a method that uses one answers \<open>None\<close>
  when the loop does not end.
\<close>

section \<open>The table\<close>

record session =
  ses_volumeID :: string
  ses_path :: string
  ses_sizeBytes :: u64
  ses_device :: bool
  ses_digest :: DigestBuilder
  ses_nextOffset :: u64
  ses_streaming :: bool
  ses_terminal :: bool
  ses_grace :: bool

record Transfers =
  tr_sessions :: "(string \<times> session) list"
  tr_dead :: "string \<Rightarrow> bool"
  tr_committed :: "string \<Rightarrow> bool"

type_synonym 'w node_state = "Transfers \<times> 'w"

definition NewTransfers :: Transfers where
  "NewTransfers = \<lparr>tr_sessions = [], tr_dead = (\<lambda>_. False), tr_committed = (\<lambda>_. False)\<rparr>"

definition new_session :: "string \<Rightarrow> u64 \<Rightarrow> session" where
  "new_session vid n =
     \<lparr>ses_volumeID = vid, ses_path = [], ses_sizeBytes = n, ses_device = False, ses_digest = NewDigestBuilder,
      ses_nextOffset = 0, ses_streaming = False, ses_terminal = False, ses_grace = False\<rparr>"

definition the_session :: "Transfers \<Rightarrow> string \<Rightarrow> session option" where
  "the_session t tid = map_of (tr_sessions t) tid"

definition set_session :: "string \<Rightarrow> session \<Rightarrow> Transfers \<Rightarrow> Transfers" where
  "set_session tid s t = t\<lparr>tr_sessions := AList.update tid s (tr_sessions t)\<rparr>"

definition live_sessions :: "Transfers \<Rightarrow> nat" where
  "live_sessions t = length (filter (\<lambda>p. \<not> ses_terminal (snd p)) (tr_sessions t))"

definition finish :: "string \<Rightarrow> Transfers \<Rightarrow> Transfers" where
  "finish tid t =
     (case the_session t tid of
        None \<Rightarrow> t
      | Some s \<Rightarrow> t\<lparr>tr_sessions := AList.delete tid (tr_sessions t), tr_dead := (tr_dead t)(tid := True)\<rparr>)"

definition destroy :: "'w Client \<Rightarrow> Config \<Rightarrow> string \<Rightarrow> 'w node_state \<Rightarrow> 'w node_state" where
  "destroy c cfg tid st =
     (let (t, w) = st in
      case the_session t tid of
        None \<Rightarrow> (t, w)
      | Some s \<Rightarrow>
          if ses_terminal s then (t, w)
          else (finish tid t, snd (RemoveVolume c cfg (ses_volumeID s) w)))"

definition armGrace :: "session \<Rightarrow> session" where
  "armGrace s = s\<lparr>ses_grace := True\<rparr>"

definition grace_expired :: "'w Client \<Rightarrow> Config \<Rightarrow> string \<Rightarrow> 'w node_state \<Rightarrow> 'w node_state" where
  "grace_expired c cfg tid st =
     (case the_session (fst st) tid of
        Some s \<Rightarrow> if ses_grace s then destroy c cfg tid st else st
      | None \<Rightarrow> st)"

section \<open>Methods\<close>

text \<open>
  A prepare has two parts: under the lock it reserves the id, then it runs the lvm commands and arms
  the grace timer. Other calls can run in between. The session the second part updates is the one in
  the table, unless another call ended it: then the update goes to an object nothing refers to.
\<close>

definition prepare_reserve :: "Config \<Rightarrow> string \<Rightarrow> string \<Rightarrow> u64 \<Rightarrow> Transfers \<Rightarrow> err + Transfers" where
  "prepare_reserve cfg tid vid n t =
     (if tr_dead t tid \<or> the_session t tid \<noteq> None then Inl (sentinel_err ErrTransferUsed tid)
      else if int (live_sessions t) \<ge> cfg_MaxInboundTransfers cfg
      then Inl (sentinel_err ErrTransferLimit (FormatInt (int (live_sessions t))))
      else Inr (set_session tid (new_session vid n) t))"

definition prepare_land ::
  "'w Client \<Rightarrow> Config \<Rightarrow> string \<Rightarrow> string \<Rightarrow> u64 \<Rightarrow> ('w node_state, err, unit) go" where
  "prepare_land c cfg tid vid n st =
     (let (t, w) = st in
      case wrap (''creating incoming volume '' @ vid)
          (CreateThinVolume c (cfg_VolumeGroup cfg) (cfg_ThinPool cfg) vid n
             (thin_opts [StateTag StateIncoming, transferTagPrefix @ tid] None)) w of
        (Inl e, w1) \<Rightarrow> (Inl e, (finish tid t, w1))
      | (Inr _, w1) \<Rightarrow>
          (case GetVolume c cfg vid w1 of
             (Inl e, w2) \<Rightarrow> (Inl e, destroy c cfg tid (t, w2))
           | (Inr volume, w2) \<Rightarrow>
               (Inr (),
                (case the_session t tid of
                   None \<Rightarrow> t
                 | Some s \<Rightarrow> set_session tid (armGrace (s\<lparr>ses_path := vol_Path volume\<rparr>)) t, w2))))"

definition PrepareReceive ::
  "'w Client \<Rightarrow> Config \<Rightarrow> string \<Rightarrow> string \<Rightarrow> u64 \<Rightarrow> ('w node_state, err, unit) go" where
  "PrepareReceive c cfg tid vid n st =
     (let (t, w) = st in
      case prepare_reserve cfg tid vid n t of
        Inl e \<Rightarrow> (Inl e, (t, w))
      | Inr t1 \<Rightarrow> prepare_land c cfg tid vid n (t1, w))"

definition NextOffset :: "string \<Rightarrow> Transfers \<Rightarrow> err + u64" where
  "NextOffset tid t =
     (case the_session t tid of
        None \<Rightarrow> Inl (sentinel_err ErrTransferUnknown tid)
      | Some s \<Rightarrow>
          if ses_terminal s then Inl (sentinel_err ErrTransferUnknown tid) else Inr (ses_nextOffset s))"

definition tr_Attach :: "string \<Rightarrow> Transfers \<Rightarrow> (err + unit) \<times> Transfers" where
  "tr_Attach tid t =
     (case the_session t tid of
        None \<Rightarrow> (Inl (sentinel_err ErrTransferUnknown tid), t)
      | Some s \<Rightarrow>
          if ses_terminal s then (Inl (sentinel_err ErrTransferUnknown tid), t)
          else if ses_streaming s then (Inl (sentinel_err ErrTransferBusy tid), t)
          else (Inr (), set_session tid (s\<lparr>ses_streaming := True, ses_grace := False\<rparr>) t))"

definition tr_Detach :: "string \<Rightarrow> Transfers \<Rightarrow> Transfers" where
  "tr_Detach tid t =
     (case the_session t tid of
        None \<Rightarrow> t
      | Some s \<Rightarrow> if ses_terminal s then t else set_session tid (armGrace (s\<lparr>ses_streaming := False\<rparr>)) t)"

text \<open>The loop that hashes the skipped range \<open>[gap, limit)\<close> as zero chunks.\<close>

partial_function (option) zero_fill ::
  "hash \<Rightarrow> u64 \<Rightarrow> u64 \<Rightarrow> u64 \<Rightarrow> DigestBuilder \<Rightarrow> DigestBuilder option" where
  "zero_fill H sz gap limit b =
     (if gap < limit
      then zero_fill H sz (gap + TransferChunkBytes) limit (AddZeroChunk H b (min TransferChunkBytes (sz - gap)))
      else Some b)"

definition bad_frame :: "string \<Rightarrow> err" where
  "bad_frame detail = sentinel_err ErrBadFrame detail"

definition check_frame :: "session \<Rightarrow> u64 \<Rightarrow> bytes \<Rightarrow> err option" where
  "check_frame s offset data =
     (let len = of_nat (length data) :: u64 in
      if offset mod TransferChunkBytes \<noteq> 0
      then Some (bad_frame (''offset '' @ FormatUint offset @ '' is not chunk aligned''))
      else if offset < ses_nextOffset s
      then Some (bad_frame (''offset '' @ FormatUint offset @ '' before '' @ FormatUint (ses_nextOffset s)))
      else if offset + len > ses_sizeBytes s
      then Some (bad_frame (''offset '' @ FormatUint offset @ '' length '' @ FormatInt (int (length data)) @
        '' beyond size '' @ FormatUint (ses_sizeBytes s)))
      else if length data = 0 \<or> length data > chunk_len
      then Some (bad_frame (''length '' @ FormatInt (int (length data))))
      else if len < TransferChunkBytes \<and> offset + len \<noteq> ses_sizeBytes s
      then Some (bad_frame (''short frame at '' @ FormatUint offset @ '' is not final''))
      else None)"

definition tr_Write ::
  "hash \<Rightarrow> 'w devio \<Rightarrow> string \<Rightarrow> u64 \<Rightarrow> bytes \<Rightarrow> 'w node_state \<Rightarrow> ((err + unit) \<times> 'w node_state) option" where
  "tr_Write H io tid offset data st =
     (let (t, w) = st in
      case the_session t tid of
        None \<Rightarrow> Some (Inl (sentinel_err ErrTransferUnknown tid), st)
      | Some s \<Rightarrow>
          case check_frame s offset data of
            Some e \<Rightarrow> Some (Inl e, st)
          | None \<Rightarrow>
              case (if ses_device s then ret () else mapErr (\<lambda>e. Wrap ''opening incoming volume: '' e []) (d_openw io (ses_path s))) w of
                (Inl e, w1) \<Rightarrow> Some (Inl e, (t, w1))
              | (Inr _, w1) \<Rightarrow>
                  case zero_fill H (ses_sizeBytes s) (ses_nextOffset s) offset (ses_digest s) of
                    None \<Rightarrow> None
                  | Some b \<Rightarrow>
                      let s1 = s\<lparr>ses_device := True, ses_digest := AddChunk H b data\<rparr> in
                      case d_write io (ses_path s) offset data w1 of
                        (Inl e, w2) \<Rightarrow>
                          Some (Inl (Wrap (''writing incoming volume at '' @ FormatUint offset @ '': '') e []),
                            (set_session tid s1 t, w2))
                      | (Inr _, w2) \<Rightarrow>
                          Some (Inr (), (set_session tid (s1\<lparr>ses_nextOffset := offset + of_nat (length data)\<rparr>) t, w2)))"

text \<open>
  A commit has two parts as well. The first decides under the lock, then completes the digest of the
  session and compares: its result is an error, nothing left to do (\<open>Inr None\<close>: the transfer has
  committed before), or the session to land. The second part syncs, deactivates and retags.
\<close>

definition commit_verify ::
  "hash \<Rightarrow> 'w Client \<Rightarrow> Config \<Rightarrow> string \<Rightarrow> bytes \<Rightarrow> 'w node_state \<Rightarrow>
   ((err + session option) \<times> 'w node_state) option" where
  "commit_verify H c cfg tid digest st =
     (let (t, w) = st in
      case the_session t tid of
        None \<Rightarrow>
          Some (if tr_committed t tid then Inr None else Inl (sentinel_err ErrTransferUnknown tid), st)
      | Some s \<Rightarrow>
          if ses_terminal s \<or> ses_streaming s
          then Some (if tr_committed t tid then Inr None
                     else if ses_streaming s then Inl (sentinel_err ErrTransferBusy tid)
                     else Inl (sentinel_err ErrTransferUnknown tid), st)
          else case zero_fill H (ses_sizeBytes s) (ses_nextOffset s) (ses_sizeBytes s) (ses_digest s) of
            None \<Rightarrow> None
          | Some b \<Rightarrow>
              let (sum, b') = Sum H b (ses_sizeBytes s); s1 = s\<lparr>ses_digest := b'\<rparr>; t1 = set_session tid s1 t in
              if sum \<noteq> digest
              then Some (Inl (sentinel_err ErrDigestMismatch tid), destroy c cfg tid (t1, w))
              else Some (Inr (Some s1), (t1, w)))"

definition land_volume ::
  "'w Client \<Rightarrow> Config \<Rightarrow> 'w devio \<Rightarrow> string \<Rightarrow> session \<Rightarrow> bool \<Rightarrow> ('w, err, unit) go" where
  "land_volume c cfg io tid s device =
     seqE (if device then mapErr (\<lambda>e. Wrap ''syncing incoming volume: '' e []) (d_sync io (ses_path s)) else ret ()) (\<lambda>_.
     seqE (wrap ''deactivating incoming volume''
             (DeactivateLogicalVolume c (lv_target cfg (ses_volumeID s)) no_common)) (\<lambda>_.
     wrap ''readying received volume''
       (ChangeLogicalVolume c (lv_target cfg (ses_volumeID s))
          (retag_opts [StateTag StateReady] [StateTag StateIncoming, transferTagPrefix @ tid] None))))"

definition commit_land ::
  "'w Client \<Rightarrow> Config \<Rightarrow> 'w devio \<Rightarrow> string \<Rightarrow> session \<Rightarrow> ('w node_state, err, unit) go" where
  "commit_land c cfg io tid s st =
     (let (t, w) = st; device = (case the_session t tid of None \<Rightarrow> False | Some s' \<Rightarrow> ses_device s') in
      case land_volume c cfg io tid s device w of
        (Inl e, w1) \<Rightarrow> (Inl e, destroy c cfg tid (t, w1))
      | (Inr _, w1) \<Rightarrow> (Inr (), (finish tid (t\<lparr>tr_committed := (tr_committed t)(tid := True)\<rparr>), w1)))"

definition Commit ::
  "hash \<Rightarrow> 'w Client \<Rightarrow> Config \<Rightarrow> 'w devio \<Rightarrow> string \<Rightarrow> bytes \<Rightarrow> 'w node_state \<Rightarrow>
   ((err + unit) \<times> 'w node_state) option" where
  "Commit H c cfg io tid digest st =
     (case commit_verify H c cfg tid digest st of
        None \<Rightarrow> None
      | Some (Inl e, st1) \<Rightarrow> Some (Inl e, st1)
      | Some (Inr None, st1) \<Rightarrow> Some (Inr (), st1)
      | Some (Inr (Some s), st1) \<Rightarrow> Some (commit_land c cfg io tid s st1))"

definition Abort :: "'w Client \<Rightarrow> Config \<Rightarrow> string \<Rightarrow> 'w node_state \<Rightarrow> 'w node_state" where
  "Abort c cfg tid st =
     (case the_session (fst st) tid of
        None \<Rightarrow> st
      | Some s \<Rightarrow> if ses_terminal s then st else destroy c cfg tid st)"

section \<open>Chunks\<close>

lemma chunks_append:
  assumes "n dvd length xs"
  shows "chunks n (xs @ ys) = chunks n xs @ chunks n ys"
  using assms
proof (induction n xs rule: chunks.induct)
  case (1 n xs)
  show ?case
  proof (cases "n = 0 \<or> xs = []")
    case True
    then show ?thesis by (auto simp: chunks.simps [of 0] chunks.simps [of n "[]"])
  next
    case False
    then have le: "n \<le> length xs" using 1(2) by (simp add: dvd_imp_le)
    have "n dvd length (drop n xs)" using 1(2) le by (simp add: dvd_diff_nat)
    then have "chunks n (drop n xs @ ys) = chunks n (drop n xs) @ chunks n ys"
      using 1(1) False by blast
    then show ?thesis
      using False le by (subst chunks.simps, subst (2) chunks.simps) simp
  qed
qed

lemma chunks_single: "ys \<noteq> [] \<Longrightarrow> length ys \<le> n \<Longrightarrow> chunks n ys = [ys]"
  by (subst chunks.simps) (cases ys; auto simp: chunks.simps [of n "[]"])

lemma chunks_take_next:
  assumes "chunk_len dvd n" and "n + c \<le> length xs" and "0 < c" and "c \<le> chunk_len"
  shows "chunks chunk_len (take (n + c) xs) = chunks chunk_len (take n xs) @ [take c (drop n xs)]"
proof -
  have "take (n + c) xs = take n xs @ take c (drop n xs)" by (simp add: take_add)
  moreover have "chunk_len dvd length (take n xs)" using assms by simp
  moreover have "chunks chunk_len (take c (drop n xs)) = [take c (drop n xs)]"
    using assms by (intro chunks_single) auto
  ultimately show ?thesis by (simp add: chunks_append)
qed

section \<open>The gap loops\<close>

lemma word_aligned_le:
  assumes "chunk_len dvd unat (g :: u64)"
  shows "unat g \<le> 2 ^ 64 - chunk_len"
proof -
  have "unat g < 2 ^ 64" using unsigned_less [of g] by simp
  moreover obtain k where "unat g = chunk_len * k" using assms by blast
  ultimately show ?thesis by (simp add: chunk_len_def TransferChunkBytes_def)
qed

lemma unat_add_chunk:
  "unat (g :: u64) + chunk_len < 2 ^ 64 \<Longrightarrow> unat (g + TransferChunkBytes) = unat g + chunk_len"
  by (simp add: unat_word_ariths chunk_len_def TransferChunkBytes_def)

text \<open>A loop whose limit leaves room for one more chunk below 2^64 ends.\<close>

lemma zero_fill_total:
  assumes "unat limit \<le> 2 ^ 64 - chunk_len"
  shows "\<exists>b'. zero_fill H sz gap limit b = Some b'"
proof (induction "unat limit - unat gap" arbitrary: gap b rule: less_induct)
  case less
  show ?case
  proof (cases "gap < limit")
    case True
    then have lt: "unat gap < unat limit" by (simp add: word_less_nat_alt)
    have "unat gap + chunk_len < 2 ^ 64"
      using lt assms by (simp add: chunk_len_def TransferChunkBytes_def)
    then have "unat limit - unat (gap + TransferChunkBytes) < unat limit - unat gap"
      using lt unat_add_chunk [of gap] chunk_len_pos(1) by linarith
    then show ?thesis using less True by (subst zero_fill.simps) simp
  next
    case False
    then show ?thesis by (subst zero_fill.simps) simp
  qed
qed

text \<open>The loop appends the hashes of the zero chunks it skips.\<close>

text \<open>One chunk of the loop, on the digest of the first \<open>n\<close> bytes.\<close>

lemma zero_fill_step:
  assumes xs: "length xs < 2 ^ 63" "unat sz = length xs" and gap: "unat gap = n" "unat limit = m" "n < m"
    and dvd: "chunk_len dvd n" and c: "c = min chunk_len (length xs - n)" "n + c \<le> m" "m \<le> length xs"
    and z: "take (m - n) (drop n xs) = zeros (m - n)"
  shows "zero_fill H sz gap limit (concat (map H (chunks chunk_len (take n xs)))) =
    zero_fill H sz (gap + TransferChunkBytes) limit (concat (map H (chunks chunk_len (take (n + c) xs))))"
proof -
  have "unat (sz - gap) = length xs - n" using xs gap c(3) by (simp add: unat_sub word_le_nat_alt)
  then have "unat (min TransferChunkBytes (sz - gap)) = c"
    by (auto simp: min_def word_le_nat_alt chunk_len_def c(1))
  then have w: "min TransferChunkBytes (sz - gap) = of_nat c" by (metis of_nat_unat ucast_id)
  have "take c (take (m - n) (drop n xs)) = take c (zeros (m - n))" using z by simp
  then have "take c (drop n xs) = zeros c" using c(2) by (simp add: zeros_def)
  moreover have "0 < c" "c \<le> chunk_len" using c gap(3) by auto
  ultimately have "AddZeroChunk H (concat (map H (chunks chunk_len (take n xs)))) (of_nat c) =
      concat (map H (chunks chunk_len (take (n + c) xs)))"
    using AddZeroChunk_eq [of c] chunks_take_next [OF dvd, of c xs] c(2,3) by (simp add: AddChunk_def)
  moreover have "gap < limit" using gap by (simp add: word_less_nat_alt)
  ultimately show ?thesis using w by (subst zero_fill.simps) simp
qed

lemma zero_fill_content:
  assumes xs: "length xs < 2 ^ 63" "unat sz = length xs"
    and "unat gap = n" "unat limit = m" and "n \<le> m" "m \<le> length xs"
    and "chunk_len dvd n \<or> n = length xs" and m: "chunk_len dvd m \<or> m = length xs"
    and "take (m - n) (drop n xs) = zeros (m - n)"
  shows "zero_fill H sz gap limit (concat (map H (chunks chunk_len (take n xs)))) =
    Some (concat (map H (chunks chunk_len (take m xs))))"
  using assms(3-7,9)
proof (induction "m - n" arbitrary: gap n rule: less_induct)
  case less
  show ?case
  proof (cases "n < m")
    case False
    then have "\<not> gap < limit" using less.prems by (simp add: word_less_nat_alt)
    then show ?thesis using False less.prems by (subst zero_fill.simps) simp
  next
    case True
    let ?c = "min chunk_len (length xs - n)"
    have dvd: "chunk_len dvd n" using less.prems True by auto
    have "chunk_len \<le> m - n" if "m \<noteq> length xs"
      using that m dvd True by (simp add: dvd_diff_nat dvd_imp_le)
    then have nc: "n + ?c \<le> m" using True by (cases "m = length xs") auto
    have room: "unat gap + chunk_len < 2 ^ 64"
      using less.prems True xs by (simp add: chunk_len_def TransferChunkBytes_def)
    note step = zero_fill_step [OF xs less.prems(1,2) True dvd refl nc less.prems(4,6)]
    show ?thesis
    proof (cases "?c = chunk_len")
      case True
      have "zero_fill H sz (gap + TransferChunkBytes) limit (concat (map H (chunks chunk_len (take (n + chunk_len) xs)))) =
          Some (concat (map H (chunks chunk_len (take m xs))))"
      proof (rule less.hyps)
        show "m - (n + chunk_len) < m - n" using \<open>n < m\<close> chunk_len_pos(1) by linarith
        show "unat (gap + TransferChunkBytes) = n + chunk_len" using unat_add_chunk [OF room] less.prems(1) by simp
        show "n + chunk_len \<le> m" using nc True by simp
        show "chunk_len dvd n + chunk_len \<or> n + chunk_len = length xs" using dvd by simp
        have "drop chunk_len (take (m - n) (drop n xs)) = drop chunk_len (zeros (m - n))"
          using less.prems(6) by simp
        then show "take (m - (n + chunk_len)) (drop (n + chunk_len) xs) = zeros (m - (n + chunk_len))"
          by (simp add: drop_take add.commute)
      qed (use less.prems in auto)
      then show ?thesis using step True by simp
    next
      case False
      then have "m = n + ?c" "m < n + chunk_len" using nc less.prems(4) \<open>n < m\<close> by auto
      moreover have "\<not> gap + TransferChunkBytes < limit"
        using unat_add_chunk [OF room] less.prems(1,2) calculation(2) by (simp add: word_less_nat_alt)
      ultimately show ?thesis unfolding step by (subst zero_fill.simps) simp
    qed
  qed
qed

section \<open>Accepted frames\<close>

lemma mod_chunk_iff: "(offset :: u64) mod TransferChunkBytes = 0 \<longleftrightarrow> chunk_len dvd unat offset"
proof -
  have "unat (offset mod TransferChunkBytes) = unat offset mod chunk_len"
    by (simp add: unat_mod chunk_len_def)
  then show ?thesis by (metis dvd_eq_mod_eq_0 unat_0 unat_eq_zero)
qed

lemma unat_len: "length data \<le> chunk_len \<Longrightarrow> unat (of_nat (length data) :: u64) = length data"
  by (simp add: unat_of_nat take_bit_eq_mod chunk_len_def TransferChunkBytes_def)

text \<open>The frame that ends at 2^64, the one place where the bound check wraps around.\<close>

definition wraps :: "u64 \<Rightarrow> bytes \<Rightarrow> bool" where
  "wraps offset data \<longleftrightarrow> unat offset + chunk_len = 2 ^ 64 \<and> length data = chunk_len"

lemma check_frame_iff:
  assumes "length data < 2 ^ 63"
  shows "check_frame s offset data = None \<longleftrightarrow>
    chunk_len dvd unat offset \<and> unat (ses_nextOffset s) \<le> unat offset \<and> data \<noteq> [] \<and> length data \<le> chunk_len \<and>
    (unat offset + length data \<le> unat (ses_sizeBytes s) \<and>
       (length data < chunk_len \<longrightarrow> unat offset + length data = unat (ses_sizeBytes s)) \<or>
     wraps offset data)"
proof (cases "chunk_len dvd unat offset \<and> data \<noteq> [] \<and> length data \<le> chunk_len")
  case False
  then show ?thesis
    by (auto simp: check_frame_def Let_def mod_chunk_iff split: if_splits)
next
  case True
  let ?len = "of_nat (length data) :: u64"
  have len: "unat ?len = length data" using True by (simp add: unat_len)
  have al: "unat offset \<le> 2 ^ 64 - chunk_len" using True word_aligned_le [of offset] by blast
  have small: "chunk_len < 2 ^ 64" by (simp add: chunk_len_def TransferChunkBytes_def)
  have sum: "unat (offset + ?len) = (if wraps offset data then 0 else unat offset + length data)"
  proof (cases "unat offset + length data < 2 ^ 64")
    case True
    then show ?thesis using len by (auto simp: wraps_def unat_word_ariths)
  next
    case False
    then have "unat offset + length data = 2 ^ 64" "length data = chunk_len"
      using al True small \<open>chunk_len dvd unat offset \<and> data \<noteq> [] \<and> length data \<le> chunk_len\<close> by linarith+
    then show ?thesis using len by (simp add: wraps_def unat_word_ariths)
  qed
  have lt: "?len < TransferChunkBytes \<longleftrightarrow> length data < chunk_len"
    using len by (simp add: word_less_nat_alt chunk_len_def)
  have big: "ses_sizeBytes s < offset + ?len \<longleftrightarrow> unat (ses_sizeBytes s) < unat (offset + ?len)"
    "offset < ses_nextOffset s \<longleftrightarrow> unat offset < unat (ses_nextOffset s)"
    by (simp_all add: word_less_nat_alt)
  have eq: "offset + ?len = ses_sizeBytes s \<longleftrightarrow> unat (offset + ?len) = unat (ses_sizeBytes s)"
    by (simp add: word_unat_eq_iff)
  show ?thesis
    using True unfolding check_frame_def Let_def big lt eq sum mod_chunk_iff
    by (auto simp: wraps_def not_less)
qed

section \<open>What a session has received\<close>

text \<open>
  The session's digest is that of the device content up to the next offset, and everything behind it
  is still zero.
\<close>

definition received :: "hash \<Rightarrow> session \<Rightarrow> bytes \<Rightarrow> bool" where
  "received H s xs \<longleftrightarrow>
     unat (ses_sizeBytes s) = length xs \<and> length xs < 2 ^ 63 \<and>
     (let n = unat (ses_nextOffset s) in
      n \<le> length xs \<and> (chunk_len dvd n \<or> n = length xs) \<and> drop n xs = zeros (length xs - n) \<and>
      ses_digest s = concat (map H (chunks chunk_len (take n xs))))"

lemma received_fresh:
  assumes "unat n < 2 ^ 63"
  shows "received H (new_session vid n) (zeros (unat n))"
  using assms
  by (simp add: received_def new_session_def NewDigestBuilder_def chunks.simps [of _ "[]"])

lemma take_zeros [simp]: "take m (zeros n) = zeros (min m n)"
  by (simp add: zeros_def min.commute)

text \<open>Accepting a frame extends the content it stands for.\<close>

lemma received_frame:
  assumes rec: "received H s xs" and ok: "check_frame s offset data = None" and "length data < 2 ^ 63"
    and nw: "\<not> wraps offset data"
  obtains b where "zero_fill H (ses_sizeBytes s) (ses_nextOffset s) offset (ses_digest s) = Some b"
    and "received H (s\<lparr>ses_device := d, ses_digest := AddChunk H b data, ses_nextOffset := offset + of_nat (length data)\<rparr>)
      (put offset data xs)"
    and "unat offset + length data \<le> length xs"
proof -
  let ?n = "unat (ses_nextOffset s)" and ?o = "unat offset"
  have len: "length xs < 2 ^ 63" "unat (ses_sizeBytes s) = length xs" and n: "?n \<le> length xs"
    and al: "chunk_len dvd ?n \<or> ?n = length xs" and z: "drop ?n xs = zeros (length xs - ?n)"
    and dig: "ses_digest s = concat (map H (chunks chunk_len (take ?n xs)))"
    using rec by (auto simp: received_def Let_def)
  have o: "chunk_len dvd ?o" "?n \<le> ?o" "data \<noteq> []" "length data \<le> chunk_len" "?o + length data \<le> length xs"
      "length data < chunk_len \<Longrightarrow> ?o + length data = length xs"
    using ok nw len(2) unfolding check_frame_iff [OF assms(3)] by auto
  have "take (?o - ?n) (drop ?n xs) = zeros (?o - ?n)" using z o(5) by simp
  then have fill: "zero_fill H (ses_sizeBytes s) (ses_nextOffset s) offset (ses_digest s) =
      Some (concat (map H (chunks chunk_len (take ?o xs))))"
    unfolding dig using len n al o by (intro zero_fill_content) auto
  let ?xs = "put offset data xs"
  have lx: "length ?xs = length xs" using o(5) by (rule length_put)
  have nx: "unat (offset + of_nat (length data)) = ?o + length data"
    using o(4,5) len(1) by (simp add: unat_word_ariths unat_len)
  have pre: "take (?o + length data) ?xs = take ?o xs @ data" using o(5) by (simp add: put_def)
  have "chunks chunk_len (take ?o xs @ data) = chunks chunk_len (take ?o xs) @ [data]"
    using o by (simp add: chunks_append chunks_single)
  then have "AddChunk H (concat (map H (chunks chunk_len (take ?o xs)))) data =
      concat (map H (chunks chunk_len (take (?o + length data) ?xs)))"
    using pre by (simp add: AddChunk_def)
  moreover have "drop (?o + length data) ?xs = zeros (length xs - (?o + length data))"
  proof -
    have "drop (?o + length data) ?xs = drop (?o + length data) xs" using o(5) by (simp add: put_def)
    also have "\<dots> = drop (?o + length data - ?n) (drop ?n xs)" using o(2) by simp
    also have "\<dots> = zeros (length xs - (?o + length data))" using z o(2) by simp
    finally show ?thesis .
  qed
  moreover have "chunk_len dvd ?o + length data \<or> ?o + length data = length xs"
    using o(1,4,6) by (cases "length data < chunk_len") auto
  ultimately have "received H (s\<lparr>ses_device := d, ses_digest := AddChunk H (concat (map H (chunks chunk_len (take ?o xs)))) data,
      ses_nextOffset := offset + of_nat (length data)\<rparr>) ?xs"
    using len lx nx o(5) by (simp add: received_def Let_def)
  then show ?thesis using that fill o(5) by blast
qed

lemma received_sum:
  assumes "received H s xs"
  shows "\<exists>b. zero_fill H (ses_sizeBytes s) (ses_nextOffset s) (ses_sizeBytes s) (ses_digest s) = Some b \<and>
    fst (Sum H b (ses_sizeBytes s)) = content_digest H xs"
proof -
  let ?n = "unat (ses_nextOffset s)"
  have len: "length xs < 2 ^ 63" "unat (ses_sizeBytes s) = length xs" and n: "?n \<le> length xs"
    and al: "chunk_len dvd ?n \<or> ?n = length xs" and z: "drop ?n xs = zeros (length xs - ?n)"
    and dig: "ses_digest s = concat (map H (chunks chunk_len (take ?n xs)))"
    using assms by (auto simp: received_def Let_def)
  have "zero_fill H (ses_sizeBytes s) (ses_nextOffset s) (ses_sizeBytes s) (ses_digest s) =
      Some (concat (map H (chunks chunk_len (take (length xs) xs))))"
    unfolding dig using len n al z by (intro zero_fill_content) auto
  moreover have "ses_sizeBytes s = of_nat (length xs)"
    using len by (simp add: word_unat_eq_iff unat_of_nat take_bit_eq_mod)
  ultimately show ?thesis by (simp add: Sum_def Let_def content_digest_def)
qed

end
