(* ===== verification/TransferTable.thy ===== *)
theory TransferTable
  imports Transfers
begin

text \<open>
  The transfer table under interleaved calls. A state holds the table, the host, the prepares that
  have reserved their id and the commits that have verified their digest and are still to run their
  second part. Any call, the second part of any pending one, the expiry of a grace timer and any
  change of the host by others can be the next step.
\<close>

section \<open>Steps\<close>

record 'w xfer =
  xf_table :: Transfers
  xf_host :: 'w
  xf_preparing :: "(string \<times> string \<times> u64) list"
  xf_committing :: "(string \<times> session) list"

definition xfer_start :: "'w \<Rightarrow> 'w xfer" where
  "xfer_start w = \<lparr>xf_table = NewTransfers, xf_host = w, xf_preparing = [], xf_committing = []\<rparr>"

definition with_node :: "'w xfer \<Rightarrow> 'w node_state \<Rightarrow> 'w xfer" where
  "with_node x st = x\<lparr>xf_table := fst st, xf_host := snd st\<rparr>"

inductive xstep :: "hash \<Rightarrow> 'w Client \<Rightarrow> Config \<Rightarrow> 'w devio \<Rightarrow> 'w xfer \<Rightarrow> 'w xfer \<Rightarrow> bool"
  for H c cfg io where
  reserve: "prepare_reserve cfg tid vid n (xf_table x) = Inr t \<Longrightarrow>
    xstep H c cfg io x (x\<lparr>xf_table := t, xf_preparing := (tid, vid, n) # xf_preparing x\<rparr>)"
| prepared: "(tid, vid, n) \<in> set (xf_preparing x) \<Longrightarrow>
    prepare_land c cfg tid vid n (xf_table x, xf_host x) = (r, st) \<Longrightarrow>
    xstep H c cfg io x (with_node x st\<lparr>xf_preparing := remove1 (tid, vid, n) (xf_preparing x)\<rparr>)"
| attach: "tr_Attach tid (xf_table x) = (r, t) \<Longrightarrow> xstep H c cfg io x (x\<lparr>xf_table := t\<rparr>)"
| detach: "xstep H c cfg io x (x\<lparr>xf_table := tr_Detach tid (xf_table x)\<rparr>)"
| wrote: "tr_Write H io tid offset data (xf_table x, xf_host x) = Some (r, st) \<Longrightarrow>
    xstep H c cfg io x (with_node x st)"
| verified: "commit_verify H c cfg tid digest (xf_table x, xf_host x) = Some (Inr (Some s), st) \<Longrightarrow>
    xstep H c cfg io x (with_node x st\<lparr>xf_committing := (tid, s) # xf_committing x\<rparr>)"
| answered: "commit_verify H c cfg tid digest (xf_table x, xf_host x) = Some (r, st) \<Longrightarrow>
    r = Inr None \<or> r = Inl e \<Longrightarrow> xstep H c cfg io x (with_node x st)"
| landed: "(tid, s) \<in> set (xf_committing x) \<Longrightarrow> commit_land c cfg io tid s (xf_table x, xf_host x) = (r, st) \<Longrightarrow>
    xstep H c cfg io x (with_node x st\<lparr>xf_committing := remove1 (tid, s) (xf_committing x)\<rparr>)"
| abort: "xstep H c cfg io x (with_node x (Abort c cfg tid (xf_table x, xf_host x)))"
| expire: "xstep H c cfg io x (with_node x (grace_expired c cfg tid (xf_table x, xf_host x)))"
| host: "xstep H c cfg io x (x\<lparr>xf_host := w\<rparr>)"

inductive reachable :: "hash \<Rightarrow> 'w Client \<Rightarrow> Config \<Rightarrow> 'w devio \<Rightarrow> 'w \<Rightarrow> 'w xfer \<Rightarrow> bool"
  for H c cfg io w where
  start: "reachable H c cfg io w (xfer_start w)"
| step: "reachable H c cfg io w x \<Longrightarrow> xstep H c cfg io x y \<Longrightarrow> reachable H c cfg io w y"

section \<open>Invariant\<close>

text \<open>
  The ids of live sessions and the ids that are used up are disjoint, a committed id is used up, there
  are never more sessions than allowed, and no session is forgotten: it has a stream, or its grace
  timer is armed, or its prepare is still running. Every pending call refers to a live session or to
  an id that is used up.
\<close>

definition known_id :: "Transfers \<Rightarrow> string \<Rightarrow> bool" where
  "known_id t tid \<longleftrightarrow> the_session t tid \<noteq> None \<or> tr_dead t tid"

definition table_ok :: "int \<Rightarrow> (string \<Rightarrow> bool) \<Rightarrow> Transfers \<Rightarrow> bool" where
  "table_ok limit pending t \<longleftrightarrow>
     distinct (map fst (tr_sessions t)) \<and> int (length (tr_sessions t)) \<le> limit \<and>
     (\<forall>tid. tr_committed t tid \<longrightarrow> tr_dead t tid) \<and>
     (\<forall>tid s. the_session t tid = Some s \<longrightarrow>
        \<not> tr_dead t tid \<and> \<not> ses_terminal s \<and> (ses_streaming s \<or> ses_grace s \<or> pending tid))"

definition xfer_ok :: "Config \<Rightarrow> 'w xfer \<Rightarrow> bool" where
  "xfer_ok cfg x \<longleftrightarrow>
     table_ok (cfg_MaxInboundTransfers cfg) (\<lambda>tid. tid \<in> fst ` set (xf_preparing x)) (xf_table x) \<and>
     (\<forall>p \<in> set (xf_preparing x). known_id (xf_table x) (fst p)) \<and>
     (\<forall>p \<in> set (xf_committing x). known_id (xf_table x) (fst p)) \<and>
     distinct (map fst (xf_preparing x))"

lemma the_session_set [simp]:
  "the_session (set_session tid s t) = (the_session t)(tid \<mapsto> s)"
  "tr_dead (set_session tid s t) = tr_dead t" "tr_committed (set_session tid s t) = tr_committed t"
  by (auto simp: the_session_def set_session_def update_conv')

lemma the_session_finish [simp]:
  "the_session (finish tid t) = (the_session t)(tid := None)"
  "tr_committed (finish tid t) = tr_committed t"
  "tr_dead (finish tid t) = (if the_session t tid = None then tr_dead t else (tr_dead t)(tid := True))"
  by (auto simp: the_session_def finish_def delete_conv' fun_eq_iff split: option.splits)

lemma known_id_simps [simp]:
  "known_id (set_session tid s t) k \<longleftrightarrow> k = tid \<or> known_id t k"
  "known_id (finish tid t) k \<longleftrightarrow> known_id t k"
  by (auto simp: known_id_def)

lemma update_old: "map_of al k \<noteq> None \<Longrightarrow> length (AList.update k v al) = length al"
  and update_new: "map_of al k = None \<Longrightarrow> AList.update k v al = al @ [(k, v)]"
  by (induction al) (auto split: if_splits)

lemma set_session_length: "the_session t tid \<noteq> None \<Longrightarrow> length (tr_sessions (set_session tid s t)) = length (tr_sessions t)"
  and set_session_fresh: "the_session t tid = None \<Longrightarrow> tr_sessions (set_session tid s t) = tr_sessions t @ [(tid, s)]"
  and set_session_distinct: "distinct (map fst (tr_sessions t)) \<Longrightarrow> distinct (map fst (tr_sessions (set_session tid s t)))"
  by (simp_all add: the_session_def set_session_def update_old update_new distinct_update)

lemma finish_sessions:
  "length (tr_sessions (finish tid t)) \<le> length (tr_sessions t)"
  "distinct (map fst (tr_sessions t)) \<Longrightarrow> distinct (map fst (tr_sessions (finish tid t)))"
  by (auto simp: finish_def length_delete_le distinct_delete split: option.splits)

text \<open>A session is replaced by one that has a stream or a timer, or by one whose id is pending.\<close>

lemma table_ok_set:
  assumes "table_ok m P t" and "the_session t tid \<noteq> None"
    and "\<not> ses_terminal s" and "ses_streaming s \<or> ses_grace s \<or> P tid"
  shows "table_ok m P (set_session tid s t)"
  using assms by (auto simp: table_ok_def set_session_length set_session_distinct)

lemma table_ok_finish: "table_ok m P t \<Longrightarrow> table_ok m P (finish tid t)"
  using finish_sessions(1) [of tid t] by (auto simp: table_ok_def finish_sessions(2))

lemma table_ok_pending:
  assumes "table_ok m P t" and "\<And>tid. P tid \<Longrightarrow> the_session t tid \<noteq> None \<Longrightarrow> Q tid \<or> (\<exists>s. the_session t tid = Some s \<and> ses_grace s)"
  shows "table_ok m Q t"
  using assms unfolding table_ok_def by fastforce

section \<open>What each call does to the table\<close>

text \<open>A call about \<open>tid\<close> leaves the table, ends the session, or replaces it without losing track of it.\<close>

definition tracks :: "session \<Rightarrow> session \<Rightarrow> bool" where
  "tracks s s' \<longleftrightarrow>
     ses_terminal s' = ses_terminal s \<and>
     (ses_streaming s' \<or> ses_grace s' \<or> ses_streaming s' = ses_streaming s \<and> ses_grace s' = ses_grace s)"

definition touches :: "string \<Rightarrow> Transfers \<Rightarrow> Transfers \<Rightarrow> bool" where
  "touches tid t t' \<longleftrightarrow> t' = t \<or> t' = finish tid t \<or>
     (\<exists>s s'. the_session t tid = Some s \<and> t' = set_session tid s' t \<and> tracks s s')"

lemma touches_ok:
  assumes "touches tid t t'" and "table_ok m P t"
  shows "table_ok m P t'" and "known_id t k \<Longrightarrow> known_id t' k"
    and "tr_committed t' = tr_committed t" and "tr_dead t k \<Longrightarrow> tr_dead t' k"
  using assms
  by (auto simp: touches_def tracks_def table_ok_finish table_ok_def [of m P t] intro!: table_ok_set)

lemma finish_set: "the_session t tid \<noteq> None \<Longrightarrow> finish tid (set_session tid s t) = finish tid t"
  by (auto simp: finish_def) (simp add: set_session_def delete_update_same)

lemma destroy_table:
  assumes "table_ok m P t"
  shows "fst (destroy c cfg tid (t, w)) = finish tid t"
  using assms by (auto simp: destroy_def finish_def table_ok_def split: option.splits)

lemma Attach_touches: "tr_Attach tid t = (r, t') \<Longrightarrow> touches tid t t'"
  by (auto simp: tr_Attach_def touches_def tracks_def split: option.splits if_splits)

lemma Detach_touches: "touches tid t (tr_Detach tid t)"
  by (auto simp: tr_Detach_def armGrace_def touches_def tracks_def split: option.splits)

lemma Abort_touches: "table_ok m P t \<Longrightarrow> touches tid t (fst (Abort c cfg tid (t, w)))"
  by (auto simp: Abort_def touches_def destroy_table split: option.splits)

lemma grace_touches: "table_ok m P t \<Longrightarrow> touches tid t (fst (grace_expired c cfg tid (t, w)))"
  by (auto simp: grace_expired_def touches_def destroy_table split: option.splits)

lemma Write_touches:
  "tr_Write H io tid offset data (t, w) = Some (r, st) \<Longrightarrow> touches tid t (fst st)"
  by (auto simp: tr_Write_def touches_def tracks_def Let_def split: option.splits prod.splits sum.splits)

lemma verify_touches:
  assumes "commit_verify H c cfg tid digest (t, w) = Some (r, st)" and ok: "table_ok m P t"
  shows "touches tid t (fst st)" and "r = Inr (Some s) \<Longrightarrow> known_id (fst st) tid"
proof -
  have fin: "fst (destroy c cfg tid (set_session tid s' t, w)) = finish tid t"
    if "the_session t tid = Some s" "s' = s\<lparr>ses_digest := b\<rparr>" for s s' b
    using that ok by (auto simp: destroy_def finish_set table_ok_def)
  show "touches tid t (fst st)"
    using assms(1) fin
    by (auto simp: commit_verify_def touches_def tracks_def Let_def split: option.splits prod.splits if_splits)
  show "r = Inr (Some s) \<Longrightarrow> known_id (fst st) tid"
    using assms(1)
    by (auto simp: commit_verify_def Let_def split: option.splits prod.splits if_splits)
qed

lemma committed_simps [simp]:
  "the_session (t\<lparr>tr_committed := f\<rparr>) = the_session t"
  "finish tid (t\<lparr>tr_committed := f\<rparr>) = (finish tid t)\<lparr>tr_committed := f\<rparr>"
  by (auto simp: the_session_def finish_def fun_eq_iff split: option.splits)

text \<open>The second parts end what they were called for.\<close>

lemma land_table:
  assumes "commit_land c cfg io tid s (t, w) = (r, st)" and ok: "table_ok m P t" and known: "known_id t tid"
  shows "table_ok m P (fst st)" and "known_id t k \<Longrightarrow> known_id (fst st) k"
proof -
  let ?t = "t\<lparr>tr_committed := (tr_committed t)(tid := True)\<rparr>"
  have "fst st = finish tid t \<or> fst st = finish tid ?t"
    using assms(1)
    by (auto simp: commit_land_def Let_def destroy_table [OF ok] split: prod.splits sum.splits)
  moreover have "table_ok m P (finish tid ?t)"
    using table_ok_finish [OF ok, of tid] known by (auto simp: table_ok_def known_id_def)
  ultimately show "table_ok m P (fst st)" and "known_id t k \<Longrightarrow> known_id (fst st) k"
    using table_ok_finish [OF ok, of tid] by (auto simp: known_id_def split: if_splits)
qed

lemma prepare_land_table:
  assumes "prepare_land c cfg tid vid n (t, w) = (r, st)" and ok: "table_ok m P t"
  shows "touches tid t (fst st)"
    and "the_session (fst st) tid = Some s \<Longrightarrow> ses_grace s"
  using assms(1)
  by (auto simp: prepare_land_def destroy_table [OF ok] Let_def touches_def tracks_def armGrace_def split: prod.splits sum.splits option.splits)

section \<open>Every step keeps the invariant\<close>

lemma with_node_simps [simp]:
  "xf_table (with_node x st) = fst st" "xf_preparing (with_node x st) = xf_preparing x"
  "xf_committing (with_node x st) = xf_committing x"
  by (simp_all add: with_node_def)

lemma xfer_okD:
  assumes "xfer_ok cfg x"
  shows "table_ok (cfg_MaxInboundTransfers cfg) (\<lambda>tid. tid \<in> fst ` set (xf_preparing x)) (xf_table x)"
    and "(tid, s) \<in> set (xf_committing x) \<Longrightarrow> known_id (xf_table x) tid"
    and "(tid, r) \<in> set (xf_preparing x) \<Longrightarrow> known_id (xf_table x) tid"
  using assms by (force simp: xfer_ok_def)+

lemma xfer_ok_touches:
  assumes ok: "xfer_ok cfg x" and "touches tid (xf_table x) (xf_table y)"
    and "xf_preparing y = xf_preparing x" "xf_committing y = xf_committing x"
  shows "xfer_ok cfg y"
  using touches_ok [OF assms(2) xfer_okD(1) [OF ok]] ok assms(3,4) by (auto simp: xfer_ok_def)

lemma reserve_ok:
  assumes ok: "xfer_ok cfg x" and r: "prepare_reserve cfg tid vid n (xf_table x) = Inr t"
  shows "xfer_ok cfg (x\<lparr>xf_table := t, xf_preparing := (tid, vid, n) # xf_preparing x\<rparr>)"
proof -
  let ?t = "xf_table x" and ?P = "\<lambda>k. k \<in> fst ` set (xf_preparing x)"
  note tab = xfer_okD(1) [OF ok]
  have fresh: "\<not> tr_dead ?t tid" "the_session ?t tid = None" and t: "t = set_session tid (new_session vid n) ?t"
    and room: "int (live_sessions ?t) < cfg_MaxInboundTransfers cfg"
    using r by (auto simp: prepare_reserve_def split: if_splits)
  have "\<forall>p \<in> set (tr_sessions ?t). \<not> ses_terminal (snd p)"
    using tab unfolding table_ok_def the_session_def by (metis map_of_is_SomeI prod.collapse)
  then have "live_sessions ?t = length (tr_sessions ?t)" by (simp add: live_sessions_def)
  then have "table_ok (cfg_MaxInboundTransfers cfg) (\<lambda>k. k = tid \<or> ?P k) t"
    using tab room fresh set_session_distinct [of ?t tid]
    by (auto simp: table_ok_def t set_session_fresh new_session_def)
  moreover have "tid \<notin> fst ` set (xf_preparing x)"
    using ok fresh by (auto simp: xfer_ok_def known_id_def)
  ultimately show ?thesis using ok by (auto simp: xfer_ok_def t)
qed

lemma prepared_ok:
  assumes ok: "xfer_ok cfg x" and mem: "(tid, vid, n) \<in> set (xf_preparing x)"
    and r: "prepare_land c cfg tid vid n (xf_table x, xf_host x) = (r, st)"
  shows "xfer_ok cfg (with_node x st\<lparr>xf_preparing := remove1 (tid, vid, n) (xf_preparing x)\<rparr>)"
proof -
  let ?P = "\<lambda>k. k \<in> fst ` set (xf_preparing x)"
    and ?Q = "\<lambda>k. k \<in> fst ` set (remove1 (tid, vid, n) (xf_preparing x))"
  note tab = xfer_okD(1) [OF ok]
  note land = prepare_land_table [OF r tab]
  have dist: "distinct (map fst (xf_preparing x))" using ok by (simp add: xfer_ok_def)
  then have keep: "?Q k \<or> k = tid" if "?P k" for k
    using that by (force simp: distinct_map)
  have "table_ok (cfg_MaxInboundTransfers cfg) ?Q (fst st)"
    using keep land(2) by (intro table_ok_pending [OF touches_ok(1) [OF land(1) tab]]) blast
  moreover have "distinct (map fst (remove1 (tid, vid, n) (xf_preparing x)))"
    using dist by (metis distinct_map distinct_remove1 inj_on_subset set_remove1_subset)
  ultimately show ?thesis
    using ok touches_ok(2) [OF land(1) tab] set_remove1_subset [of "(tid, vid, n)" "xf_preparing x"]
    by (auto simp: xfer_ok_def)
qed

lemma landed_ok:
  assumes ok: "xfer_ok cfg x" and mem: "(tid, s) \<in> set (xf_committing x)"
    and r: "commit_land c cfg io tid s (xf_table x, xf_host x) = (r, st)"
  shows "xfer_ok cfg (with_node x st\<lparr>xf_committing := remove1 (tid, s) (xf_committing x)\<rparr>)"
proof -
  note land = land_table [OF r xfer_okD(1) [OF ok] xfer_okD(2) [OF ok mem]]
  show ?thesis
    using ok land set_remove1_subset [of "(tid, s)" "xf_committing x"] by (auto simp: xfer_ok_def)
qed

lemma xstep_ok: "xstep H c cfg io x y \<Longrightarrow> xfer_ok cfg x \<Longrightarrow> xfer_ok cfg y"
proof (induction rule: xstep.induct)
  case (attach tid x r t)
  then show ?case by (intro xfer_ok_touches [OF attach(2), of tid]) (auto intro: Attach_touches)
next
  case (detach x tid)
  then show ?case by (intro xfer_ok_touches [OF detach, of tid]) (auto intro: Detach_touches)
next
  case (wrote tid offset data x r st)
  then show ?case by (intro xfer_ok_touches [OF wrote(2), of tid]) (auto intro: Write_touches)
next
  case (verified tid digest x s st)
  note v = verify_touches [OF verified(1) xfer_okD(1) [OF verified(2)]]
  have "xfer_ok cfg (with_node x st)" by (rule xfer_ok_touches [OF verified(2), of tid]) (auto intro: v)
  then show ?case using v(2) by (auto simp: xfer_ok_def)
next
  case (answered tid digest x r st e)
  then show ?case
    by (intro xfer_ok_touches [OF answered(3), of tid]) (auto intro: verify_touches(1) xfer_okD(1))
next
  case (abort x tid)
  then show ?case
    by (intro xfer_ok_touches [OF abort, of tid]) (auto intro: Abort_touches xfer_okD(1))
next
  case (expire x tid)
  then show ?case
    by (intro xfer_ok_touches [OF expire, of tid]) (auto intro: grace_touches xfer_okD(1))
next
  case (host x w)
  then show ?case by (simp add: xfer_ok_def)
qed (auto intro: reserve_ok prepared_ok landed_ok)

section \<open>What stays\<close>

lemma table_mono:
  assumes "touches tid t t'" and "table_ok m P t"
  shows "tr_dead t \<le> tr_dead t' \<and> tr_committed t \<le> tr_committed t'"
  using touches_ok(3,4) [OF assms] by (simp add: le_fun_def)

lemma land_mono:
  assumes "commit_land c cfg io tid s (t, w) = (r, st)" and ok: "table_ok m P t"
  shows "tr_dead t \<le> tr_dead (fst st) \<and> tr_committed t \<le> tr_committed (fst st)"
  using assms(1)
  by (auto simp: commit_land_def Let_def destroy_table [OF ok] le_fun_def split: prod.splits sum.splits)

text \<open>Used up ids stay used up, committed ones stay committed, and live ids stay known.\<close>

lemma xstep_mono:
  assumes "xstep H c cfg io x y" and "xfer_ok cfg x"
  shows "tr_dead (xf_table x) \<le> tr_dead (xf_table y) \<and> tr_committed (xf_table x) \<le> tr_committed (xf_table y)"
  using assms
proof (induction rule: xstep.induct)
  case (reserve tid vid n x t)
  then show ?case by (auto simp: prepare_reserve_def split: if_splits)
next
  case (prepared tid vid n x r st)
  then show ?case using table_mono [OF prepare_land_table(1) xfer_okD(1)] xfer_okD(1) by fastforce
next
  case (attach tid x r t)
  then show ?case using table_mono [OF Attach_touches xfer_okD(1)] by fastforce
next
  case (detach x tid)
  then show ?case using table_mono [OF Detach_touches xfer_okD(1)] by fastforce
next
  case (wrote tid offset data x r st)
  then show ?case using table_mono [OF Write_touches xfer_okD(1)] by fastforce
next
  case (verified tid digest x s st)
  then show ?case using table_mono [OF verify_touches(1) xfer_okD(1)] xfer_okD(1) by fastforce
next
  case (answered tid digest x r st e)
  then show ?case using table_mono [OF verify_touches(1) xfer_okD(1)] xfer_okD(1) by fastforce
next
  case (landed tid s x r st)
  then show ?case using land_mono [OF _ xfer_okD(1)] by fastforce
next
  case (abort x tid)
  then show ?case using table_mono [OF Abort_touches xfer_okD(1)] xfer_okD(1) by fastforce
next
  case (expire x tid)
  then show ?case using table_mono [OF grace_touches xfer_okD(1)] xfer_okD(1) by fastforce
qed simp

lemma xsteps_mono:
  assumes "(xstep H c cfg io)\<^sup>*\<^sup>* x y" and "xfer_ok cfg x"
  shows "xfer_ok cfg y \<and> tr_dead (xf_table x) \<le> tr_dead (xf_table y) \<and> tr_committed (xf_table x) \<le> tr_committed (xf_table y)"
  using assms(1)
proof (induction rule: rtranclp_induct)
  case (step y z)
  then have ok: "xfer_ok cfg y" by blast
  have "tr_dead (xf_table y) \<le> tr_dead (xf_table z) \<and> tr_committed (xf_table y) \<le> tr_committed (xf_table z)"
    by (rule xstep_mono [OF step.hyps(2) ok])
  then show ?case using step.IH xstep_ok [OF step.hyps(2) ok] by (meson order_trans)
qed (use assms(2) in simp)

lemma xfer_ok_start: "0 \<le> cfg_MaxInboundTransfers cfg \<Longrightarrow> xfer_ok cfg (xfer_start w)"
  by (simp add: xfer_ok_def table_ok_def xfer_start_def NewTransfers_def the_session_def)

lemma reachable_ok:
  assumes "reachable H c cfg io w x" and "0 \<le> cfg_MaxInboundTransfers cfg"
  shows "xfer_ok cfg x"
  using assms(1) by (induction rule: reachable.induct) (auto intro: xfer_ok_start assms(2) xstep_ok)

end
