(* ===== verification/TransferContent.thy ===== *)
theory TransferContent
  imports TransferTable
begin

text \<open>
  The content of a transfer: what the accepted frames leave on the device, and what the digest check of
  a commit means. The device is any one whose writes land (\<open>lands\<close>); \<open>received\<close> ties the digest of a
  session to the content of its device.
\<close>

section \<open>Writing frames\<close>

text \<open>A write never runs into an endless gap loop, whatever the frame.\<close>

lemma accepted_aligned:
  assumes "check_frame s offset data = None"
  shows "unat offset \<le> 2 ^ 64 - chunk_len"
proof -
  have "offset mod TransferChunkBytes = 0"
    using assms by (auto simp: check_frame_def Let_def split: if_splits)
  then show ?thesis by (intro word_aligned_le) (simp only: mod_chunk_iff)
qed

lemma tr_Write_total: "\<exists>r. tr_Write H io tid offset data (t, w) = Some r"
proof (cases "the_session t tid")
  case None
  then show ?thesis by (simp add: tr_Write_def)
next
  case (Some s)
  show ?thesis
  proof (cases "check_frame s offset data")
    case None
    then obtain b where "zero_fill H (ses_sizeBytes s) (ses_nextOffset s) offset (ses_digest s) = Some b"
      using zero_fill_total [OF accepted_aligned] by blast
    with None Some show ?thesis
      by (auto simp: tr_Write_def Let_def split: prod.splits sum.splits)
  qed (simp add: tr_Write_def Some)
qed

definition after_frame :: "hash \<Rightarrow> DigestBuilder \<Rightarrow> u64 \<Rightarrow> bytes \<Rightarrow> session \<Rightarrow> session" where
  "after_frame H b offset data s =
     s\<lparr>ses_device := True, ses_digest := AddChunk H b data, ses_nextOffset := offset + of_nat (length data)\<rparr>"

lemma tr_Write_accepted:
  assumes s: "the_session t tid = Some s" and rec: "received H s (get w)" and l: "lands io (ses_path s) get"
    and ok: "check_frame s offset data = None" and nw: "\<not> wraps offset data" and len: "length data < 2 ^ 63"
  obtains b w' where "tr_Write H io tid offset data (t, w) =
      Some (Inr (), (set_session tid (after_frame H b offset data s) t, w'))"
    and "received H (after_frame H b offset data s) (get w')" and "get w' = put offset data (get w)"
proof -
  obtain b where b: "zero_fill H (ses_sizeBytes s) (ses_nextOffset s) offset (ses_digest s) = Some b"
    and r: "received H (s\<lparr>ses_device := True, ses_digest := AddChunk H b data,
        ses_nextOffset := offset + of_nat (length data)\<rparr>) (put offset data (get w))"
    and fits: "unat offset + length data \<le> length (get w)"
    using received_frame [OF rec ok len nw] by metis
  obtain w1 where w1: "(if ses_device s then ret () else mapErr (\<lambda>e. Wrap ''opening incoming volume: '' e [])
      (d_openw io (ses_path s))) w = (Inr (), w1)" and g1: "get w1 = get w"
  proof (cases "ses_device s")
    case False
    obtain w1 where "d_openw io (ses_path s) w = (Inr (), w1)" "get w1 = get w"
      using l unfolding lands_def by metis
    then show ?thesis using that False by (simp add: mapErr_def)
  qed (use that in \<open>simp add: ret_def\<close>)
  obtain w2 where w2: "d_write io (ses_path s) offset data w1 = (Inr (), w2)" and g2: "get w2 = put offset data (get w)"
    using l fits g1 unfolding lands_def by metis
  show ?thesis
  proof (rule that)
    show "tr_Write H io tid offset data (t, w) = Some (Inr (), (set_session tid (after_frame H b offset data s) t, w2))"
      by (simp add: tr_Write_def s ok w1 b w2 Let_def after_frame_def)
  qed (use r g2 in \<open>simp_all add: after_frame_def\<close>)
qed

lemma tr_Write_refused:
  assumes "the_session t tid = Some s" and "check_frame s offset data = Some e"
  shows "tr_Write H io tid offset data (t, w) = Some (Inl e, (t, w))"
  using assms by (simp add: tr_Write_def)

section \<open>A whole stream\<close>

text \<open>The frames of a stream are written in order, up to the first error.\<close>

fun write_all :: "hash \<Rightarrow> 'w devio \<Rightarrow> string \<Rightarrow> Frame list \<Rightarrow> 'w node_state \<Rightarrow> ((err + unit) \<times> 'w node_state) option" where
  "write_all H io tid [] st = Some (Inr (), st)"
| "write_all H io tid (f # fs) st =
     (case tr_Write H io tid (fr_Offset f) (fr_Data f) st of
        None \<Rightarrow> None
      | Some (Inl e, st') \<Rightarrow> Some (Inl e, st')
      | Some (Inr _, st') \<Rightarrow> write_all H io tid fs st')"

lemma small_not_wraps: "unat offset < 2 ^ 63 \<Longrightarrow> \<not> wraps offset data"
  by (auto simp: wraps_def chunk_len_def TransferChunkBytes_def)

lemma received_length: "received H s xs \<Longrightarrow> unat (ses_sizeBytes s) = length xs \<and> length xs < 2 ^ 63"
  by (simp add: received_def)

text \<open>Frames of the rest of a content, behind everything that was received, are all accepted.\<close>

text \<open>One frame that follows what is there lands behind it.\<close>

lemma write_one:
  assumes s: "the_session t tid = Some s" "received H s (get w)" "lands io (ses_path s) get"
    and get: "get w = pre @ zeros (length c + k)" and pre: "length pre = unat off" "chunk_len dvd length pre"
    and nx: "unat (ses_nextOffset s) \<le> length pre" and c: "length c \<le> chunk_len" "c \<noteq> []" "k = 0 \<or> length c = chunk_len"
  obtains b w1 where "tr_Write H io tid off c (t, w) = Some (Inr (), (set_session tid (after_frame H b off c s) t, w1))"
    and "received H (after_frame H b off c s) (get w1)" and "get w1 = (pre @ c) @ zeros k"
    and "unat (ses_nextOffset (after_frame H b off c s)) \<le> length (pre @ c)"
proof -
  have len: "length (get w) = length pre + (length c + k)" "length (get w) < 2 ^ 63" "unat (ses_sizeBytes s) = length (get w)"
    using get received_length [OF s(2)] by auto
  have small: "length c < 2 ^ 63" using c(1) by (simp add: chunk_len_def TransferChunkBytes_def)
  have nw: "\<not> wraps off c" by (rule small_not_wraps) (use len pre in simp)
  have ok: "check_frame s off c = None"
    unfolding check_frame_iff [OF small] using pre c len nx by (auto simp: min_def)
  obtain b w1 where w1: "tr_Write H io tid off c (t, w) = Some (Inr (), (set_session tid (after_frame H b off c s) t, w1))"
    and r1: "received H (after_frame H b off c s) (get w1)" and g1: "get w1 = put off c (get w)"
    using tr_Write_accepted [OF s ok nw small] by metis
  have "get w1 = (pre @ c) @ zeros k" using g1 get pre(1) by (simp add: put_def zeros_append)
  moreover have "unat off + length c < 2 ^ 64" using len pre by simp
  then have "unat (off + of_nat (length c)) = unat off + length c"
    unfolding unat_word_ariths unat_len [OF c(1)] by simp
  then have "unat (ses_nextOffset (after_frame H b off c s)) \<le> length (pre @ c)" using pre by (simp add: after_frame_def)
  ultimately show ?thesis using that w1 r1 by blast
qed

lemma write_rest:
  assumes "the_session t tid = Some s" and "received H s (get w)" and "lands io (ses_path s) get"
    and "get w = pre @ zeros (length ys)" and "length pre = unat off \<or> ys = []"
    and "unat (ses_nextOffset s) \<le> length pre" and "chunk_len dvd length pre \<or> ys = []"
  shows "\<exists>s' t' w'. write_all H io tid (frames_from off ys) (t, w) = Some (Inr (), (t', w')) \<and>
    t' = set_session tid s' t \<and> received H s' (get w') \<and> get w' = pre @ ys \<and>
    s' = s\<lparr>ses_device := ses_device s', ses_digest := ses_digest s', ses_nextOffset := ses_nextOffset s'\<rparr>"
  using assms
proof (induction off ys arbitrary: t s w pre rule: frames_from.induct)
  case (1 off ys)
  show ?case
  proof (cases "ys = []")
    case True
    have "set_session tid s t = t"
      using 1(2) by (simp add: set_session_def the_session_def update_triv)
    then show ?thesis using 1 True by (auto simp: frames_from.simps intro!: exI [of _ s])
  next
    case False
    let ?c = "take chunk_len ys" and ?r = "drop chunk_len ys"
    have pre: "length pre = unat off" "chunk_len dvd length pre" using 1(6,8) False by auto
    have nx: "unat (off + TransferChunkBytes) = unat off + chunk_len"
      using 1(5) received_length [OF 1(3)] pre by (intro next_offset) simp
    have rest: "length (pre @ ?c) = unat (off + TransferChunkBytes) \<or> ?r = []" "chunk_len dvd length (pre @ ?c) \<or> ?r = []"
      using pre nx by auto
    have sum: "length ys = length ?c + length ?r" by (metis append_take_drop_id length_append)
    show ?thesis
    proof (cases "?c = zeros (length ?c)")
      case True
      have "get w = (pre @ ?c) @ zeros (length ?r)" using 1(5) sum True by (metis append_assoc zeros_append)
      moreover have "unat (ses_nextOffset s) \<le> length (pre @ ?c)" using 1(7) by simp
      ultimately have "\<exists>s' t' w'. write_all H io tid (frames_from (off + TransferChunkBytes) ?r) (t, w) = Some (Inr (), (t', w')) \<and>
          t' = set_session tid s' t \<and> received H s' (get w') \<and> get w' = (pre @ ?c) @ ?r \<and>
          s' = s\<lparr>ses_device := ses_device s', ses_digest := ses_digest s', ses_nextOffset := ses_nextOffset s'\<rparr>"
        using 1(1) [OF False 1(2,3,4) _ rest(1) _ rest(2)] by blast
      then show ?thesis using False True by (subst frames_from.simps) simp
    next
      case nz: False
      obtain b w1 where w1: "tr_Write H io tid off ?c (t, w) = Some (Inr (), (set_session tid (after_frame H b off ?c s) t, w1))"
          "received H (after_frame H b off ?c s) (get w1)" "get w1 = (pre @ ?c) @ zeros (length ?r)"
          "unat (ses_nextOffset (after_frame H b off ?c s)) \<le> length (pre @ ?c)"
        by (rule write_one [OF 1(2,3,4) 1(5) [unfolded sum] pre 1(7)]) (use False in auto)
      let ?s = "after_frame H b off ?c s" and ?t = "set_session tid (after_frame H b off ?c s) t"
      have "lands io (ses_path ?s) get" using 1(4) by (simp add: after_frame_def)
      moreover have "the_session ?t tid = Some ?s" by simp
      ultimately obtain s' w' where
        "write_all H io tid (frames_from (off + TransferChunkBytes) ?r) (?t, w1) = Some (Inr (), (set_session tid s' ?t, w'))"
        "received H s' (get w')" "get w' = (pre @ ?c) @ ?r"
        "s' = ?s\<lparr>ses_device := ses_device s', ses_digest := ses_digest s', ses_nextOffset := ses_nextOffset s'\<rparr>"
        using 1(1) [OF False _ w1(2) _ w1(3) rest(1) w1(4) rest(2)] by blast
      moreover have "set_session tid s' ?t = set_session tid s' t" by (simp add: set_session_def)
      ultimately show ?thesis using False nz w1(1)
        by (subst frames_from.simps) (auto simp: after_frame_def intro!: exI [of _ s'])
    qed
  qed
qed

section \<open>The gap loops end exactly when there is room for one more chunk\<close>

lemma zero_fill_aligned:
  assumes "zero_fill H sz gap limit b = Some b'" and "chunk_len dvd unat gap"
  shows "unat limit \<le> 2 ^ 64 - chunk_len"
proof -
  let ?P = "\<lambda>(H :: hash) (sz :: u64) (gap :: u64) limit (b :: DigestBuilder) (b' :: DigestBuilder).
    chunk_len dvd unat gap \<longrightarrow> unat limit \<le> 2 ^ 64 - chunk_len"
  have "?P H sz gap limit b b'"
  proof (rule zero_fill.raw_induct [of ?P, OF _ assms(1)], intro impI)
    fix zf :: "hash \<Rightarrow> u64 \<Rightarrow> u64 \<Rightarrow> u64 \<Rightarrow> DigestBuilder \<Rightarrow> DigestBuilder option" and H sz gap limit b b'
    assume IH: "\<And>H sz gap limit b b'. zf H sz gap limit b = Some b' \<Longrightarrow> ?P H sz gap limit b b'"
      and body: "(if gap < limit
        then zf H sz (gap + TransferChunkBytes) limit (AddZeroChunk H b (min TransferChunkBytes (sz - gap)))
        else Some b) = Some b'" and al: "chunk_len dvd unat gap"
    show "unat limit \<le> 2 ^ 64 - chunk_len"
    proof (cases "gap < limit")
      case True
      have "unat (gap + TransferChunkBytes) = (unat gap + chunk_len) mod 2 ^ 64"
        by (simp add: unat_word_ariths chunk_len_def)
      moreover have "chunk_len dvd 2 ^ 64" by (simp add: chunk_len_def TransferChunkBytes_def)
      ultimately have "chunk_len dvd unat (gap + TransferChunkBytes)"
        using al by (metis dvd_add dvd_mod dvd_refl)
      then show ?thesis using IH body True by simp
    next
      case False
      then have "unat limit \<le> unat gap" by (simp add: word_less_nat_alt)
      then show ?thesis using word_aligned_le [OF al] by linarith
    qed
  qed
  then show ?thesis using assms(2) by blast
qed

section \<open>Verifying a commit\<close>

definition digested :: "hash \<Rightarrow> session \<Rightarrow> DigestBuilder \<Rightarrow> session" where
  "digested H s b = s\<lparr>ses_digest := snd (Sum H b (ses_sizeBytes s))\<rparr>"

lemma destroy_set:
  assumes "the_session t tid = Some s" and "ses_volumeID s' = ses_volumeID s" and "ses_terminal s' = ses_terminal s"
    and "\<not> ses_terminal s"
  shows "destroy c cfg tid (set_session tid s' t, w) = destroy c cfg tid (t, w)"
  using assms by (simp add: destroy_def finish_set)

lemma commit_verify_digest:
  assumes s: "the_session t tid = Some s" "\<not> ses_terminal s" "\<not> ses_streaming s" and rec: "received H s xs"
  shows "\<exists>b. commit_verify H c cfg tid digest (t, w) =
    Some (if digest = content_digest H xs
          then (Inr (Some (digested H s b)), (set_session tid (digested H s b) t, w))
          else (Inl (sentinel_err ErrDigestMismatch tid), destroy c cfg tid (t, w)))"
proof -
  obtain b where b: "zero_fill H (ses_sizeBytes s) (ses_nextOffset s) (ses_sizeBytes s) (ses_digest s) = Some b"
    and sum: "fst (Sum H b (ses_sizeBytes s)) = content_digest H xs"
    using received_sum [OF rec] by blast
  have d: "destroy c cfg tid (set_session tid (digested H s b) t, w) = destroy c cfg tid (t, w)"
    by (rule destroy_set [OF s(1)]) (simp_all add: digested_def s)
  show ?thesis
    using s b sum d by (auto simp: commit_verify_def Let_def digested_def split: prod.splits intro!: exI [of _ b])
qed

end
