(* ===== verification/TransferTheorems.thy ===== *)
theory TransferTheorems
  imports TransferContent
begin

text \<open>
  Theorems about inbound transfers: the frames that are accepted, the loops that end, what a commit does
  to the volume, and the table under interleaved calls.
\<close>

section \<open>A landed volume\<close>

text \<open>The volume of a committed transfer: ready, inactive, without the tag of its transfer.\<close>

definition landed :: "string \<Rightarrow> string \<Rightarrow> lvview \<Rightarrow> lvview \<Rightarrow> bool" where
  "landed vid tid v v' \<longleftrightarrow>
     (\<exists>x ts. v vid = Some x \<and> obj_state x = Some StateIncoming \<and>
        retagged StateReady [] StateIncoming [transferTagPrefix @ tid] (o_tags x) ts \<and>
        v' = v(vid \<mapsto> x\<lparr>o_active := False, o_tags := ts\<rparr>))"

lemma landedD:
  assumes "landed vid tid v v'" and "wf_view v"
  shows "wf_view v'" and "vstate v' = (vstate v)(vid \<mapsto> StateReady)" and "content v' = content v"
    and "\<And>m. m \<noteq> vid \<Longrightarrow> v' m = v m"
proof -
  from assms(1) obtain x ts where x: "v vid = Some x" and ts: "one_state ts" "stateOf ts = (StateReady, True)"
    and v': "v' = v(vid \<mapsto> x\<lparr>o_active := False, o_tags := ts\<rparr>)"
    unfolding landed_def retagged_def by blast
  show "wf_view v'" unfolding v' using assms(2) ts(1) by (simp add: wf_view_upd)
  show "vstate v' = (vstate v)(vid \<mapsto> StateReady)" unfolding v' using ts(2) by (simp add: obj_state_def)
  show "content v' = content v" unfolding v' using x by (auto simp: content_def fun_eq_iff)
  show "\<And>m. m \<noteq> vid \<Longrightarrow> v' m = v m" using v' by simp
qed

text \<open>Syncing a device node leaves the metadata of the volume group alone.\<close>

definition sync_frame :: "('w \<Rightarrow> lvview) \<Rightarrow> 'w devio \<Rightarrow> bool" where
  "sync_frame view io \<longleftrightarrow> (\<forall>path w. view (snd (d_sync io path w)) = view w)"

context node
begin

lemma land_volume_outcome:
  assumes r: "land_volume (daemon_client run) cfg io tid s dev w = (r, w')" and wf: "wf_view (view w)"
    and sync: "sync_frame view io" and x: "view w (ses_volumeID s) = Some x" "obj_state x = Some StateIncoming"
  shows "is_err r \<and> (\<exists>b. view w' = (view w)(ses_volumeID s \<mapsto> x\<lparr>o_active := b\<rparr>)) \<or>
    landed (ses_volumeID s) tid (view w) (view w')"
proof -
  let ?vid = "ses_volumeID s"
  let ?sync = "if dev then mapErr (\<lambda>e. Wrap ''syncing incoming volume: '' e []) (d_sync io (ses_path s)) else ret ()"
  have same: "view w = (view w)(?vid \<mapsto> x\<lparr>o_active := o_active x\<rparr>)" using x(1) by auto
  from r show ?thesis unfolding land_volume_def
  proof (cases rule: seqE_cases)
    case (err e)
    then have "view w' = view w"
      using sync by (auto simp: sync_frame_def mapErr_def ret_def split: if_splits prod.splits sum.splits)
        (metis snd_conv)
    then show ?thesis using err(2) same by (auto intro: exI [of _ "o_active x"])
  next
    case (ok u w1)
    have w1: "view w1 = view w"
      using ok(1) sync by (auto simp: sync_frame_def mapErr_def ret_def split: if_splits prod.splits sum.splits)
        (metis snd_conv)
    from ok(2) show ?thesis
    proof (cases rule: seqE_cases)
      case (err e)
      from does_cases [OF deactivate_does err(1)] consider "view w' = view w1"
        | "lv_effect (cfg_ThinPool cfg) (OpDeactivate ?vid) (view w1) (view w')" by metis
      then have "\<exists>b. view w' = (view w)(?vid \<mapsto> x\<lparr>o_active := b\<rparr>)"
        by cases (use w1 same in metis, use w1 x(1) in \<open>auto elim!: eff_deactivateE\<close>)
      then show ?thesis using err(2) by auto
    next
      case (ok u' w2)
      have w2: "view w2 = (view w)(?vid \<mapsto> x\<lparr>o_active := False\<rparr>)"
        using does_ok [OF deactivate_does ok(1)] w1 x(1) by (auto elim!: eff_deactivateE)
      have "can_move ?vid StateReady [] StateIncoming [transferTagPrefix @ tid] (view w2)"
        using wf w2 x by (auto simp: can_move_def wf_view_def obj_state_def)
      with ok(2) show ?thesis
      proof (cases rule: retag_cases)
        case (none e)
        then show ?thesis using w2 by auto
      next
        case moved
        then obtain ts where "retagged StateReady [] StateIncoming [transferTagPrefix @ tid] (o_tags x) ts"
          and "view w' = (view w)(?vid \<mapsto> x\<lparr>o_active := False, o_tags := ts\<rparr>)"
          using w2 by (auto elim!: movesE)
        then show ?thesis using x unfolding landed_def by blast
      qed
    qed
  qed
qed

end

text \<open>What is left of a volume after a transfer ended without committing.\<close>

definition discarded :: "string \<Rightarrow> lvview \<Rightarrow> lvview \<Rightarrow> bool" where
  "discarded vid v v' \<longleftrightarrow>
     (v' vid = None \<or> vstate v' vid \<in> {Some StateIncoming, Some StateReady} \<and> content v' vid = content v vid) \<and>
     (\<forall>m. m \<noteq> vid \<longrightarrow> vstate v' m = vstate v m \<and> content v' m = content v m)"

lemma effect_remove_discards:
  assumes "lv_effect pool (OpRemove vid) v1 v'" and "\<forall>m. m \<noteq> vid \<longrightarrow> vstate v1 m = vstate v m \<and> content v1 m = content v m"
  shows "discarded vid v v'"
proof -
  have v': "v' = (\<lambda>m. if m = vid then None else map_option (reorigin vid []) (v1 m))"
    using assms(1) by (auto elim!: eff_removeE)
  have "vstate v' m = vstate v1 m" "content v' m = content v1 m" if "m \<noteq> vid" for m
    using that by (cases "v1 m"; simp add: v' vstate_def content_def obj_state_def)+
  then show ?thesis using assms(2) by (simp add: discarded_def v')
qed

context node
begin

lemma RemoveVolume_discards:
  assumes "RemoveVolume (daemon_client run) cfg vid w1 = (r, w')" and "discarded vid v (view w1)"
  shows "discarded vid v (view w')"
  using RemoveVolume_does assms(1)
proof (cases rule: does_cases)
  case (some)
  then show ?thesis by (rule effect_remove_discards) (use assms(2) in \<open>simp add: discarded_def\<close>)
qed (use assms(2) in simp)

lemma destroy_discards:
  assumes "the_session t tid = Some s" and "\<not> ses_terminal s" and "discarded (ses_volumeID s) v (view w1)"
  shows "\<exists>w'. destroy (daemon_client run) cfg tid (t, w1) = (finish tid t, w') \<and> discarded (ses_volumeID s) v (view w')"
  using assms RemoveVolume_discards [OF prod.collapse [symmetric] assms(3)] by (simp add: destroy_def)

lemma commit_land_outcome:
  assumes r: "commit_land (daemon_client run) cfg io tid s (t, w) = (r, (t', w'))" and wf: "wf_view (view w)"
    and sync: "sync_frame view io" and s: "the_session t tid = Some s" "\<not> ses_terminal s"
    and st: "vstate (view w) (ses_volumeID s) = Some StateIncoming"
  shows "case r of
      Inr _ \<Rightarrow> t' = finish tid (t\<lparr>tr_committed := (tr_committed t)(tid := True)\<rparr>) \<and>
        landed (ses_volumeID s) tid (view w) (view w')
    | Inl e \<Rightarrow> t' = finish tid t \<and> discarded (ses_volumeID s) (view w) (view w')"
proof -
  let ?vid = "ses_volumeID s"
  obtain x where x: "view w ?vid = Some x" "obj_state x = Some StateIncoming"
    using st by (auto simp: vstate_Some_iff)
  obtain q w1 where l: "land_volume (daemon_client run) cfg io tid s (ses_device s) w = (q, w1)" by fastforce
  note out = land_volume_outcome [OF l wf sync x]
  have dis: "discarded ?vid (view w) (view w1)"
    using out
  proof
    assume "landed ?vid tid (view w) (view w1)"
    from landedD [OF this wf] show ?thesis by (auto simp: discarded_def vstate_def content_def)
  qed (use x in \<open>auto simp: discarded_def vstate_def content_def obj_state_def\<close>)
  show ?thesis
  proof (cases q)
    case (Inl e)
    then show ?thesis
      using r l s destroy_discards [OF s dis] by (auto simp: commit_land_def Let_def)
  next
    case (Inr u)
    then have "landed ?vid tid (view w) (view w1)" using out by simp
    then show ?thesis using Inr r l s by (auto simp: commit_land_def Let_def)
  qed
qed

end

section \<open>Frames\<close>

text \<open>
  C31. The frames a transfer accepts, exactly: aligned to a chunk, not before the next offset, of one to
  \<open>chunk_len\<close> bytes, inside the volume, and shorter than a chunk only at its end. One more frame passes:
  the bound check adds modulo 2^64, so a full chunk at the last chunk boundary below 2^64 is
  accepted whatever the size of the volume.
\<close>

theorem check_frame_exact:
  assumes "length data < 2 ^ 63"
  shows "check_frame s offset data = None \<longleftrightarrow>
    chunk_len dvd unat offset \<and> unat (ses_nextOffset s) \<le> unat offset \<and> data \<noteq> [] \<and> length data \<le> chunk_len \<and>
    (unat offset + length data \<le> unat (ses_sizeBytes s) \<and>
       (length data < chunk_len \<longrightarrow> unat offset + length data = unat (ses_sizeBytes s)) \<or>
     wraps offset data)"
  by (rule check_frame_iff [OF assms])

theorem check_frame_exact_witness:
  "check_frame (new_session ''n'' 3) 0 [1, 2, 3] = None \<and>
   check_frame (new_session ''n'' 3) 0 [1, 2] \<noteq> None \<and>
   check_frame (new_session ''n'' 3) (- TransferChunkBytes) (replicate chunk_len 1) = None"
proof -
  have "chunk_len < 2 ^ 63" by (simp add: chunk_len_def TransferChunkBytes_def)
  then show ?thesis
    using check_frame_exact [of "[1, 2, 3]" "new_session ''n'' 3" 0]
      check_frame_exact [of "[1, 2]" "new_session ''n'' 3" 0]
      check_frame_exact [of "replicate chunk_len 1" "new_session ''n'' 3" "- TransferChunkBytes"]
    by (simp add: new_session_def wraps_def) (simp add: chunk_len_def TransferChunkBytes_def)
qed

text \<open>
  C30. The loops over skipped ranges: a write always ends, a commit ends whenever the volume leaves room
  for one chunk below 2^64, and from an aligned offset the loop ends in no other case, since its
  counter then wraps around for ever.
\<close>

theorem gap_loops_end:
  "(\<exists>r. tr_Write H io tid offset data (t, w) = Some r) \<and>
   ((\<forall>s. the_session t tid = Some s \<longrightarrow> unat (ses_sizeBytes s) \<le> 2 ^ 64 - chunk_len) \<longrightarrow>
      (\<exists>r. Commit H c cfg io tid digest (t, w) = Some r)) \<and>
   (chunk_len dvd unat gap \<longrightarrow>
      (\<exists>b'. zero_fill H sz gap limit b = Some b') \<longleftrightarrow> unat limit \<le> 2 ^ 64 - chunk_len)"
proof (intro conjI impI)
  show "\<exists>r. tr_Write H io tid offset data (t, w) = Some r" by (rule tr_Write_total)
  assume size: "\<forall>s. the_session t tid = Some s \<longrightarrow> unat (ses_sizeBytes s) \<le> 2 ^ 64 - chunk_len"
  show "\<exists>r. Commit H c cfg io tid digest (t, w) = Some r"
  proof (cases "the_session t tid")
    case (Some s)
    then obtain b where "zero_fill H (ses_sizeBytes s) (ses_nextOffset s) (ses_sizeBytes s) (ses_digest s) = Some b"
      using zero_fill_total size by blast
    then have "\<exists>r st. commit_verify H c cfg tid digest (t, w) = Some (r, st)" using Some
      by (auto simp: commit_verify_def Let_def split: prod.splits)
    then show ?thesis by (auto simp: Commit_def split: sum.splits option.splits simp del: split_paired_Ex)
  qed (simp add: Commit_def commit_verify_def)
next
  assume "chunk_len dvd unat gap"
  then show "(\<exists>b'. zero_fill H sz gap limit b = Some b') \<longleftrightarrow> unat limit \<le> 2 ^ 64 - chunk_len"
    using zero_fill_aligned zero_fill_total by blast
qed

text \<open>A device node on which every call succeeds and nothing happens.\<close>

definition still_io :: "'w devio" where
  "still_io =
     \<lparr>d_open = (\<lambda>_. ret ()), d_seek_end = (\<lambda>_. ret 0), d_seek_start = (\<lambda>_. ret ()), d_openw = (\<lambda>_. ret ()),
      d_read = (\<lambda>_ _ n. ret (zeros n)), d_write = (\<lambda>_ _ _. ret ()), d_sync = (\<lambda>_. ret ())\<rparr>"

theorem gap_loops_end_witness:
  "zero_fill (\<lambda>x. x) (- 1) 0 (- 1) [] = None \<and> (\<exists>b. zero_fill (\<lambda>x. x) 5 0 5 [] = Some b) \<and>
   (\<exists>r. Commit (\<lambda>x. x) demo_client demo_cfg still_io ''t'' []
      (set_session ''t'' (new_session ''n'' 5) NewTransfers, demo_host) = Some r)"
proof -
  have "\<not> unat (- 1 :: u64) \<le> 2 ^ 64 - chunk_len" "5 \<le> 2 ^ 64 - chunk_len"
    by (simp_all add: chunk_len_def TransferChunkBytes_def unsigned_minus_1_eq_mask mask_eq_exp_minus_1)
  then show ?thesis
    using gap_loops_end [of "\<lambda>x. x" still_io "''t''" 0 "[]" "set_session ''t'' (new_session ''n'' 5) NewTransfers"
        demo_host demo_client demo_cfg "[]" 0 "- 1" "- 1" "[]"]
      gap_loops_end [of "\<lambda>x. x" still_io "''t''" 0 "[]" NewTransfers demo_host demo_client demo_cfg "[]" 0 5 5 "[]"]
    by (auto simp: new_session_def)
qed

section \<open>Commits\<close>

text \<open>The first bytes of a volume.\<close>

definition lv_bytes :: "nat \<Rightarrow> string \<Rightarrow> lvview \<Rightarrow> bytes" where
  "lv_bytes n vid v = (case v vid of None \<Rightarrow> [] | Some x \<Rightarrow> map (o_data x) [0..<n])"

lemma lv_bytes_cong: "content v' vid = content v vid \<Longrightarrow> lv_bytes n vid v' = lv_bytes n vid v"
  by (auto simp: lv_bytes_def content_def split: option.splits)

context node
begin

lemma destroy_undone:
  assumes "the_session t tid = Some s" and "\<not> ses_terminal s" and "wf_view (view w)"
    and "vstate (view w) (ses_volumeID s) = Some StateIncoming" and "destroy (daemon_client run) cfg tid (t, w) = (t', w')"
  shows "vstate (view w') (ses_volumeID s) \<in> {None, Some StateIncoming}"
proof -
  obtain r where "RemoveVolume (daemon_client run) cfg (ses_volumeID s) w = (r, w')"
    using assms(1,2,5) by (auto simp: destroy_def) (metis prod.collapse)
  with RemoveVolume_does show ?thesis by (rule does_cases) (use assms(3,4) effect_remove in auto)
qed

end

lemma Commit_outcome:
  assumes node: "node run cfg view" and wf: "wf_view (view w)" and sync: "sync_frame view io"
    and s: "the_session t tid = Some s" "\<not> ses_terminal s" "\<not> ses_streaming s"
    and rec: "received H s (lv_bytes (unat (ses_sizeBytes s)) (ses_volumeID s) (view w))"
    and st: "vstate (view w) (ses_volumeID s) = Some StateIncoming"
    and r: "Commit H (daemon_client run) cfg io tid digest (t, w) = Some (r, (t', w'))"
  shows "the_session t' tid = None \<and> tr_dead t' tid \<and>
    (case r of
       Inr _ \<Rightarrow> tr_committed t' tid \<and> landed (ses_volumeID s) tid (view w) (view w') \<and>
         digest = content_digest H (lv_bytes (unat (ses_sizeBytes s)) (ses_volumeID s) (view w'))
     | Inl e \<Rightarrow> tr_committed t' = tr_committed t \<and> discarded (ses_volumeID s) (view w) (view w') \<and>
         (digest \<noteq> content_digest H (lv_bytes (unat (ses_sizeBytes s)) (ses_volumeID s) (view w)) \<longrightarrow>
            e = sentinel_err ErrDigestMismatch tid \<and>
            vstate (view w') (ses_volumeID s) \<in> {None, Some StateIncoming}))"
proof -
  let ?vid = "ses_volumeID s" and ?xs = "lv_bytes (unat (ses_sizeBytes s)) (ses_volumeID s) (view w)"
  obtain b where v: "commit_verify H (daemon_client run) cfg tid digest (t, w) =
    Some (if digest = content_digest H ?xs
          then (Inr (Some (digested H s b)), (set_session tid (digested H s b) t, w))
          else (Inl (sentinel_err ErrDigestMismatch tid), destroy (daemon_client run) cfg tid (t, w)))"
    using commit_verify_digest [OF s rec, of "daemon_client run" cfg digest w] by blast
  let ?s = "digested H s b" and ?t = "set_session tid (digested H s b) t"
  have d: "ses_volumeID ?s = ?vid" "\<not> ses_terminal ?s" using s by (simp_all add: digested_def)
  show ?thesis
  proof (cases "digest = content_digest H ?xs")
    case True
    then have l: "commit_land (daemon_client run) cfg io tid ?s (?t, w) = (r, (t', w'))"
      using r v by (simp add: Commit_def)
    have out: "case r of
        Inr _ \<Rightarrow> t' = finish tid (?t\<lparr>tr_committed := (tr_committed ?t)(tid := True)\<rparr>) \<and> landed ?vid tid (view w) (view w')
      | Inl e \<Rightarrow> t' = finish tid ?t \<and> discarded ?vid (view w) (view w')"
      using node.commit_land_outcome [OF node l wf sync _ d(2), unfolded d(1)] st by simp
    have "lv_bytes n ?vid (view w') = lv_bytes n ?vid (view w)" if "landed ?vid tid (view w) (view w')" for n
      using landedD(3) [OF that wf] by (intro lv_bytes_cong) simp
    then show ?thesis using True out by (auto split: sum.splits)
  next
    case False
    have "discarded ?vid (view w) (view w)" using st by (simp add: discarded_def)
    from node.destroy_discards [OF node s(1,2) this] show ?thesis
      using r v False s(1) node.destroy_undone [OF node s(1,2) wf st] by (auto simp: Commit_def)
  qed
qed


text \<open>A transfer of two zero bytes on the reference node.\<close>

definition demo_made :: refhost where
  "demo_made = AList.update ''n'' \<lparr>o_tags = [StateTag StateIncoming, transferTagPrefix @ ''t''], o_pool = ''thin'', o_origin = [],
     o_size = 2, o_active = True, o_skip = False, o_data = (\<lambda>_. 0)\<rparr> demo_host"

lemma demo_made_printable: "printable ''vg0'' demo_made"
  by (simp add: printable_def demo_made_def demo_host_def demo_lv_def tag_evals plain_raw_def raw_values_def raw_of_lv_def
      obj_lv_def plain_char_def list_item_def FormatUint_def digits_of.simps)

lemma demo_made_n: "map_of demo_made ''n'' = Some \<lparr>o_tags = [StateTag StateIncoming, transferTagPrefix @ ''t''], o_pool = ''thin'',
    o_origin = [], o_size = 2, o_active = True, o_skip = False, o_data = (\<lambda>_. 0)\<rparr>"
  by (simp add: demo_made_def AList.update_conv')

lemma demo_made_state: "vstate (map_of demo_made) ''n'' = Some StateIncoming"
  by (simp add: vstate_def demo_made_n obj_state_def knownState_def knownStates_def)

lemma demo_prepare:
  "prepare_land demo_client demo_cfg ''t'' ''n'' 2 (t, demo_host) =
    (Inr (), (case the_session t ''t'' of None \<Rightarrow> t
      | Some s \<Rightarrow> set_session ''t'' (armGrace (s\<lparr>ses_path := ''/dev/vg0/n''\<rparr>)) t, demo_made))"
proof -
  have e: "exec ''thin'' (OpCreateThin ''n'' 2 [StateTag StateIncoming, transferTagPrefix @ ''t''] None) demo_host = Some demo_made"
    by (simp add: demo_made_def tag_evals)
  have g: "GetVolume demo_client demo_cfg ''n'' demo_made =
      (Inr (volumeFromLV (obj_lv ''vg0'' (''n'', the (map_of demo_made ''n'')))), demo_made)"
    by (rule demo_GetVolume [OF demo_made_printable])
      (simp_all add: demo_made_n obj_state_def knownState_def knownStates_def)
  have "vol_Path (volumeFromLV (obj_lv ''vg0'' (''n'', the (map_of demo_made ''n'')))) = ''/dev/vg0/n''"
    by (simp add: demo_made_n volumeFromLV_def obj_lv_def Let_def split: prod.splits)
  then show ?thesis
    by (simp add: prepare_land_def wrap_def mapErr_def demo_commands(2) [OF e] g del: exec.simps split: option.splits)
qed

definition demo_session :: session where
  "demo_session = armGrace ((new_session ''n'' 2)\<lparr>ses_path := ''/dev/vg0/n''\<rparr>)"

definition demo_incoming :: refhost where
  "demo_incoming = AList.update ''n'' (demo_lv [StateTag StateIncoming, transferTagPrefix @ ''t''] [] True) demo_host"

definition received_demo :: Transfers where
  "received_demo = set_session ''t'' ((new_session ''n'' 2)\<lparr>ses_path := ''/dev/vg0/n'', ses_grace := True\<rparr>) NewTransfers"

lemma still_sync: "sync_frame view still_io"
  by (simp add: sync_frame_def still_io_def ret_def)

lemma demo_made_wf: "wf_view (map_of demo_made)"
  by (rule wf_view_map_of) (simp add: demo_made_def demo_host_def demo_lv_def one_state_def state_tag_def tag_evals)


lemma check_frame_cong:
  "ses_sizeBytes s' = ses_sizeBytes s \<Longrightarrow> ses_nextOffset s' = ses_nextOffset s \<Longrightarrow>
   check_frame s' offset data = check_frame s offset data"
  by (simp only: check_frame_def)

text \<open>
  C32. A failed device write is not undone in the digest: the stream may resume at the same offset and the
  frame is then accepted, but its chunk has entered the digest twice, so the transfer no longer
  commits with the digest of its content.
\<close>

theorem failed_write_poisons_digest:
  assumes s: "the_session t tid = Some s" "ses_device s" and ok: "check_frame s (ses_nextOffset s) data = None"
    and w1: "d_write io (ses_path s) (ses_nextOffset s) data w = (Inl e, w1)"
    and w2: "d_write io (ses_path s) (ses_nextOffset s) data w1 = (Inr (), w2)"
  shows "\<exists>e' t1 t2 s2. tr_Write H io tid (ses_nextOffset s) data (t, w) = Some (Inl e', (t1, w1)) \<and>
    NextOffset tid t1 = NextOffset tid t \<and>
    tr_Write H io tid (ses_nextOffset s) data (t1, w1) = Some (Inr (), (t2, w2)) \<and>
    the_session t2 tid = Some s2 \<and> ses_digest s2 = ses_digest s @ H data @ H data"
proof -
  have fill: "zero_fill H sz (ses_nextOffset s) (ses_nextOffset s) b = Some b" for sz b
    by (subst zero_fill.simps) simp
  let ?s = "s\<lparr>ses_device := True, ses_digest := AddChunk H (ses_digest s) data\<rparr>"
  have ok2: "check_frame ?s (ses_nextOffset s) data = None"
    using ok check_frame_cong [of ?s s] by simp
  let ?t = "set_session tid ?s t" and ?s2 = "?s\<lparr>ses_digest := AddChunk H (ses_digest ?s) data,
    ses_nextOffset := ses_nextOffset s + of_nat (length data)\<rparr>"
  have "tr_Write H io tid (ses_nextOffset s) data (t, w) =
      Some (Inl (Wrap (''writing incoming volume at '' @ FormatUint (ses_nextOffset s) @ '': '') e []), (?t, w1))"
    by (simp add: tr_Write_def s ok fill w1 Let_def ret_def)
  moreover have "tr_Write H io tid (ses_nextOffset s) data (?t, w1) = Some (Inr (), (set_session tid ?s2 ?t, w2))"
    by (simp add: tr_Write_def s ok2 fill w2 Let_def ret_def)
  moreover have "NextOffset tid ?t = NextOffset tid t" using s by (simp add: NextOffset_def)
  moreover have "the_session (set_session tid ?s2 ?t) tid = Some ?s2"
    and "ses_digest ?s2 = ses_digest s @ H data @ H data"
    by (simp_all add: AddChunk_def)
  ultimately show ?thesis by blast
qed

text \<open>A device whose first write fails.\<close>

definition flaky_io :: "(bool \<times> bytes) devio" where
  "flaky_io =
     \<lparr>d_open = (\<lambda>_. ret ()), d_seek_end = (\<lambda>_. ret 0), d_seek_start = (\<lambda>_. ret ()), d_openw = (\<lambda>_. ret ()),
      d_read = (\<lambda>_ _ n. ret (zeros n)),
      d_write = (\<lambda>_ off data w. if fst w then (Inr (), (True, put off data (snd w))) else (Inl (OsError ''input/output error''), (True, snd w))),
      d_sync = (\<lambda>_. ret ())\<rparr>"

definition open_demo :: Transfers where
  "open_demo = set_session ''t'' ((new_session ''n'' 3)\<lparr>ses_path := ''/dev/vg0/n'', ses_streaming := True, ses_device := True\<rparr>) NewTransfers"

theorem failed_write_poisons_digest_witness:
  "\<exists>e' t1 t2 s2. tr_Write (\<lambda>x. x) flaky_io ''t'' 0 [1, 2, 3] (open_demo, (False, [0, 0, 0])) = Some (Inl e', (t1, (True, [0, 0, 0]))) \<and>
    tr_Write (\<lambda>x. x) flaky_io ''t'' 0 [1, 2, 3] (t1, (True, [0, 0, 0])) = Some (Inr (), (t2, (True, [1, 2, 3]))) \<and>
    the_session t2 ''t'' = Some s2 \<and> ses_digest s2 = [1, 2, 3, 1, 2, 3]"
proof -
  let ?s = "(new_session ''n'' 3)\<lparr>ses_path := ''/dev/vg0/n'', ses_streaming := True, ses_device := True\<rparr>"
  have "check_frame ?s (ses_nextOffset ?s) [1, 2, 3] = None"
    by (simp add: check_frame_def new_session_def chunk_len_def TransferChunkBytes_def)
  from failed_write_poisons_digest [where s = ?s and t = open_demo and tid = "''t''" and io = flaky_io
      and w = "(False, [0, 0, 0])" and H = "\<lambda>x. x", OF _ _ this]
  show ?thesis by (simp add: open_demo_def flaky_io_def new_session_def put_def NewDigestBuilder_def) blast
qed

section \<open>The table\<close>

text \<open>
  C28. The transfer table, over every interleaving of its calls, the second halves of prepares and commits,
  grace expiries and foreign activity on the host: no more sessions than configured, no id both live
  and used up, committed ids are used up, and no session is forgotten: it has a stream, an armed
  grace timer, or a prepare that is still running.
\<close>

theorem transfers_invariant:
  assumes "reachable H c cfg io w x" and "0 \<le> cfg_MaxInboundTransfers cfg"
  shows "int (length (tr_sessions (xf_table x))) \<le> cfg_MaxInboundTransfers cfg \<and>
    distinct (map fst (tr_sessions (xf_table x))) \<and>
    (\<forall>tid. tr_committed (xf_table x) tid \<longrightarrow> tr_dead (xf_table x) tid) \<and>
    (\<forall>tid s. the_session (xf_table x) tid = Some s \<longrightarrow>
       \<not> tr_dead (xf_table x) tid \<and> \<not> ses_terminal s \<and>
       (ses_streaming s \<or> ses_grace s \<or> tid \<in> fst ` set (xf_preparing x)))"
  using xfer_okD(1) [OF reachable_ok [OF assms]] by (simp add: table_ok_def)

definition demo_reserved :: "refhost xfer" where
  "demo_reserved = (xfer_start demo_host)\<lparr>xf_table := set_session ''t'' (new_session ''n'' 2) NewTransfers,
     xf_preparing := [(''t'', ''n'', 2)]\<rparr>"

lemma demo_reserve: "prepare_reserve demo_cfg ''t'' ''n'' 2 NewTransfers = Inr (set_session ''t'' (new_session ''n'' 2) NewTransfers)"
  by (simp add: prepare_reserve_def NewTransfers_def the_session_def live_sessions_def demo_cfg_def)

lemma demo_reserved_reachable: "reachable (\<lambda>x. x) demo_client demo_cfg still_io demo_host demo_reserved"
proof -
  have "xstep (\<lambda>x. x) demo_client demo_cfg still_io (xfer_start demo_host) demo_reserved"
    using xstep.reserve [of demo_cfg "''t''" "''n''" 2 "xfer_start demo_host", where H = "\<lambda>x. x" and c = demo_client and io = still_io]
    by (simp add: xfer_start_def demo_reserve demo_reserved_def)
  then show ?thesis by (rule reachable.step [OF reachable.start])
qed

theorem transfers_invariant_witness:
  "ses_streaming (new_session ''n'' 2) \<or> ses_grace (new_session ''n'' 2) \<or> ''t'' \<in> fst ` set (xf_preparing demo_reserved)"
  using transfers_invariant [OF demo_reserved_reachable] by (auto simp: demo_reserved_def demo_cfg_def)

text \<open>
  C29. What ended stays ended: after any further steps, an id that is used up is refused by every later
  prepare, and a commit of a committed transfer answers success again, with any digest, and changes
  nothing.
\<close>

theorem ended_transfers_stay:
  assumes "reachable H c cfg io w x" and "0 \<le> cfg_MaxInboundTransfers cfg" and "(xstep H c cfg io)\<^sup>*\<^sup>* x y"
  shows "(tr_dead (xf_table x) tid \<longrightarrow>
      prepare_reserve cfg tid vid n (xf_table y) = Inl (sentinel_err ErrTransferUsed tid)) \<and>
    (tr_committed (xf_table x) tid \<longrightarrow>
      Commit H c cfg io tid digest (xf_table y, xf_host y) = Some (Inr (), (xf_table y, xf_host y)))"
proof -
  have ok: "xfer_ok cfg y" and mono: "tr_dead (xf_table x) \<le> tr_dead (xf_table y)" "tr_committed (xf_table x) \<le> tr_committed (xf_table y)"
    using xsteps_mono [OF assms(3) reachable_ok [OF assms(1,2)]] by auto
  have "the_session (xf_table y) tid = None" if "tr_committed (xf_table y) tid"
    using xfer_okD(1) [OF ok] that by (cases "the_session (xf_table y) tid") (auto simp: table_ok_def)
  then show ?thesis
    using mono by (auto simp: prepare_reserve_def Commit_def commit_verify_def le_fun_def)
qed

text \<open>The same transfer, step by step.\<close>

definition demo_prepared :: "refhost xfer" where
  "demo_prepared = (xfer_start demo_made)\<lparr>xf_table := set_session ''t'' demo_session NewTransfers\<rparr>"

lemma demo_prepared_reachable: "reachable (\<lambda>x. x) demo_client demo_cfg still_io demo_host demo_prepared"
proof -
  have "prepare_land demo_client demo_cfg ''t'' ''n'' 2 (xf_table demo_reserved, xf_host demo_reserved) =
      (Inr (), (set_session ''t'' demo_session NewTransfers, demo_made))"
    by (simp add: demo_reserved_def xfer_start_def demo_prepare demo_session_def) (simp add: set_session_def NewTransfers_def)
  from xstep.prepared [OF _ this, where H = "\<lambda>x. x" and io = still_io]
  have "xstep (\<lambda>x. x) demo_client demo_cfg still_io demo_reserved demo_prepared"
    by (simp add: demo_reserved_def demo_prepared_def xfer_start_def with_node_def)
  then show ?thesis by (rule reachable.step [OF demo_reserved_reachable])
qed

definition demo_digest :: bytes where
  "demo_digest = content_digest (\<lambda>x. x) (zeros 2)"

lemma demo_committed:
  "\<exists>x. reachable (\<lambda>x. x) demo_client demo_cfg still_io demo_host x \<and> tr_committed (xf_table x) ''t''"
proof -
  let ?t = "set_session ''t'' demo_session NewTransfers"
  have s: "the_session ?t ''t'' = Some demo_session" "\<not> ses_terminal demo_session" "\<not> ses_streaming demo_session"
    by (simp_all add: demo_session_def armGrace_def new_session_def)
  have rec: "received (\<lambda>x. x) demo_session (zeros 2)"
    using received_fresh [of 2 "\<lambda>x. x" "''n''"] by (simp add: received_def demo_session_def armGrace_def new_session_def Let_def)
  obtain b where v: "commit_verify (\<lambda>x. x) demo_client demo_cfg ''t'' demo_digest (?t, demo_made) =
      Some (Inr (Some (digested (\<lambda>x. x) demo_session b)), (set_session ''t'' (digested (\<lambda>x. x) demo_session b) ?t, demo_made))"
    using commit_verify_digest [OF s rec, of demo_client demo_cfg demo_digest demo_made] by (auto simp: demo_digest_def)
  let ?s = "digested (\<lambda>x. x) demo_session b"
  let ?x = "demo_prepared\<lparr>xf_table := set_session ''t'' ?s ?t, xf_committing := [(''t'', ?s)]\<rparr>"
  have "commit_verify (\<lambda>x. x) demo_client demo_cfg ''t'' demo_digest (xf_table demo_prepared, xf_host demo_prepared) =
      Some (Inr (Some ?s), (set_session ''t'' ?s ?t, demo_made))"
    using v by (simp add: demo_prepared_def xfer_start_def)
  from xstep.verified [OF this, of still_io] have "xstep (\<lambda>x. x) demo_client demo_cfg still_io demo_prepared ?x"
    by (simp add: demo_prepared_def xfer_start_def with_node_def)
  then have r: "reachable (\<lambda>x. x) demo_client demo_cfg still_io demo_host ?x"
    by (rule reachable.step [OF demo_prepared_reachable])
  have "\<exists>w'. land_volume demo_client demo_cfg still_io ''t'' ?s False demo_made = (Inr (), w')"
    using demo_made_n by (simp add: land_volume_def wrap_def mapErr_def seqE_def demo_commands digested_def demo_session_def
        armGrace_def new_session_def ret_def AList.update_conv')
  then obtain t' w' where l: "commit_land demo_client demo_cfg still_io ''t'' ?s (xf_table ?x, xf_host ?x) = (Inr (), (t', w'))"
    and c: "tr_committed t' ''t''"
    by (auto simp: commit_land_def Let_def digested_def demo_session_def armGrace_def new_session_def demo_prepared_def
        xfer_start_def)
  have "xstep (\<lambda>x. x) demo_client demo_cfg still_io ?x (with_node ?x (t', w')\<lparr>xf_committing := remove1 (''t'', ?s) (xf_committing ?x)\<rparr>)"
    by (rule xstep.landed [OF _ l]) simp
  from reachable.step [OF r this] show ?thesis using c
    by (intro exI [of _ "with_node ?x (t', w')\<lparr>xf_committing := remove1 (''t'', ?s) (xf_committing ?x)\<rparr>"])
      (simp add: with_node_def)
qed

theorem ended_transfers_stay_witness:
  "\<exists>x. reachable (\<lambda>x. x) demo_client demo_cfg still_io demo_host x \<and>
     Commit (\<lambda>x. x) demo_client demo_cfg still_io ''t'' [] (xf_table x, xf_host x) = Some (Inr (), (xf_table x, xf_host x))"
proof -
  obtain x where x: "reachable (\<lambda>x. x) demo_client demo_cfg still_io demo_host x" "tr_committed (xf_table x) ''t''"
    using demo_committed by blast
  have "0 \<le> cfg_MaxInboundTransfers demo_cfg" by (simp add: demo_cfg_def)
  from ended_transfers_stay [OF x(1) this, of x "''t''" "''n''" 0 "[]"] x show ?thesis by blast
qed

lemma run_unit_ref_refused:
  assumes "exec pool op w = None"
  shows "\<exists>e. run_unit (daemon_client (ref_run vg pool)) what (argv vg pool op) w = (Inl e, w)"
  by (simp add: run_unit_def seqE_def mapErr_def client_run_def ref_run_argv assms del: argv.simps)

lemma demo_RemoveVolume_refused:
  assumes "map_of w n = None"
  shows "\<exists>e. RemoveVolume demo_client demo_cfg n w = (Inl e, w)"
proof -
  have pool: "cfg_ThinPool demo_cfg = ''thin''" by (simp add: demo_cfg_def)
  have "exec ''thin'' (OpRemove n) w = None" using assms by simp
  from run_unit_ref_refused [OF this, of "cfg_VolumeGroup demo_cfg"]
  have "\<exists>e. RemoveLogicalVolume demo_client (lv_target demo_cfg n) force_remove w = (Inl e, w)"
    unfolding lv_target_def pool by (simp only: remove_command [where pool = "''thin''"])
  then show ?thesis by (auto simp: RemoveVolume_def wrap_def mapErr_def)
qed

text \<open>
  C33. An abort can overtake a prepare. After the prepare reserved the id and before it creates the volume,
  the abort ends the session and its removal finds no volume; the second half of the prepare then
  creates the volume and succeeds. The volume is left incoming, with no session and so no timer that
  would remove it: only a restart does.
\<close>

theorem abort_overtakes_prepare:
  "\<exists>t1 t2 w.
     prepare_reserve demo_cfg ''t'' ''n'' 2 NewTransfers = Inr t1 \<and>
     Abort demo_client demo_cfg ''t'' (t1, demo_host) = (t2, demo_host) \<and>
     prepare_land demo_client demo_cfg ''t'' ''n'' 2 (t2, demo_host) = (Inr (), (t2, w)) \<and>
     tr_sessions t2 = [] \<and> vstate (map_of demo_host) ''n'' = None \<and> vstate (map_of w) ''n'' = Some StateIncoming"
proof -
  let ?t1 = "set_session ''t'' (new_session ''n'' 2) NewTransfers"
  let ?t2 = "finish ''t'' ?t1"
  have "\<exists>e. RemoveVolume demo_client demo_cfg ''n'' demo_host = (Inl e, demo_host)"
    by (rule demo_RemoveVolume_refused) simp
  then have "Abort demo_client demo_cfg ''t'' (?t1, demo_host) = (?t2, demo_host)"
    by (auto simp: Abort_def destroy_def new_session_def)
  moreover have "prepare_land demo_client demo_cfg ''t'' ''n'' 2 (?t2, demo_host) = (Inr (), (?t2, demo_made))"
    by (simp add: demo_prepare)
  moreover have "tr_sessions ?t2 = []"
    by (simp add: finish_def) (simp add: set_session_def NewTransfers_def)
  moreover have "vstate (map_of demo_host) ''n'' = None" by (simp add: vstate_def)
  ultimately show ?thesis using demo_reserve demo_made_state by blast
qed

end
