(* ===== verification/ApiHandlers.thy ===== *)
theory ApiHandlers
  imports ApiStatus TransferTheorems
begin

text \<open>
  The services: \<^verbatim>\<open>internal/api/api.go\<close>, \<^verbatim>\<open>internal/api/rollback.go\<close> and \<^verbatim>\<open>internal/api/createfromsnapshot.go\<close>. A
  handler checks its request, calls the storage package and answers; long operations go on in the
  background. The state of a server is the host and the four volatile tables of the process; the jobs
  a handler starts are kept as data (\<open>sv_jobs\<close>) and run by \<open>run_job\<close> in the push theory.

  A handler is modelled as one sequence of calls. Streams are a list of messages on the receiving
  side and a send operation on the sending side.
\<close>

section \<open>The server\<close>

datatype job =
    RunCreate string u64 string
  | RunDelete string "string list" string
  | RunCopyFromSnapshot string string string u64
  | RunPush string string string string
  | RunSnapshotPush string string string string
  | ResolveUntilSettled string string string
  | ResolveRecovered

record 'w server =
  sv_host :: 'w
  sv_ops :: Table
  sv_pins :: ExportPins
  sv_transfers :: Transfers
  sv_reserved :: nameReservations
  sv_jobs :: "job list"

definition on_host :: "('w, 'e, 'a) go \<Rightarrow> ('w server, 'e, 'a) go" where
  "on_host m s = (let (r, w) = m (sv_host s) in (r, s\<lparr>sv_host := w\<rparr>))"

definition on_transfers :: "('w node_state, 'e, 'a) go \<Rightarrow> ('w server, 'e, 'a) go" where
  "on_transfers m s =
     (let (r, (t, w)) = m (sv_transfers s, sv_host s) in (r, s\<lparr>sv_transfers := t, sv_host := w\<rparr>))"

definition lift_io :: "'w devio \<Rightarrow> 'w server devio" where
  "lift_io io =
     \<lparr>d_open = (\<lambda>p. on_host (d_open io p)), d_seek_end = (\<lambda>p. on_host (d_seek_end io p)),
      d_seek_start = (\<lambda>p. on_host (d_seek_start io p)), d_openw = (\<lambda>p. on_host (d_openw io p)),
      d_read = (\<lambda>p off n. on_host (d_read io p off n)), d_write = (\<lambda>p off data. on_host (d_write io p off data)),
      d_sync = (\<lambda>p. on_host (d_sync io p))\<rparr>"

definition spawn :: "job \<Rightarrow> 'w server \<Rightarrow> 'w server" where
  "spawn j s = s\<lparr>sv_jobs := sv_jobs s @ [j]\<rparr>"

definition ops_fail :: "string \<Rightarrow> string \<Rightarrow> 'w server \<Rightarrow> 'w server" where
  "ops_fail op reason s = s\<lparr>sv_ops := ops_Fail (sv_ops s) op reason\<rparr>"

definition ops_finish :: "string \<Rightarrow> 'w server \<Rightarrow> 'w server" where
  "ops_finish op s = s\<lparr>sv_ops := ops_Done (sv_ops s) op\<rparr>"

definition begin_op :: "string \<Rightarrow> ('w server, Status, unit) go" where
  "begin_op op s =
     (case ops_Begin (sv_ops s) op of
        Inl _ \<Rightarrow> (Inl (status_Error AlreadyExists ''operation id already used''), s)
      | Inr ops \<Rightarrow> (Inr (), s\<lparr>sv_ops := ops\<rparr>))"

text \<open>A check of a request, and the status grpc makes of an error a handler returns as it is.\<close>

definition demand :: "bool \<Rightarrow> string \<Rightarrow> ('w, Status, 'a) go \<Rightarrow> ('w, Status, 'a) go" where
  "demand ok message m = (if ok then m else fail (status_Error InvalidArgument message))"

definition returned :: "err \<Rightarrow> Status" where
  "returned e = (case e of PeerError s \<Rightarrow> s | _ \<Rightarrow> status_Error Unknown (err_Error e))"

text \<open>A registered server dials push targets with the credentials made here, and resolves in the background.\<close>

definition Register :: "(Config \<Rightarrow> string + 'c) \<Rightarrow> Config \<Rightarrow> 'w \<Rightarrow> string + 'c \<times> 'w server" where
  "Register clientCredentials cfg w =
     (case clientCredentials cfg of
        Inl e \<Rightarrow> Inl e
      | Inr dialCreds \<Rightarrow>
          Inr (dialCreds,
            \<lparr>sv_host = w, sv_ops = NewTable, sv_pins = NewExportPins, sv_transfers = NewTransfers,
             sv_reserved = newNameReservations, sv_jobs = [ResolveRecovered]\<rparr>))"

section \<open>Volumes\<close>

definition api_CreateVolume ::
  "'w Client \<Rightarrow> Config \<Rightarrow> string \<Rightarrow> u64 \<Rightarrow> string \<Rightarrow> ('w server, Status, unit) go" where
  "api_CreateVolume c cfg vid n op =
     demand (volumeIDPattern vid) ''volume_id is not a valid lv name''
    (demand (n \<noteq> 0) ''size_bytes must be set''
    (demand (op \<noteq> []) ''operation_id must be set''
    (seqE (mapErr (\<lambda>_. status_Error Internal ''volume lookup failed'') (on_host (VolumeExists c cfg vid))) (\<lambda>exists s.
       if exists \<or> Reserved (sv_reserved s) [vid]
       then (Inl (status_Error AlreadyExists ''volume already exists''), s)
       else seqE (begin_op op) (\<lambda>_ s. (Inr (), spawn (RunCreate vid n op) s)) s))))"

definition runCreate :: "'w Client \<Rightarrow> Config \<Rightarrow> string \<Rightarrow> u64 \<Rightarrow> string \<Rightarrow> 'w server \<Rightarrow> 'w server" where
  "runCreate c cfg vid n op s =
     (case on_host (CreateVolume c cfg vid n) s of
        (Inl e, s1) \<Rightarrow> ops_fail op (err_Error e) s1
      | (Inr _, s1) \<Rightarrow> ops_finish op s1)"

datatype OperationState = OpPending | OpProgress u64 | OpDone | OpFailed string

definition GetOperation :: "string \<Rightarrow> 'w server \<Rightarrow> Status + OperationState" where
  "GetOperation op s =
     (case ops_Get (sv_ops s) op of
        None \<Rightarrow> Inl (status_Error NotFound ''unknown operation'')
      | Some operation \<Rightarrow>
          Inr (case op_Phase operation of
            Pending \<Rightarrow> OpPending
          | Progressing \<Rightarrow> OpProgress (op_BytesDone operation)
          | Done \<Rightarrow> OpDone
          | Failed \<Rightarrow> OpFailed (op_Reason operation)))"

record ProtoVolume =
  pv_VolumeId :: string
  pv_State :: VolumeState
  pv_SizeBytes :: u64
  pv_UsedBytes :: u64
  pv_OriginId :: string

definition api_ListVolumes :: "'w Client \<Rightarrow> Config \<Rightarrow> ('w server, Status, ProtoVolume list) go" where
  "api_ListVolumes c cfg =
     seqE (mapErr (\<lambda>_. status_Error Internal ''scanning volumes failed'') (on_host (ListVolumes c cfg))) (\<lambda>volumes.
       ret (map (\<lambda>v. \<lparr>pv_VolumeId = vol_ID v, pv_State = protoState (vol_State v), pv_SizeBytes = vol_SizeBytes v,
         pv_UsedBytes = vol_UsedBytes v, pv_OriginId = vol_Origin v\<rparr>) volumes))"

definition api_Attach :: "'w Client \<Rightarrow> Config \<Rightarrow> string \<Rightarrow> ('w server, Status, string) go" where
  "api_Attach c cfg vid =
     demand (volumeIDPattern vid) ''volume_id is not a valid lv name''
       (mapErr (\<lambda>e. volumeError e ''attaching failed'') (on_host (Attach c cfg vid)))"

definition api_Detach :: "'w Client \<Rightarrow> Config \<Rightarrow> string \<Rightarrow> ('w server, Status, unit) go" where
  "api_Detach c cfg vid =
     demand (volumeIDPattern vid) ''volume_id is not a valid lv name''
       (mapErr (\<lambda>e. volumeError e ''detaching failed'') (on_host (Detach c cfg vid)))"

definition api_DeleteVolume ::
  "'w Client \<Rightarrow> Config \<Rightarrow> string \<Rightarrow> bool \<Rightarrow> string \<Rightarrow> ('w server, Status, unit) go" where
  "api_DeleteVolume c cfg vid force op =
     demand (volumeIDPattern vid) ''volume_id is not a valid lv name''
    (demand (op \<noteq> []) ''operation_id must be set''
    (seqE (begin_op op) (\<lambda>_ s.
       case on_host (MarkDeleting c cfg (sv_pins s) vid force) s of
         (Inl e, s1) \<Rightarrow> (Inl (volumeError e ''deleting failed''), ops_fail op (err_Error e) s1)
       | (Inr snapshots, s1) \<Rightarrow> (Inr (), spawn (RunDelete vid snapshots op) s1))))"

fun remove_all :: "'w Client \<Rightarrow> Config \<Rightarrow> string list \<Rightarrow> ('w, err, unit) go" where
  "remove_all c cfg [] = ret ()"
| "remove_all c cfg (target # targets) = seqE (RemoveVolume c cfg target) (\<lambda>_. remove_all c cfg targets)"

definition runDelete :: "'w Client \<Rightarrow> Config \<Rightarrow> string \<Rightarrow> string list \<Rightarrow> string \<Rightarrow> 'w server \<Rightarrow> 'w server" where
  "runDelete c cfg vid snapshots op s =
     (case on_host (remove_all c cfg (snapshots @ [vid])) s of
        (Inl e, s1) \<Rightarrow> ops_fail op (err_Error e) s1
      | (Inr _, s1) \<Rightarrow> ops_finish op s1)"

definition api_CreateSnapshot ::
  "'w Client \<Rightarrow> Config \<Rightarrow> string \<Rightarrow> string \<Rightarrow> ('w server, Status, unit) go" where
  "api_CreateSnapshot c cfg vid sid =
     demand (volumeIDPattern vid) ''volume_id is not a valid lv name''
    (demand (volumeIDPattern sid) ''snapshot_id is not a valid lv name''
    (seqE (mapErr (\<lambda>_. status_Error Internal ''snapshot lookup failed'') (on_host (VolumeExists c cfg sid))) (\<lambda>exists.
       if exists then fail (status_Error AlreadyExists ''snapshot already exists'')
       else mapErr (\<lambda>e. volumeError e ''creating snapshot failed'') (on_host (CreateSnapshot c cfg vid sid)))))"

definition api_DeleteSnapshot :: "'w Client \<Rightarrow> Config \<Rightarrow> string \<Rightarrow> ('w server, Status, unit) go" where
  "api_DeleteSnapshot c cfg sid =
     demand (volumeIDPattern sid) ''snapshot_id is not a valid lv name''
       (\<lambda>s. mapErr (\<lambda>e. volumeError e ''deleting snapshot failed'') (on_host (DeleteSnapshot c cfg (sv_pins s) sid)) s)"

definition api_ResizeVolume :: "'w Client \<Rightarrow> Config \<Rightarrow> string \<Rightarrow> u64 \<Rightarrow> ('w server, Status, unit) go" where
  "api_ResizeVolume c cfg vid n =
     demand (volumeIDPattern vid) ''volume_id is not a valid lv name''
    (demand (n \<noteq> 0) ''size_bytes must be set''
       (mapErr (\<lambda>e. volumeError e ''resizing failed'') (on_host (ResizeVolume c cfg vid n))))"

section \<open>Exports\<close>

definition releaseExport :: "'w Client \<Rightarrow> Config \<Rightarrow> string \<Rightarrow> 'w server \<Rightarrow> 'w server" where
  "releaseExport c cfg sid s =
     (let (final, pins) = Release (sv_pins s) sid; s1 = s\<lparr>sv_pins := pins\<rparr> in
      if \<not> final then s1
      else s1\<lparr>sv_host := snd (DeactivateLogicalVolume c (lv_target cfg sid) no_common (sv_host s1))\<rparr>)"

definition pin :: "string \<Rightarrow> 'w server \<Rightarrow> 'w server" where
  "pin sid s = s\<lparr>sv_pins := snd (Acquire (sv_pins s) sid)\<rparr>"

datatype ExportResponse = ExportFrame Frame | ExportTrailer bytes u64

definition export_body ::
  "hash \<Rightarrow> 'w devio \<Rightarrow> (u64 \<Rightarrow> err option) \<Rightarrow> 'w Client \<Rightarrow> Config \<Rightarrow> (ExportResponse \<Rightarrow> ('w server, err, unit) go) \<Rightarrow>
   string \<Rightarrow> ('w server, Status, unit) go" where
  "export_body H io cancelled c cfg send sid =
     seqE (mapErr (\<lambda>e. volumeError e ''export lookup failed'') (on_host (GetVolume c cfg sid))) (\<lambda>snapshot.
       if vol_State snapshot \<noteq> StateSnapshot
       then fail (volumeError (WrongStateError sid (vol_State snapshot)) ''export refused'')
       else
         seqE (mapErr (\<lambda>_. status_Error Internal ''activating snapshot failed'')
                 (on_host (ActivateLogicalVolume c (lv_target cfg sid) (activate_opts True)))) (\<lambda>_.
         seqE (mapErr (\<lambda>e. volumeError e ''export lookup failed'') (on_host (GetVolume c cfg sid))) (\<lambda>snapshot.
         seqE (mapErr (\<lambda>_. status_Error Internal ''export failed'')
                 (ReadDevice H (lift_io io) cancelled (vol_Path snapshot) (\<lambda>frame. send (ExportFrame frame)))) (\<lambda>(n, digest).
         mapErr returned (send (ExportTrailer digest n))))))"

definition api_Export ::
  "hash \<Rightarrow> 'w devio \<Rightarrow> (u64 \<Rightarrow> err option) \<Rightarrow> 'w Client \<Rightarrow> Config \<Rightarrow> (ExportResponse \<Rightarrow> ('w server, err, unit) go) \<Rightarrow>
   string \<Rightarrow> ('w server, Status, unit) go" where
  "api_Export H io cancelled c cfg send sid =
     demand (volumeIDPattern sid) ''snapshot_id is not a valid lv name'' (\<lambda>s.
       let (r, s1) = export_body H io cancelled c cfg send sid (pin sid s) in (r, releaseExport c cfg sid s1))"

section \<open>Transfers\<close>

definition api_PrepareReceive ::
  "'w Client \<Rightarrow> Config \<Rightarrow> string \<Rightarrow> string \<Rightarrow> u64 \<Rightarrow> ('w server, Status, unit) go" where
  "api_PrepareReceive c cfg vid tid n =
     demand (volumeIDPattern vid) ''volume_id is not a valid lv name''
    (demand (volumeIDPattern tid) ''transfer_id is not a valid tag value''
    (demand (n \<noteq> 0) ''size_bytes must be set'' (\<lambda>s.
       if Reserved (sv_reserved s) [vid] then (Inl (status_Error AlreadyExists ''volume already exists''), s)
       else case on_host (GetVolume c cfg vid) s of
         (Inr existing, s1) \<Rightarrow>
           (Inl (status_Error AlreadyExists (err_Error (WrongStateError vid (vol_State existing)))), s1)
       | (Inl e, s1) \<Rightarrow>
           if \<not> err_Is e ErrNotFound then (Inl (volumeError e ''prepare lookup failed''), s1)
           else mapErr (\<lambda>e. transferError e ''preparing transfer failed'')
             (on_transfers (PrepareReceive c cfg tid vid n)) s1)))"

definition QueryTransfer :: "string \<Rightarrow> 'w server \<Rightarrow> Status + u64" where
  "QueryTransfer tid s =
     (case NextOffset tid (sv_transfers s) of
        Inl _ \<Rightarrow> Inl (status_Error NotFound ''unknown transfer'')
      | Inr offset \<Rightarrow> Inr offset)"

text \<open>What arrives on a receive stream; after the last message the stream ends.\<close>

datatype ReceiveRequest = Header string | Content u64 bytes | Unset | RecvFailed Status

fun receive_loop ::
  "hash \<Rightarrow> 'w devio \<Rightarrow> string \<Rightarrow> ReceiveRequest list \<Rightarrow> 'w server \<Rightarrow> ((Status + unit) \<times> 'w server) option" where
  "receive_loop H io tid [] s = Some (Inr (), s)"
| "receive_loop H io tid (RecvFailed e # _) s = Some (Inl e, s)"
| "receive_loop H io tid (Header _ # _) s = Some (Inl (status_Error InvalidArgument ''expected a frame''), s)"
| "receive_loop H io tid (Unset # _) s = Some (Inl (status_Error InvalidArgument ''expected a frame''), s)"
| "receive_loop H io tid (Content offset data # msgs) s =
     (case tr_Write H io tid offset data (sv_transfers s, sv_host s) of
        None \<Rightarrow> None
      | Some (r, (t, w)) \<Rightarrow>
          let s1 = s\<lparr>sv_transfers := t, sv_host := w\<rparr> in
          (case r of
             Inl e \<Rightarrow> Some (Inl (transferError e ''writing frame failed''), s1)
           | Inr _ \<Rightarrow> receive_loop H io tid msgs s1))"

definition api_Receive ::
  "hash \<Rightarrow> 'w devio \<Rightarrow> ReceiveRequest list \<Rightarrow> 'w server \<Rightarrow> ((Status + unit) \<times> 'w server) option" where
  "api_Receive H io msgs s =
     (case msgs of
        Header tid # rest \<Rightarrow>
          (case tr_Attach tid (sv_transfers s) of
             (Inl e, t) \<Rightarrow> Some (Inl (transferError e ''attaching stream failed''), s\<lparr>sv_transfers := t\<rparr>)
           | (Inr _, t) \<Rightarrow>
               map_option (\<lambda>(r, s1). (r, s1\<lparr>sv_transfers := tr_Detach tid (sv_transfers s1)\<rparr>))
                 (receive_loop H io tid rest (s\<lparr>sv_transfers := t\<rparr>)))
      | _ \<Rightarrow> Some (Inl (status_Error InvalidArgument ''the stream must start with a header''), s))"

definition CommitTransfer ::
  "hash \<Rightarrow> 'w Client \<Rightarrow> Config \<Rightarrow> 'w devio \<Rightarrow> string \<Rightarrow> bytes \<Rightarrow> 'w server \<Rightarrow> ((Status + unit) \<times> 'w server) option" where
  "CommitTransfer H c cfg io tid digest s =
     map_option (\<lambda>(r, (t, w)).
        (case r of Inl e \<Rightarrow> Inl (transferError e ''committing transfer failed'') | Inr _ \<Rightarrow> Inr (),
         s\<lparr>sv_transfers := t, sv_host := w\<rparr>))
       (Commit H c cfg io tid digest (sv_transfers s, sv_host s))"

definition AbortTransfer :: "'w Client \<Rightarrow> Config \<Rightarrow> string \<Rightarrow> 'w server \<Rightarrow> 'w server" where
  "AbortTransfer c cfg tid s =
     (let (t, w) = Abort c cfg tid (sv_transfers s, sv_host s) in s\<lparr>sv_transfers := t, sv_host := w\<rparr>)"

definition QueryVolume :: "'w Client \<Rightarrow> Config \<Rightarrow> string \<Rightarrow> ('w server, Status, bool) go" where
  "QueryVolume c cfg vid s =
     (case on_host (GetVolume c cfg vid) s of
        (Inl e, s1) \<Rightarrow>
          (if err_Is e ErrNotFound then Inr False else Inl (status_Error Internal ''volume lookup failed''), s1)
      | (Inr volume, s1) \<Rightarrow> (Inr (vol_State volume \<noteq> StateIncoming), s1))"

section \<open>Node status\<close>

record NodeStatusResponse =
  nr_PoolSizeBytes :: u64
  nr_PoolUsedBytes :: u64
  nr_PoolMetadataSizeBytes :: u64
  nr_PoolMetadataUsedBytes :: u64
  nr_CommittedBytes :: u64
  nr_VolumeCounts :: "(string \<times> 32 word) list"
  nr_BeanstoreVersion :: string
  nr_LvmVersion :: string

text \<open>The build information of the binary is a parameter: the version of the main module, if known.\<close>

definition beanstoreVersion :: "string option \<Rightarrow> string" where
  "beanstoreVersion info = (case info of None \<Rightarrow> ''unknown'' | Some v \<Rightarrow> if v = [] then ''unknown'' else v)"

definition api_GetNodeStatus ::
  "string option \<Rightarrow> 'w Client \<Rightarrow> Config \<Rightarrow> ('w server, Status, NodeStatusResponse) go" where
  "api_GetNodeStatus info c cfg =
     seqE (mapErr (\<lambda>_. status_Error Internal ''reading node status failed'') (on_host (GetNodeStatus c cfg))) (\<lambda>st.
     seqE (mapErr (\<lambda>_. status_Error Internal ''reading lvm version failed'') (on_host (GetVersion c no_common))) (\<lambda>version.
     ret \<lparr>nr_PoolSizeBytes = ns_PoolSizeBytes st, nr_PoolUsedBytes = ns_PoolUsedBytes st,
          nr_PoolMetadataSizeBytes = ns_PoolMetadataSizeBytes st, nr_PoolMetadataUsedBytes = ns_PoolMetadataUsedBytes st,
          nr_CommittedBytes = ns_CommittedBytes st,
          nr_VolumeCounts = concat (map (\<lambda>s. case ns_VolumeCounts st s of None \<Rightarrow> [] | Some k \<Rightarrow> [(stateName s, k)])
            (knownStates @ [StateUnknown])),
          nr_BeanstoreVersion = beanstoreVersion info, nr_LvmVersion = ver_LVM version\<rparr>))"

section \<open>Rollback\<close>

text \<open>The attempts to finish; a failed lookup counts as an attempt.\<close>

fun finish_loop :: "'w Client \<Rightarrow> Config \<Rightarrow> string \<Rightarrow> string \<Rightarrow> nat \<Rightarrow> err option \<Rightarrow> ('w, err, unit) go" where
  "finish_loop c cfg temp vid 0 e w = (case e of None \<Rightarrow> Inr () | Some e \<Rightarrow> Inl e, w)"
| "finish_loop c cfg temp vid (Suc k) e w =
     (case (if temp \<noteq> vid
            then (case VolumeExists c cfg temp w of
                    (Inl e, w1) \<Rightarrow> (Inl e, w1)
                  | (Inr exists, w1) \<Rightarrow> (Inr (if exists then temp else vid), w1))
            else (Inr temp, w)) of
        (Inl lookErr, w1) \<Rightarrow> finish_loop c cfg temp vid k (Some lookErr) w1
      | (Inr name, w1) \<Rightarrow>
          (case FinishRollback c cfg name vid w1 of
             (Inr _, w2) \<Rightarrow> (Inr (), w2)
           | (Inl e, w2) \<Rightarrow> finish_loop c cfg temp vid k (Some e) w2))"

definition finishRollback :: "'w Client \<Rightarrow> Config \<Rightarrow> string \<Rightarrow> string \<Rightarrow> ('w, err, unit) go" where
  "finishRollback c cfg temp vid = finish_loop c cfg temp vid 3 None"

definition sweepRollback :: "'w Client \<Rightarrow> Config \<Rightarrow> string \<Rightarrow> string \<Rightarrow> ('w, err, unit) go" where
  "sweepRollback c cfg vid temp w =
     (case GetVolume c cfg temp w of
        (Inl e, w1) \<Rightarrow> (if err_Is e ErrNotFound then Inr () else Inl e, w1)
      | (Inr leftover, w1) \<Rightarrow>
          if vol_State leftover \<noteq> StateRollback \<or> vol_RollbackTarget leftover \<noteq> vid then (Inr (), w1)
          else seqE (VolumeExists c cfg vid) (\<lambda>exists.
            if exists then RemoveVolume c cfg temp else finishRollback c cfg temp vid) w1)"

definition sweepRenamedRollback :: "'w Client \<Rightarrow> Config \<Rightarrow> string \<Rightarrow> ('w, err, unit) go" where
  "sweepRenamedRollback c cfg vid w =
     (case GetVolume c cfg vid w of
        (Inl e, w1) \<Rightarrow> (if err_Is e ErrNotFound then Inr () else Inl e, w1)
      | (Inr current, w1) \<Rightarrow>
          if vol_State current \<noteq> StateRollback \<or> vol_RollbackTarget current \<noteq> vid then (Inr (), w1)
          else finishRollback c cfg vid vid w1)"

definition rollback_body :: "'w Client \<Rightarrow> Config \<Rightarrow> string \<Rightarrow> string \<Rightarrow> string \<Rightarrow> ('w, Status, unit) go" where
  "rollback_body c cfg vid sid temp =
     seqE (mapErr (\<lambda>e. volumeError e ''rollback failed'')
             (seqE (sweepRollback c cfg vid temp) (\<lambda>_. sweepRenamedRollback c cfg vid))) (\<lambda>_.
     seqE (mapErr (\<lambda>e. volumeError e ''rollback failed'') (BeginRollback c cfg vid sid)) (\<lambda>_ w.
     case RemoveVolume c cfg vid w of
       (Inl e, w1) \<Rightarrow> (Inl (volumeError e ''rollback failed''), snd (RemoveVolume c cfg temp w1))
     | (Inr _, w1) \<Rightarrow>
         mapErr (\<lambda>_. status_Error Internal ''rollback interrupted, the next rollback call or restart finishes it'')
           (finishRollback c cfg temp vid) w1))"

definition RollbackVolume :: "'w Client \<Rightarrow> Config \<Rightarrow> string \<Rightarrow> string \<Rightarrow> ('w server, Status, unit) go" where
  "RollbackVolume c cfg vid sid =
     demand (volumeIDPattern vid) ''volume_id is not a valid lv name''
    (demand (volumeIDPattern sid) ''source_snapshot_id is not a valid lv name'' (\<lambda>s.
       let temp = RollbackTempName vid in
       case Reserve (sv_reserved s) [vid, temp] of
         (False, r) \<Rightarrow> (Inl (status_Error Aborted ''a rollback of this volume is in progress''), s\<lparr>sv_reserved := r\<rparr>)
       | (True, r) \<Rightarrow>
           let (q, s1) = on_host (rollback_body c cfg vid sid temp) (s\<lparr>sv_reserved := r\<rparr>) in
           (q, s1\<lparr>sv_reserved := res_Release (sv_reserved s1) [vid, temp]\<rparr>)))"

section \<open>Volumes from snapshots\<close>

definition CreateVolumeFromSnapshot ::
  "'w Client \<Rightarrow> Config \<Rightarrow> string \<Rightarrow> string \<Rightarrow> string \<Rightarrow> ('w server, Status, unit) go" where
  "CreateVolumeFromSnapshot c cfg vid sid op =
     demand (volumeIDPattern vid) ''volume_id is not a valid lv name''
    (demand (volumeIDPattern sid) ''source_snapshot_id is not a valid lv name''
    (demand (op \<noteq> []) ''operation_id must be set''
    (seqE (begin_op op) (\<lambda>_ s.
       let undo = (\<lambda>reason s. ops_fail op reason (releaseExport c cfg sid s)) in
       case on_host (GetVolume c cfg sid) (pin sid s) of
         (Inl e, s1) \<Rightarrow> (Inl (volumeError e ''creating volume from snapshot failed''), undo (err_Error e) s1)
       | (Inr snapshot, s1) \<Rightarrow>
           if vol_State snapshot \<noteq> StateSnapshot
           then let e = WrongStateError sid (vol_State snapshot) in
             (Inl (volumeError e ''creating volume from snapshot failed''), undo (err_Error e) s1)
           else case on_host (VolumeExists c cfg vid) s1 of
             (Inl e, s2) \<Rightarrow> (Inl (status_Error Internal ''volume lookup failed''), undo (err_Error e) s2)
           | (Inr exists, s2) \<Rightarrow>
               if exists then (Inl (status_Error AlreadyExists ''volume already exists''), undo ''volume already exists'' s2)
               else (Inr (), spawn (RunCopyFromSnapshot vid sid op (vol_SizeBytes snapshot)) s2)))))"

definition copyFromSnapshot ::
  "hash \<Rightarrow> 'w devio \<Rightarrow> (u64 \<Rightarrow> err option) \<Rightarrow> 'w Client \<Rightarrow> Config \<Rightarrow> string \<Rightarrow> string \<Rightarrow> string \<Rightarrow> u64 \<Rightarrow>
   ('w server, err, unit) go" where
  "copyFromSnapshot H io cancelled c cfg vid sid op n =
     seqE (on_host (wrap (''creating copy target '' @ vid)
             (CreateThinVolume c (cfg_VolumeGroup cfg) (cfg_ThinPool cfg) vid n (thin_opts [StateTag StateCreating] None)))) (\<lambda>_.
     seqE (on_host (GetVolume c cfg vid)) (\<lambda>target.
     seqE (on_host (wrap (''activating snapshot '' @ sid)
             (ActivateLogicalVolume c (lv_target cfg sid) (activate_opts True)))) (\<lambda>_.
     seqE (on_host (GetVolume c cfg sid)) (\<lambda>snapshot.
     seqE (CopyDevice H (lift_io io) cancelled (vol_Path snapshot) (vol_Path target)
             (\<lambda>k s. s\<lparr>sv_ops := ops_Progress (sv_ops s) op k\<rparr>)) (\<lambda>_.
     seqE (on_host (wrap (''deactivating copy '' @ vid) (DeactivateLogicalVolume c (lv_target cfg vid) no_common))) (\<lambda>_.
     on_host (wrap (''readying copy '' @ vid)
       (ChangeLogicalVolume c (lv_target cfg vid) (retag_opts [StateTag StateReady] [StateTag StateCreating] None)))))))))"

definition runCopyFromSnapshot ::
  "hash \<Rightarrow> 'w devio \<Rightarrow> (u64 \<Rightarrow> err option) \<Rightarrow> 'w Client \<Rightarrow> Config \<Rightarrow> string \<Rightarrow> string \<Rightarrow> string \<Rightarrow> u64 \<Rightarrow>
   'w server \<Rightarrow> 'w server" where
  "runCopyFromSnapshot H io cancelled c cfg vid sid op n s =
     releaseExport c cfg sid
       (case copyFromSnapshot H io cancelled c cfg vid sid op n s of
          (Inl e, s1) \<Rightarrow> snd (on_host (RemoveVolume c cfg vid) (ops_fail op (err_Error e) s1))
        | (Inr _, s1) \<Rightarrow> ops_finish op s1)"

end
