(* ===== verification/ApiPush.thy ===== *)
theory ApiPush
  imports ApiHandlers
begin

text \<open>
  Pushing to another node: \<^verbatim>\<open>internal/api/push.go\<close>, \<^verbatim>\<open>internal/api/pushsnapshot.go\<close> and \<^verbatim>\<open>internal/api/resolve.go\<close>. The
  connection to the target is a parameter, the calls of \<open>peer\<close>: each runs on the world, which the
  target is part of, and can fail. Waiting between attempts is not observable by the code; where it
  matters (the resolver) it is a parameter as well.
\<close>

section \<open>The target\<close>

record 'w peer =
  p_QueryTransfer :: "string \<Rightarrow> ('w, Status, u64) go"
  p_Receive :: "('w, Status, unit) go"
  p_Send :: "ReceiveRequest \<Rightarrow> ('w, err, unit) go"
  p_CloseAndRecv :: "('w, Status, unit) go"
  p_CommitTransfer :: "string \<Rightarrow> bytes \<Rightarrow> ('w, Status, unit) go"
  p_AbortTransfer :: "string \<Rightarrow> ('w, Status, unit) go"
  p_QueryVolume :: "string \<Rightarrow> ('w, Status, bool) go"

type_synonym 'w dial = "string \<Rightarrow> ('w, err, 'w peer) go"

definition peer_err :: "string \<Rightarrow> ('w, Status, 'a) go \<Rightarrow> ('w, err, 'a) go" where
  "peer_err what m = mapErr (\<lambda>e. Wrap (what @ '': '') (PeerError e) []) m"

definition pushAttempts :: nat where
  "pushAttempts = 5"

definition definitivePushError :: "err \<Rightarrow> bool" where
  "definitivePushError e \<longleftrightarrow>
     status_Code e \<in> {NotFound, InvalidArgument, AlreadyExists, FailedPrecondition, DataLoss}"

section \<open>Streaming\<close>

text \<open>The flag \<^verbatim>\<open>sendFailed\<close> is kept next to the state while the device is read.\<close>

definition on_fst :: "('a, 'e, 'r) go \<Rightarrow> ('a \<times> 'b, 'e, 'r) go" where
  "on_fst m s = (let (r, a) = m (fst s) in (r, (a, snd s)))"

definition fst_io :: "'a devio \<Rightarrow> ('a \<times> 'b) devio" where
  "fst_io io =
     \<lparr>d_open = (\<lambda>p. on_fst (d_open io p)), d_seek_end = (\<lambda>p. on_fst (d_seek_end io p)),
      d_seek_start = (\<lambda>p. on_fst (d_seek_start io p)), d_openw = (\<lambda>p. on_fst (d_openw io p)),
      d_read = (\<lambda>p off n. on_fst (d_read io p off n)), d_write = (\<lambda>p off data. on_fst (d_write io p off data)),
      d_sync = (\<lambda>p. on_fst (d_sync io p))\<rparr>"

definition stream_send :: "'w peer \<Rightarrow> ReceiveRequest \<Rightarrow> ('w server \<times> bool, err, unit) go" where
  "stream_send peer msg s =
     (case on_host (p_Send peer msg) (fst s) of
        (Inl e, s1) \<Rightarrow> (Inl e, (s1, True))
      | (Inr _, s1) \<Rightarrow> (Inr (), (s1, snd s)))"

definition send_frame :: "'w peer \<Rightarrow> string \<Rightarrow> u64 \<Rightarrow> Frame \<Rightarrow> ('w server \<times> bool, err, unit) go" where
  "send_frame peer op next frame =
     (if fr_Offset frame < next then ret ()
      else seqE (stream_send peer (Content (fr_Offset frame) (fr_Data frame))) (\<lambda>_ (s, b).
        (Inr (), (s\<lparr>sv_ops := ops_Progress (sv_ops s) op (fr_Offset frame + of_nat (length (fr_Data frame)))\<rparr>, b))))"

definition streamOnce ::
  "hash \<Rightarrow> 'w devio \<Rightarrow> (u64 \<Rightarrow> err option) \<Rightarrow> 'w peer \<Rightarrow> string \<Rightarrow> string \<Rightarrow> string \<Rightarrow> ('w server, err, bytes) go" where
  "streamOnce H io cancelled peer path tid op =
     seqE (peer_err ''querying transfer'' (on_host (p_QueryTransfer peer tid))) (\<lambda>next.
     seqE (peer_err ''opening stream'' (on_host (p_Receive peer))) (\<lambda>_ s.
     case seqE (stream_send peer (Header tid))
         (\<lambda>_. ReadDevice H (fst_io (lift_io io)) cancelled path (send_frame peer op next)) (s, False) of
       (Inl e, (s1, sendFailed)) \<Rightarrow>
         (if sendFailed
          then (case on_host (p_CloseAndRecv peer) s1 of
                  (Inl recvErr, s2) \<Rightarrow> (Inl (Wrap ''streaming frames: '' (PeerError recvErr) []), s2)
                | (Inr _, s2) \<Rightarrow> (Inl (Wrap ''streaming frames: '' e []), s2))
          else (Inl (Wrap ''streaming frames: '' e []), s1))
     | (Inr (_, digest), (s1, _)) \<Rightarrow>
         seqE (peer_err ''closing stream'' (on_host (p_CloseAndRecv peer))) (\<lambda>_. ret digest) s1))"

fun stream_attempts ::
  "hash \<Rightarrow> 'w devio \<Rightarrow> (u64 \<Rightarrow> err option) \<Rightarrow> 'w peer \<Rightarrow> string \<Rightarrow> string \<Rightarrow> string \<Rightarrow> nat \<Rightarrow> err option \<Rightarrow>
   ('w server, err, bytes) go" where
  "stream_attempts H io cancelled peer path tid op 0 lastErr s = (case lastErr of None \<Rightarrow> Inr [] | Some e \<Rightarrow> Inl e, s)"
| "stream_attempts H io cancelled peer path tid op (Suc k) lastErr s =
     (case streamOnce H io cancelled peer path tid op s of
        (Inr digest, s1) \<Rightarrow> (Inr digest, s1)
      | (Inl e, s1) \<Rightarrow>
          if definitivePushError e then (Inl e, s1)
          else stream_attempts H io cancelled peer path tid op k (Some e) s1)"

definition streamVolume ::
  "hash \<Rightarrow> 'w devio \<Rightarrow> (u64 \<Rightarrow> err option) \<Rightarrow> 'w Client \<Rightarrow> Config \<Rightarrow> 'w peer \<Rightarrow> string \<Rightarrow> string \<Rightarrow> string \<Rightarrow> bool \<Rightarrow>
   ('w server, err, bytes) go" where
  "streamVolume H io cancelled c cfg peer vid tid op ignoreSkip =
     seqE (on_host (wrap (''activating volume '' @ vid)
             (ActivateLogicalVolume c (lv_target cfg vid) (activate_opts ignoreSkip)))) (\<lambda>_.
     seqE (on_host (GetVolume c cfg vid)) (\<lambda>volume.
     stream_attempts H io cancelled peer (vol_Path volume) tid op pushAttempts None))"

section \<open>Committing\<close>

datatype commitOutcome = commitLanded | commitRefused | commitUnknown

fun commit_attempts ::
  "'w peer \<Rightarrow> string \<Rightarrow> bytes \<Rightarrow> nat \<Rightarrow> err option \<Rightarrow> 'w server \<Rightarrow> (commitOutcome \<times> err option) \<times> 'w server" where
  "commit_attempts peer tid digest 0 lastErr s = ((commitUnknown, lastErr), s)"
| "commit_attempts peer tid digest (Suc k) lastErr s =
     (case on_host (p_CommitTransfer peer tid digest) s of
        (Inr _, s1) \<Rightarrow> ((commitLanded, None), s1)
      | (Inl e, s1) \<Rightarrow>
          if st_Code e = DataLoss then ((commitRefused, Some (PeerError e)), s1)
          else if st_Code e = NotFound then ((commitUnknown, Some (PeerError e)), s1)
          else commit_attempts peer tid digest k (Some (PeerError e)) s1)"

definition commitPush ::
  "'w peer \<Rightarrow> string \<Rightarrow> bytes \<Rightarrow> 'w server \<Rightarrow> (commitOutcome \<times> err option) \<times> 'w server" where
  "commitPush peer tid digest = commit_attempts peer tid digest pushAttempts None"

definition abortTransfer :: "'w peer \<Rightarrow> string \<Rightarrow> 'w server \<Rightarrow> 'w server" where
  "abortTransfer peer tid s = snd (on_host (p_AbortTransfer peer tid) s)"

text \<open>The text of an error that may be nil, as \<^verbatim>\<open>%v\<close> renders it.\<close>

definition cause_text :: "err option \<Rightarrow> string" where
  "cause_text e = (case e of None \<Rightarrow> ''<nil>'' | Some e \<Rightarrow> err_Error e)"

definition failPush :: "'w Client \<Rightarrow> Config \<Rightarrow> string \<Rightarrow> string \<Rightarrow> err option \<Rightarrow> 'w server \<Rightarrow> 'w server" where
  "failPush c cfg vid op cause s = ops_fail op (cause_text cause) (snd (on_host (AbortPush c cfg vid) s))"

definition retirePushed :: "'w Client \<Rightarrow> Config \<Rightarrow> string \<Rightarrow> string \<Rightarrow> 'w server \<Rightarrow> 'w server" where
  "retirePushed c cfg vid op s =
     (case on_host (RetirePushed c cfg vid) s of
        (Inl e, s1) \<Rightarrow> ops_fail op (err_Error e) s1
      | (Inr _, s1) \<Rightarrow> ops_finish op s1)"

definition settlePush ::
  "'w Client \<Rightarrow> Config \<Rightarrow> 'w peer \<Rightarrow> bool \<Rightarrow> string \<Rightarrow> string \<Rightarrow> string \<Rightarrow> err option \<Rightarrow> 'w server \<Rightarrow> 'w server" where
  "settlePush c cfg peer committed vid tid op commitErr s =
     (if committed then retirePushed c cfg vid op s
      else failPush c cfg vid op commitErr (abortTransfer peer tid s))"

definition resolvePush ::
  "'w Client \<Rightarrow> Config \<Rightarrow> 'w peer \<Rightarrow> string \<Rightarrow> string \<Rightarrow> string \<Rightarrow> err option \<Rightarrow> 'w server \<Rightarrow> 'w server" where
  "resolvePush c cfg peer vid tid op commitErr s =
     (case on_host (p_QueryVolume peer vid) s of
        (Inl _, s1) \<Rightarrow>
          ops_fail op (''commit outcome unknown: '' @ cause_text commitErr)
            (snd (on_host (DeactivateLogicalVolume c (lv_target cfg vid) no_common) s1))
      | (Inr committed, s1) \<Rightarrow> settlePush c cfg peer committed vid tid op commitErr s1)"

definition finishPush ::
  "'w Client \<Rightarrow> Config \<Rightarrow> 'w peer \<Rightarrow> string \<Rightarrow> string \<Rightarrow> string \<Rightarrow> bytes \<Rightarrow> 'w server \<Rightarrow> 'w server" where
  "finishPush c cfg peer vid tid op digest s =
     (let ((outcome, e), s1) = commitPush peer tid digest s in
      case outcome of
        commitLanded \<Rightarrow> retirePushed c cfg vid op s1
      | commitRefused \<Rightarrow> failPush c cfg vid op e s1
      | commitUnknown \<Rightarrow> resolvePush c cfg peer vid tid op e s1)"

definition PushVolume ::
  "'w Client \<Rightarrow> Config \<Rightarrow> string \<Rightarrow> string \<Rightarrow> string \<Rightarrow> string \<Rightarrow> ('w server, Status, unit) go" where
  "PushVolume c cfg vid tid target op =
     demand (volumeIDPattern vid) ''volume_id is not a valid lv name''
    (demand (volumeIDPattern tid) ''transfer_id is not a valid tag value''
    (demand (targetAddressPattern target) ''target_address must be host:port''
    (demand (op \<noteq> []) ''operation_id must be set''
    (seqE (begin_op op) (\<lambda>_ s.
       case on_host (MarkPushing c cfg vid tid target) s of
         (Inl e, s1) \<Rightarrow> (Inl (volumeError e ''pushing failed''), ops_fail op (err_Error e) s1)
       | (Inr _, s1) \<Rightarrow> (Inr (), spawn (RunPush vid tid target op) s1))))))"

definition runPush ::
  "hash \<Rightarrow> 'w devio \<Rightarrow> (u64 \<Rightarrow> err option) \<Rightarrow> 'w Client \<Rightarrow> Config \<Rightarrow> 'w dial \<Rightarrow>
   string \<Rightarrow> string \<Rightarrow> string \<Rightarrow> string \<Rightarrow> 'w server \<Rightarrow> 'w server" where
  "runPush H io cancelled c cfg dial vid tid target op s =
     (case on_host (dial target) s of
        (Inl e, s1) \<Rightarrow> failPush c cfg vid op (Some (Wrap (''dialing '' @ target @ '': '') e [])) s1
      | (Inr peer, s1) \<Rightarrow>
          case streamVolume H io cancelled c cfg peer vid tid op False s1 of
            (Inl e, s2) \<Rightarrow> failPush c cfg vid op (Some e) (abortTransfer peer tid s2)
          | (Inr digest, s2) \<Rightarrow>
              case on_host (MarkCommitting c cfg vid) s2 of
                (Inl e, s3) \<Rightarrow> failPush c cfg vid op (Some e) (abortTransfer peer tid s3)
              | (Inr _, s3) \<Rightarrow> finishPush c cfg peer vid tid op digest s3)"

section \<open>Snapshots\<close>

definition failSnapshotPush :: "string \<Rightarrow> err option \<Rightarrow> 'w server \<Rightarrow> 'w server" where
  "failSnapshotPush op cause s = ops_fail op (cause_text cause) s"

definition PushSnapshot ::
  "'w Client \<Rightarrow> Config \<Rightarrow> string \<Rightarrow> string \<Rightarrow> string \<Rightarrow> string \<Rightarrow> ('w server, Status, unit) go" where
  "PushSnapshot c cfg sid tid target op =
     demand (volumeIDPattern sid) ''snapshot_id is not a valid lv name''
    (demand (volumeIDPattern tid) ''transfer_id is not a valid tag value''
    (demand (targetAddressPattern target) ''target_address must be host:port''
    (demand (op \<noteq> []) ''operation_id must be set''
    (seqE (begin_op op) (\<lambda>_ s.
       let refuse = (\<lambda>e s. (Inl (volumeError e ''pushing snapshot failed''),
             ops_fail op (err_Error e) (releaseExport c cfg sid s))) in
       case on_host (GetVolume c cfg sid) (pin sid s) of
         (Inl e, s1) \<Rightarrow> refuse e s1
       | (Inr snapshot, s1) \<Rightarrow>
           if vol_State snapshot \<noteq> StateSnapshot then refuse (WrongStateError sid (vol_State snapshot)) s1
           else (Inr (), spawn (RunSnapshotPush sid tid target op) s1))))))"

definition runSnapshotPush ::
  "hash \<Rightarrow> 'w devio \<Rightarrow> (u64 \<Rightarrow> err option) \<Rightarrow> 'w Client \<Rightarrow> Config \<Rightarrow> 'w dial \<Rightarrow>
   string \<Rightarrow> string \<Rightarrow> string \<Rightarrow> string \<Rightarrow> 'w server \<Rightarrow> 'w server" where
  "runSnapshotPush H io cancelled c cfg dial sid tid target op s =
     releaseExport c cfg sid
       (case on_host (dial target) s of
          (Inl e, s1) \<Rightarrow> failSnapshotPush op (Some (Wrap (''dialing '' @ target @ '': '') e [])) s1
        | (Inr peer, s1) \<Rightarrow>
            case streamVolume H io cancelled c cfg peer sid tid op True s1 of
              (Inl e, s2) \<Rightarrow> failSnapshotPush op (Some e) (abortTransfer peer tid s2)
            | (Inr digest, s2) \<Rightarrow>
                let ((outcome, e), s3) = commitPush peer tid digest s2 in
                case outcome of
                  commitLanded \<Rightarrow> ops_finish op s3
                | commitRefused \<Rightarrow> failSnapshotPush op e s3
                | commitUnknown \<Rightarrow>
                    failSnapshotPush op (map_option (\<lambda>e. Wrap ''commit outcome unknown: '' e []) e) (abortTransfer peer tid s3))"

section \<open>Resolving after a restart\<close>

definition errNeverCommitted :: err where
  "errNeverCommitted = Errorf ''the commit never landed on the target''"

definition resolveRecovered :: "'w Client \<Rightarrow> Config \<Rightarrow> 'w server \<Rightarrow> 'w server" where
  "resolveRecovered c cfg s =
     (case on_host (ListVolumes c cfg) s of
        (Inl _, s1) \<Rightarrow> s1
      | (Inr volumes, s1) \<Rightarrow>
          foldl (\<lambda>s v. spawn (ResolveUntilSettled (vol_ID v) (vol_Transfer v) (vol_PushTarget v)) s) s1
            (filter (\<lambda>v. vol_State v = StateCommitting \<and> vol_PushTarget v \<noteq> [] \<and> vol_Transfer v \<noteq> []) volumes))"

definition tryResolve ::
  "'w Client \<Rightarrow> Config \<Rightarrow> 'w dial \<Rightarrow> string \<Rightarrow> string \<Rightarrow> string \<Rightarrow> 'w server \<Rightarrow> bool \<times> 'w server" where
  "tryResolve c cfg dial vid tid target s =
     (case on_host (dial target) s of
        (Inl _, s1) \<Rightarrow> (False, s1)
      | (Inr peer, s1) \<Rightarrow>
          case on_host (p_QueryVolume peer vid) s1 of
            (Inl _, s2) \<Rightarrow> (False, s2)
          | (Inr committed, s2) \<Rightarrow> (True, settlePush c cfg peer committed vid tid [] (Some errNeverCommitted) s2))"

text \<open>
  The loop waits between attempts: \<open>pause\<close> is what happens meanwhile, and tells whether the daemon is
  shutting down.
\<close>

partial_function (option) resolveUntilSettled ::
  "'w Client \<Rightarrow> Config \<Rightarrow> 'w dial \<Rightarrow> ('w server \<Rightarrow> bool \<times> 'w server) \<Rightarrow> string \<Rightarrow> string \<Rightarrow> string \<Rightarrow>
   'w server \<Rightarrow> 'w server option" where
  "resolveUntilSettled c cfg dial pause vid tid target s =
     (let (settled, s1) = tryResolve c cfg dial vid tid target s in
      if settled then Some s1
      else let (done', s2) = pause s1 in
        if done' then Some s2 else resolveUntilSettled c cfg dial pause vid tid target s2)"

section \<open>Jobs\<close>

fun run_job ::
  "hash \<Rightarrow> 'w devio \<Rightarrow> (u64 \<Rightarrow> err option) \<Rightarrow> 'w Client \<Rightarrow> Config \<Rightarrow> 'w dial \<Rightarrow> ('w server \<Rightarrow> bool \<times> 'w server) \<Rightarrow>
   job \<Rightarrow> 'w server \<Rightarrow> 'w server option" where
  "run_job H io cancelled c cfg dial pause (RunCreate vid n op) s = Some (runCreate c cfg vid n op s)"
| "run_job H io cancelled c cfg dial pause (RunDelete vid snapshots op) s = Some (runDelete c cfg vid snapshots op s)"
| "run_job H io cancelled c cfg dial pause (RunCopyFromSnapshot vid sid op n) s =
     Some (runCopyFromSnapshot H io cancelled c cfg vid sid op n s)"
| "run_job H io cancelled c cfg dial pause (RunPush vid tid target op) s =
     Some (runPush H io cancelled c cfg dial vid tid target op s)"
| "run_job H io cancelled c cfg dial pause (RunSnapshotPush sid tid target op) s =
     Some (runSnapshotPush H io cancelled c cfg dial sid tid target op s)"
| "run_job H io cancelled c cfg dial pause (ResolveUntilSettled vid tid target) s =
     resolveUntilSettled c cfg dial pause vid tid target s"
| "run_job H io cancelled c cfg dial pause ResolveRecovered s = Some (resolveRecovered c cfg s)"

end
