(* ===== verification/Setup.thy ===== *)
theory Setup
  imports Digest
begin

text \<open>
  Startup checks: \<^verbatim>\<open>internal/storage/storage.go\<close>. \<open>Setup\<close> verifies the volume group and the thin pool, and
  creates the pool when the configuration asks for it.
\<close>

definition checkChunkSize :: "LogicalVolume \<Rightarrow> err + unit" where
  "checkChunkSize pool =
     (if lv_ChunkSizeBytes pool = 0 \<or> TransferChunkBytes mod lv_ChunkSizeBytes pool \<noteq> 0
      then Inl (Errorf (''pool chunk size '' @ FormatUint (lv_ChunkSizeBytes pool) @ '' does not divide the '' @
        FormatUint TransferChunkBytes @ '' byte transfer chunk, transfers would be unsafe''))
      else Inr ())"

definition pool_opts :: CreateThinPoolOptions where
  "pool_opts =
     \<lparr>ctp_Common = no_common, ctp_AddTags = [], ctp_ChunkSizeBytes = 0, ctp_MetadataSizeBytes = 0,
      ctp_Activate = None, ctp_Permission = [], ctp_Readahead = [], ctp_Contiguous = None,
      ctp_Allocation = [], ctp_SetActivationSkip = None, ctp_IgnoreActivationSkip = False,
      ctp_SetAutoactivation = None, ctp_Zero = None, ctp_Discards = [], ctp_ErrorWhenFull = None,
      ctp_PoolMetadataSpare = None\<rparr>"

definition pool_bytes :: "Config \<Rightarrow> VolumeGroup \<Rightarrow> u64" where
  "pool_bytes cfg vg =
     (if ps_Percent (cfg_PoolSize cfg) > 0 then vg_FreeBytes vg div 100 * ps_Percent (cfg_PoolSize cfg)
      else ps_Bytes (cfg_PoolSize cfg))"

definition create_pool :: "'w Client \<Rightarrow> Config \<Rightarrow> VolumeGroup \<Rightarrow> ('w, err, unit) go" where
  "create_pool c cfg vg =
     (let name = cfg_VolumeGroup cfg @ ''/'' @ cfg_ThinPool cfg;
          listing = ListLogicalVolumes c (list_opts (cfg_VolumeGroup cfg) (sel_name (cfg_ThinPool cfg))) in
      seqE (wrap (''creating thin pool '' @ name)
              (CreateThinPool c (cfg_VolumeGroup cfg) (cfg_ThinPool cfg) (pool_bytes cfg vg) pool_opts)) (\<lambda>_.
      seqE (wrap (''reading created pool '' @ name) listing) (\<lambda>pools.
      case pools of
        [] \<Rightarrow> fail (Errorf (''reading created pool '' @ name @ '': %!w(<nil>)''))
      | pool # _ \<Rightarrow> (\<lambda>w. (checkChunkSize pool, w)))))"

definition Setup :: "'w Client \<Rightarrow> Config \<Rightarrow> ('w, err, unit) go" where
  "Setup c cfg =
     (let name = cfg_VolumeGroup cfg @ ''/'' @ cfg_ThinPool cfg;
          listing = ListLogicalVolumes c (list_opts (cfg_VolumeGroup cfg) (sel_name (cfg_ThinPool cfg))) in
      seqE (wrap (''looking up volume group '' @ cfg_VolumeGroup cfg)
              (ListVolumeGroups c \<lparr>lvg_Common = no_common, lvg_Select = ''vg_name = '' @ cfg_VolumeGroup cfg\<rparr>)) (\<lambda>vgs.
      case vgs of
        [] \<Rightarrow> fail (Errorf (''volume group '' @ cfg_VolumeGroup cfg @ '' does not exist, create it with vgcreate''))
      | vg # _ \<Rightarrow>
          seqE (wrap (''looking up thin pool '' @ name) listing) (\<lambda>pools.
          case pools of
            pool # _ \<Rightarrow>
              if ''pool'' \<notin> set (lv_Layout pool) then fail (Errorf (name @ '' exists but is not a thin pool''))
              else (\<lambda>w. (checkChunkSize pool, w))
          | [] \<Rightarrow>
              if \<not> cfg_CreatePool cfg
              then fail (Errorf (''thin pool '' @ name @ '' does not exist, create it or set create_pool''))
              else create_pool c cfg vg)))"

section \<open>Theorems\<close>

lemma checkChunkSize_ok:
  assumes "checkChunkSize pool = Inr ()"
  shows "0 < unat (lv_ChunkSizeBytes pool) \<and> unat (lv_ChunkSizeBytes pool) dvd chunk_len"
proof -
  have nz: "lv_ChunkSizeBytes pool \<noteq> 0" and m: "TransferChunkBytes mod lv_ChunkSizeBytes pool = 0"
    using assms by (auto simp: checkChunkSize_def split: if_splits)
  have "unat (TransferChunkBytes mod lv_ChunkSizeBytes pool) = chunk_len mod unat (lv_ChunkSizeBytes pool)"
    by (simp add: unat_mod chunk_len_def)
  then have "chunk_len mod unat (lv_ChunkSizeBytes pool) = 0" using m by simp
  then show ?thesis using nz by (auto simp: unat_gt_0)
qed

text \<open>
  C25. A daemon that starts has read the thin pool back from lvm, and the pool's chunk size divides the
  transfer chunk, so a transfer frame never covers a pool chunk partly except at the end of a volume.
\<close>

theorem Setup_checks_pool:
  assumes "Setup c cfg w = (Inr (), w')"
  shows "\<exists>pool rest w1 w2.
    ListLogicalVolumes c (list_opts (cfg_VolumeGroup cfg) (sel_name (cfg_ThinPool cfg))) w1 = (Inr (pool # rest), w2) \<and>
    0 < unat (lv_ChunkSizeBytes pool) \<and> unat (lv_ChunkSizeBytes pool) dvd chunk_len"
  using assms unfolding Setup_def create_pool_def Let_def wrap_def
  by (auto elim!: seqE_cases mapErr_cases split: list.splits if_splits dest!: checkChunkSize_ok) blast+

text \<open>A host with one volume group and one thin pool with chunks of 64 KiB.\<close>

definition setup_vgs :: json where
  "setup_vgs = JObj [(''report'', JArr [JObj [(''vg'', JArr [JObj (map (\<lambda>f. (f, JStr ''1'')) vg_fields)])]])]"
definition setup_lvs :: json where
  "setup_lvs = JObj [(''report'', JArr [JObj [(''lv'', JArr [JObj
     [(''lv_name'', JStr ''thin''), (''chunk_size'', JStr ''65536''), (''lv_layout'', JStr ''thin,pool'')]])]])]"
definition setup_run :: "unit runner" where
  "setup_run cmd w = (Inr (render_json (if cmd ! 1 = ''vgs'' then setup_vgs else setup_lvs)), w)"

definition setup_cfg :: Config where
  "setup_cfg =
     \<lparr>cfg_ListenAddress = '':7411'', cfg_LogLevel = LevelInfo, cfg_VolumeGroup = ''vg0'', cfg_ThinPool = ''thin'',
      cfg_CreatePool = False, cfg_PoolSize = \<lparr>ps_Bytes = 0, ps_Percent = 0\<rparr>, cfg_MaxInboundTransfers = 2,
      cfg_TransferGrace = 60000000000, cfg_TLS = \<lparr>tls_CAFile = [], tls_CertFile = [], tls_KeyFile = []\<rparr>,
      cfg_Insecure = True\<rparr>"

lemma setup_json: "json_parse (render_json setup_vgs) = Some setup_vgs" "json_parse (render_json setup_lvs) = Some setup_lvs"
  by (rule json_parse_render; simp add: setup_vgs_def setup_lvs_def vg_fields_def plain_char_def max_depth_def)+

lemma setup_reports: "\<exists>vg. parseVGReport (render_json setup_vgs) = Inr [vg]"
  "\<exists>pool. parseLVReport (render_json setup_lvs) = Inr [pool] \<and> lv_Layout pool = [''thin'', ''pool''] \<and> lv_ChunkSizeBytes pool = 65536"
proof -
  show "\<exists>vg. parseVGReport (render_json setup_vgs) = Inr [vg]"
    by (simp add: parseVGReport_def Unmarshal_report_def setup_json) (simp add: setup_vgs_def vg_fields_def decode_object_def decode_array_def field_for_def
      decode_row_def parse_raw_vg_def vg_numbers_def parse_number_def ParseUint_def is_digit_def digit_val_def splitList_def)
  show "\<exists>pool. parseLVReport (render_json setup_lvs) = Inr [pool] \<and> lv_Layout pool = [''thin'', ''pool''] \<and>
      lv_ChunkSizeBytes pool = 65536"
    by (simp add: parseLVReport_def Unmarshal_report_def setup_json) (simp add: setup_lvs_def lv_fields_def decode_object_def decode_array_def field_for_def
      decode_row_def rawLV_of_def flattenLVReport_def parse_raw_lv_def parse_size_def parse_percent_def parsePercent_def ParseUint_def is_digit_def digit_val_def splitList_def)
qed

lemma setup_ok: "Setup (daemon_client setup_run) setup_cfg () = (Inr (), ())"
proof -
  obtain vg pool where r: "parseVGReport (render_json setup_vgs) = Inr [vg]" "parseLVReport (render_json setup_lvs) = Inr [pool]"
    "lv_Layout pool = [''thin'', ''pool'']" "lv_ChunkSizeBytes pool = 65536"
    using setup_reports by blast
  show ?thesis
    by (simp add: Setup_def setup_cfg_def ListVolumeGroups_def list_command read_only_def run_output_def client_run_def
        wrap_def mapErr_def seqE_def setup_run_def lvs_argv_def r checkChunkSize_def TransferChunkBytes_def)
qed

theorem Setup_checks_pool_witness:
  "\<exists>pool rest w1 w2.
    ListLogicalVolumes (daemon_client setup_run) (list_opts ''vg0'' (sel_name ''thin'')) w1 = (Inr (pool # rest), w2) \<and>
    0 < unat (lv_ChunkSizeBytes pool) \<and> unat (lv_ChunkSizeBytes pool) dvd chunk_len"
  using Setup_checks_pool [OF setup_ok] by (simp add: setup_cfg_def)

end
