(* ===== verification/Logging.thy ===== *)
theory Logging
  imports GoStd
begin

text \<open>
  \<^verbatim>\<open>internal/logging/logging.go\<close>: the logger a context carries. A context is modelled by the entry it holds
  under the key of this package, if any; loggers are opaque, the default one and the attribute
  operation of \<^verbatim>\<open>slog\<close> are arguments.
\<close>

record 'l entry =
  e_logger :: 'l
  e_base :: 'l
  e_scope :: string

type_synonym 'l Context = "'l entry option"

definition FromContext :: "'l \<Rightarrow> 'l Context \<Rightarrow> 'l" where
  "FromContext dflt ctx = (case ctx of None \<Rightarrow> dflt | Some e \<Rightarrow> e_logger e)"

definition WithLogger :: "'l Context \<Rightarrow> 'l \<Rightarrow> 'l Context" where
  "WithLogger ctx logger = Some \<lparr>e_logger = logger, e_base = logger, e_scope = []\<rparr>"

definition WithScope :: "'l \<Rightarrow> ('l \<Rightarrow> string \<Rightarrow> 'l) \<Rightarrow> 'l Context \<Rightarrow> string \<Rightarrow> 'l Context" where
  "WithScope dflt with_scope ctx name =
     (let e = (case ctx of None \<Rightarrow> \<lparr>e_logger = dflt, e_base = dflt, e_scope = []\<rparr> | Some e \<Rightarrow> e);
          scope = (if e_scope e \<noteq> [] then e_scope e @ ''.'' @ name else name) in
      Some \<lparr>e_logger = with_scope (e_base e) scope, e_base = e_base e, e_scope = scope\<rparr>)"

lemma Join_snoc: "xs \<noteq> [] \<Longrightarrow> Join (xs @ [x]) sep = Join xs sep @ sep @ x"
proof (induction xs)
  case (Cons a xs)
  then show ?case by (cases xs) simp_all
qed simp

lemma Join_nonempty: "xs \<noteq> [] \<Longrightarrow> hd xs \<noteq> [] \<Longrightarrow> Join xs sep \<noteq> []"
  by (cases "(xs, sep)" rule: Join.cases) auto

lemma scopes_entry:
  assumes "names \<noteq> []" and "hd names \<noteq> []"
  shows "foldl (WithScope dflt with_scope) (WithLogger ctx logger) names =
    Some \<lparr>e_logger = with_scope logger (Join names ''.''), e_base = logger, e_scope = Join names ''.''\<rparr>"
  using assms
proof (induction names rule: rev_induct)
  case (snoc name names)
  show ?case
  proof (cases "names = []")
    case False
    have "Join names ''.'' \<noteq> []" using snoc.prems False by (auto simp: Join_nonempty)
    then show ?thesis using snoc False by (simp add: WithScope_def Join_snoc Let_def)
  qed (simp add: WithScope_def WithLogger_def Let_def)
qed simp

text \<open>
  The logger of nested scopes is the logger that was set, with one attribute: the names from the
  outermost to the innermost, joined with dots. Setting a logger starts afresh.
\<close>

theorem scoped_logger:
  assumes "names \<noteq> []" and "hd names \<noteq> []"
  shows "FromContext dflt (foldl (WithScope dflt with_scope) (WithLogger ctx logger) names) =
    with_scope logger (Join names ''.'')"
  by (simp add: FromContext_def scopes_entry [OF assms])

end
