(* ===== verification/Daemon.thy ===== *)
theory Daemon
  imports ApiPush Setup Logging
begin

text \<open>
  The start of the process: \<^verbatim>\<open>cmd/beanstore/main.go\<close> with the credentials of \<^verbatim>\<open>internal/api/tls.go\<close>. Reading keys and
  certificates, systemd, the listening socket and the grpc server are arguments; the order of the
  steps and what each failure does are the code's.
\<close>

section \<open>Credentials\<close>

text \<open>
  What is read from disk: a certificate with its key, a file, and the certificates a file holds.
\<close>

record ('cert, 'pool) tls_lib =
  LoadX509KeyPair :: "string \<Rightarrow> string \<Rightarrow> string + 'cert"
  ReadFile :: "string \<Rightarrow> string + bytes"
  CertPool :: "bytes \<Rightarrow> 'pool option"

datatype ClientAuthType = NoClientCert | RequireAndVerifyClientCert

datatype TLSVersion = DefaultTLS | VersionTLS13

record ('cert, 'pool) tls_Config =
  tc_Certificates :: "'cert list"
  tc_ClientCAs :: "'pool option"
  tc_RootCAs :: "'pool option"
  tc_ClientAuth :: ClientAuthType
  tc_MinVersion :: TLSVersion

datatype ('cert, 'pool) TransportCredentials = InsecureCredentials | NewTLS "('cert, 'pool) tls_Config"

definition loadTLS :: "('cert, 'pool) tls_lib \<Rightarrow> TLS \<Rightarrow> string + 'cert \<times> 'pool" where
  "loadTLS lib cfg =
     (case LoadX509KeyPair lib (tls_CertFile cfg) (tls_KeyFile cfg) of
        Inl e \<Rightarrow> Inl (''loading the tls key pair: '' @ e)
      | Inr certificate \<Rightarrow>
          case ReadFile lib (tls_CAFile cfg) of
            Inl e \<Rightarrow> Inl (''reading the tls ca: '' @ e)
          | Inr ca \<Rightarrow>
              case CertPool lib ca of
                None \<Rightarrow> Inl (''no certificates in '' @ tls_CAFile cfg)
              | Some pool \<Rightarrow> Inr (certificate, pool))"

definition ServerCredentials ::
  "('cert, 'pool) tls_lib \<Rightarrow> Config \<Rightarrow> string + ('cert, 'pool) TransportCredentials" where
  "ServerCredentials lib cfg =
     (if \<not> tls_Enabled (cfg_TLS cfg) then Inr InsecureCredentials
      else case loadTLS lib (cfg_TLS cfg) of
        Inl e \<Rightarrow> Inl e
      | Inr (certificate, pool) \<Rightarrow>
          Inr (NewTLS \<lparr>tc_Certificates = [certificate], tc_ClientCAs = Some pool, tc_RootCAs = None,
            tc_ClientAuth = RequireAndVerifyClientCert, tc_MinVersion = VersionTLS13\<rparr>))"

definition clientCredentials ::
  "('cert, 'pool) tls_lib \<Rightarrow> Config \<Rightarrow> string + ('cert, 'pool) TransportCredentials" where
  "clientCredentials lib cfg =
     (if \<not> tls_Enabled (cfg_TLS cfg) then Inr InsecureCredentials
      else case loadTLS lib (cfg_TLS cfg) of
        Inl e \<Rightarrow> Inl e
      | Inr (certificate, pool) \<Rightarrow>
          Inr (NewTLS \<lparr>tc_Certificates = [certificate], tc_ClientCAs = None, tc_RootCAs = Some pool,
            tc_ClientAuth = NoClientCert, tc_MinVersion = VersionTLS13\<rparr>))"

section \<open>Starting\<close>

definition defaultConfigPath :: string where
  "defaultConfigPath = ''/etc/beanstore/config.yaml''"

text \<open>The argument is the value of the flag \<^verbatim>\<open>-config\<close> where it was given.\<close>

definition loadConfig :: "'s koanf \<Rightarrow> string option \<Rightarrow> string + Config" where
  "loadConfig k flag = Load k (case flag of None \<Rightarrow> defaultConfigPath | Some path \<Rightarrow> path) (flag \<noteq> None)"

text \<open>
  The rest of the system: the notifier of systemd, which reports apart that it is not there, the
  socket, and the grpc server. The server serves until it is stopped; it is given what the goroutine
  that waits for the signal does, and calls it when the signal arrives.
\<close>

record ('w, 'c) system =
  y_notifier :: "('w, bool \<times> string, unit) go"
  y_Listen :: "string \<Rightarrow> ('w, string, unit) go"
  y_Ready :: "('w server, string, unit) go"
  y_Stopping :: "('w server, string, unit) go"
  y_GracefulStop :: "'w server \<Rightarrow> 'w server"
  y_Serve :: "'c ServerOption \<Rightarrow> 'c \<Rightarrow> ('w server \<Rightarrow> 'w server) \<Rightarrow> ('w server, string, unit) go"

definition shutdown :: "('w, 'c) system \<Rightarrow> bool \<Rightarrow> 'w server \<Rightarrow> 'w server" where
  "shutdown y notifier s = y_GracefulStop y (if notifier then snd (y_Stopping y s) else s)"

definition serve ::
  "('w, 'c) system \<Rightarrow> bool \<Rightarrow> 'c ServerOption \<Rightarrow> 'c \<Rightarrow> ('w server, string, unit) go" where
  "serve y notifier opts dialCreds =
     seqE (if notifier then mapErr (\<lambda>e. ''notifying systemd: '' @ e) (y_Ready y) else ret ()) (\<lambda>_.
     mapErr (\<lambda>e. ''serving grpc: '' @ e) (y_Serve y opts dialCreds (shutdown y notifier)))"

definition listen_and_serve ::
  "('cert, 'pool) tls_lib \<Rightarrow> ('w, ('cert, 'pool) TransportCredentials) system \<Rightarrow> Config \<Rightarrow> bool \<Rightarrow> ('w, string, unit) go" where
  "listen_and_serve lib y cfg notifier w =
     (case y_Listen y (cfg_ListenAddress cfg) w of
        (Inl e, w1) \<Rightarrow> (Inl (''listening on '' @ cfg_ListenAddress cfg @ '': '' @ e), w1)
      | (Inr _, w1) \<Rightarrow>
          case ServerOptions (ServerCredentials lib) cfg of
            Inl e \<Rightarrow> (Inl (''loading tls credentials: '' @ e), w1)
          | Inr opts \<Rightarrow>
              case Register (clientCredentials lib) cfg w1 of
                Inl e \<Rightarrow> (Inl (''registering services: '' @ e), w1)
              | Inr (dialCreds, s) \<Rightarrow>
                  let (r, s1) = serve y notifier opts dialCreds s in (r, sv_host s1))"

definition run ::
  "'s koanf \<Rightarrow> string option \<Rightarrow> 'w runner \<Rightarrow> ('cert, 'pool) tls_lib \<Rightarrow> ('w, ('cert, 'pool) TransportCredentials) system \<Rightarrow>
   ('w, string, unit) go" where
  "run k flag host lib y w =
     (case loadConfig k flag of
        Inl e \<Rightarrow> (Inl (''loading config: '' @ e), w)
      | Inr cfg \<Rightarrow>
          let c = New host [] in
          case Setup c cfg w of
            (Inl e, w1) \<Rightarrow> (Inl (''preparing storage: '' @ err_Error e), w1)
          | (Inr _, w1) \<Rightarrow>
              case Recover c cfg w1 of
                (Inl e, w2) \<Rightarrow> (Inl (''recovering volumes: '' @ err_Error e), w2)
              | (Inr _, w2) \<Rightarrow>
                  case y_notifier y w2 of
                    (Inl (notExist, e), w3) \<Rightarrow>
                      if \<not> notExist then (Inl (''creating systemd notifier: '' @ e), w3)
                      else listen_and_serve lib y cfg False w3
                  | (Inr _, w3) \<Rightarrow> listen_and_serve lib y cfg True w3)"

text \<open>The exit code of the process.\<close>

definition main ::
  "'s koanf \<Rightarrow> string option \<Rightarrow> 'w runner \<Rightarrow> ('cert, 'pool) tls_lib \<Rightarrow> ('w, ('cert, 'pool) TransportCredentials) system \<Rightarrow>
   'w \<Rightarrow> int \<times> 'w" where
  "main k flag host lib y w = (case run k flag host lib y w of (Inl e, w1) \<Rightarrow> (1, w1) | (Inr _, w1) \<Rightarrow> (0, w1))"

section \<open>Theorems\<close>

lemma Load_config_ok: "Load k path required = Inr cfg \<Longrightarrow> config_ok cfg"
  by (auto simp: Load_def validate_config_ok split: sum.splits if_splits prod.splits)

lemma server_options_cases:
  assumes "ServerOptions (ServerCredentials lib) cfg = Inr opts" and "config_ok cfg"
  shows "cfg_Insecure cfg \<and> so_Creds opts = InsecureCredentials \<or>
    (\<exists>certificate pool. loadTLS lib (cfg_TLS cfg) = Inr (certificate, pool) \<and> so_Unary opts \<and> so_Stream opts \<and>
       so_Creds opts = NewTLS \<lparr>tc_Certificates = [certificate], tc_ClientCAs = Some pool, tc_RootCAs = None,
         tc_ClientAuth = RequireAndVerifyClientCert, tc_MinVersion = VersionTLS13\<rparr>)"
  using assms
  by (auto simp: ServerOptions_def ServerCredentials_def config_ok_def tls_Enabled_def split: sum.splits if_splits)

lemma Register_server:
  "Register creds cfg w = Inr (d, s) \<Longrightarrow>
    sv_host s = w \<and> sv_jobs s = [ResolveRecovered] \<and> sv_transfers s = NewTransfers \<and> sv_pins s = NewExportPins"
  by (auto simp: Register_def split: sum.splits)

text \<open>What is known of a server at the moment it starts to serve.\<close>

definition serving ::
  "('cert, 'pool) tls_lib \<Rightarrow> Config \<Rightarrow> ('cert, 'pool) TransportCredentials ServerOption \<Rightarrow> 'w server \<Rightarrow> bool" where
  "serving lib cfg opts s \<longleftrightarrow>
     sv_jobs s = [ResolveRecovered] \<and> sv_transfers s = NewTransfers \<and> sv_pins s = NewExportPins \<and>
     (cfg_Insecure cfg \<and> so_Creds opts = InsecureCredentials \<or>
      (\<exists>certificate pool. loadTLS lib (cfg_TLS cfg) = Inr (certificate, pool) \<and> so_Unary opts \<and> so_Stream opts \<and>
         so_Creds opts = NewTLS \<lparr>tc_Certificates = [certificate], tc_ClientCAs = Some pool, tc_RootCAs = None,
           tc_ClientAuth = RequireAndVerifyClientCert, tc_MinVersion = VersionTLS13\<rparr>))"

lemma listen_and_serve_cases:
  assumes "config_ok cfg"
  obtains (never) "\<And>ready serve'. listen_and_serve lib (y\<lparr>y_Ready := ready, y_Serve := serve'\<rparr>) cfg notifier w =
      listen_and_serve lib y cfg notifier w"
  | (served) opts dialCreds s where "y_Listen y (cfg_ListenAddress cfg) w = (Inr (), sv_host s)" "serving lib cfg opts s"
      "listen_and_serve lib y cfg notifier w =
        (fst (serve y notifier opts dialCreds s), sv_host (snd (serve y notifier opts dialCreds s)))"
proof -
  obtain r w1 where l: "y_Listen y (cfg_ListenAddress cfg) w = (r, w1)" by fastforce
  show thesis
  proof (cases "\<exists>opts d s. r = Inr () \<and> ServerOptions (ServerCredentials lib) cfg = Inr opts \<and>
      Register (clientCredentials lib) cfg w1 = Inr (d, s)")
    case True
    then obtain opts d s where h: "r = Inr ()" "ServerOptions (ServerCredentials lib) cfg = Inr opts"
      "Register (clientCredentials lib) cfg w1 = Inr (d, s)" by blast
    show thesis
    proof (rule served)
      show "y_Listen y (cfg_ListenAddress cfg) w = (Inr (), sv_host s)" "serving lib cfg opts s"
        using l h Register_server [OF h(3)] server_options_cases [OF h(2) assms] by (auto simp: serving_def)
      show "listen_and_serve lib y cfg notifier w =
          (fst (serve y notifier opts d s), sv_host (snd (serve y notifier opts d s)))"
        using l h by (simp add: listen_and_serve_def split_def Let_def)
    qed
  next
    case False
    then show thesis using l
      by (intro never) (auto simp: listen_and_serve_def split: sum.splits)
  qed
qed

text \<open>
  C37. The daemon serves no request before its storage is checked and its volumes are recovered, in this
  order, on a valid configuration. It then serves plaintext only where the configuration opts in; in
  every other case the transport demands a client certificate under the configured authority and both
  kinds of calls are authorized. In all other runs the process ends without having served: its outcome
  does not depend on what the server or the readiness notice would do.
\<close>

theorem run_serves_last:
  "(\<forall>ready serve'. run k flag host lib (y\<lparr>y_Ready := ready, y_Serve := serve'\<rparr>) w = run k flag host lib y w) \<or>
   (\<exists>cfg w1 failed w2 opts dialCreds s notifier.
      loadConfig k flag = Inr cfg \<and> config_ok cfg \<and>
      Setup (New host []) cfg w = (Inr (), w1) \<and> Recover (New host []) cfg w1 = (Inr failed, w2) \<and>
      y_Listen y (cfg_ListenAddress cfg) (snd (y_notifier y w2)) = (Inr (), sv_host s) \<and> serving lib cfg opts s \<and>
      run k flag host lib y w = (fst (serve y notifier opts dialCreds s), sv_host (snd (serve y notifier opts dialCreds s))))"
    (is "?never \<or> ?served")
proof -
  have serves: ?thesis
    if cfg: "loadConfig k flag = Inr cfg" and su: "Setup (New host []) cfg w = (Inr u, w1)"
      and re: "Recover (New host []) cfg w1 = (Inr failed, w2)" and no: "y_notifier y w2 = (r3, w3)"
      and run: "\<And>y'. y_notifier y' = y_notifier y \<Longrightarrow> run k flag host lib y' w = listen_and_serve lib y' cfg notifier w3"
    for cfg u w1 failed w2 r3 w3 notifier
  proof -
    have valid: "config_ok cfg" using cfg Load_config_ok by (simp add: loadConfig_def)
    show ?thesis
      using valid
    proof (cases rule: listen_and_serve_cases [where y = y and lib = lib and notifier = notifier and w = w3])
      case never
      then have "?never" by (simp add: run)
      then show ?thesis ..
    next
      case (served opts d s)
      then have "?served" using cfg valid su re no run [OF refl]
        by (intro exI [of _ cfg] exI [of _ w1] exI [of _ failed] exI [of _ w2] exI [of _ opts] exI [of _ d] exI [of _ s]
            exI [of _ notifier]) simp
      then show ?thesis ..
    qed
  qed
  show ?thesis
  proof (cases "\<exists>cfg u w1 failed w2 r3 w3. loadConfig k flag = Inr cfg \<and> Setup (New host []) cfg w = (Inr u, w1) \<and>
      Recover (New host []) cfg w1 = (Inr failed, w2) \<and> y_notifier y w2 = (r3, w3) \<and> (\<forall>e. r3 \<noteq> Inl (False, e))")
    case True
    then obtain cfg u w1 failed w2 r3 w3 where h: "loadConfig k flag = Inr cfg" "Setup (New host []) cfg w = (Inr u, w1)"
      "Recover (New host []) cfg w1 = (Inr failed, w2)" "y_notifier y w2 = (r3, w3)" "\<forall>e. r3 \<noteq> Inl (False, e)" by blast
    then show ?thesis
      by (intro serves [OF h(1-4), where notifier = "r3 = Inr ()"])
        (cases r3, auto simp: run_def Let_def)
  next
    case False
    then have "?never"
      by (auto simp: run_def Let_def split: sum.splits prod.splits)
    then show ?thesis ..
  qed
qed

end
