(* ===== verification/TestPki.thy ===== *)
theory TestPki
  imports Daemon
begin

text \<open>
  The certificate authority of the tests: \<^verbatim>\<open>internal/testpki/pki.go\<close>. Keys, certificates, their encodings and the
  file system are arguments; a failed requirement ends the test. The credentials a test dials with are
  those the daemon itself makes of the same files.
\<close>

section \<open>Paths\<close>

text \<open>What \<^verbatim>\<open>filepath.Join\<close> makes of two elements: the elements with a slash between them, cleaned.\<close>

fun clean_parts :: "bool \<Rightarrow> string list \<Rightarrow> string list \<Rightarrow> string list" where
  "clean_parts rooted acc [] = rev acc"
| "clean_parts rooted acc (p # ps) =
     (if p = [] \<or> p = ''.'' then clean_parts rooted acc ps
      else if p \<noteq> ''..'' then clean_parts rooted (p # acc) ps
      else if acc = [] then clean_parts rooted (if rooted then [] else [p]) ps
      else if hd acc = ''..'' then clean_parts rooted (p # acc) ps
      else clean_parts rooted (tl acc) ps)"

definition filepath_Clean :: "string \<Rightarrow> string" where
  "filepath_Clean path =
     (let rooted = path \<noteq> [] \<and> hd path = CHR ''/'';
          body = Join (clean_parts rooted [] (Split (CHR ''/'') path)) ''/'' in
      if rooted then CHR ''/'' # body else if body = [] then ''.'' else body)"

definition filepath_Join :: "string \<Rightarrow> string \<Rightarrow> string" where
  "filepath_Join a b =
     (if a \<noteq> [] then filepath_Clean (a @ ''/'' @ b) else if b \<noteq> [] then filepath_Clean b else [])"

section \<open>The authority\<close>

datatype KeyUsage = KeyUsageDigitalSignature | KeyUsageCertSign

datatype ExtKeyUsage = ExtKeyUsageServerAuth | ExtKeyUsageClientAuth

text \<open>The fields of a certificate that are set; an address is given by its text.\<close>

record Certificate =
  ct_SerialNumber :: int
  ct_CommonName :: string
  ct_OrganizationalUnit :: "string list"
  ct_DNSNames :: "string list"
  ct_IPAddresses :: "string list"
  ct_NotAfter :: int
  ct_IsCA :: bool
  ct_KeyUsage :: KeyUsage
  ct_ExtKeyUsage :: "ExtKeyUsage list"
  ct_BasicConstraintsValid :: bool

record ('w, 'k) crypto =
  x_TempDir :: "('w, string, string) go"
  x_GenerateKey :: "('w, string, 'k) go"
  x_Now :: "'w \<Rightarrow> int"
  x_CreateCertificate :: "Certificate \<Rightarrow> Certificate \<Rightarrow> 'k \<Rightarrow> 'k \<Rightarrow> ('w, string, bytes) go"
  x_ParseCertificate :: "bytes \<Rightarrow> ('w, string, Certificate) go"
  x_MarshalECPrivateKey :: "'k \<Rightarrow> ('w, string, bytes) go"
  x_EncodeToMemory :: "string \<Rightarrow> bytes \<Rightarrow> bytes"
  x_WriteFile :: "string \<Rightarrow> bytes \<Rightarrow> ('w, string, unit) go"

record 'k Authority =
  au_dir :: string
  au_caFile :: string
  au_caCert :: Certificate
  au_caKey :: 'k
  au_serial :: int

definition Hour :: int where
  "Hour = 3600 * 10 ^ 9"

definition pki_New :: "('w, 'k) crypto \<Rightarrow> ('w, string, 'k Authority) go" where
  "pki_New x =
     seqE (x_TempDir x) (\<lambda>dir.
     seqE (x_GenerateKey x) (\<lambda>caKey w.
       let caTemplate = \<lparr>ct_SerialNumber = 1, ct_CommonName = ''beanstore-test-ca'', ct_OrganizationalUnit = [],
             ct_DNSNames = [], ct_IPAddresses = [], ct_NotAfter = x_Now x w + Hour, ct_IsCA = True,
             ct_KeyUsage = KeyUsageCertSign, ct_ExtKeyUsage = [], ct_BasicConstraintsValid = True\<rparr> in
       seqE (x_CreateCertificate x caTemplate caTemplate caKey caKey) (\<lambda>caDER.
       seqE (x_ParseCertificate x caDER) (\<lambda>caCert.
       let caFile = filepath_Join dir ''ca.pem'' in
       seqE (x_WriteFile x caFile (x_EncodeToMemory x ''CERTIFICATE'' caDER)) (\<lambda>_.
       ret \<lparr>au_dir = dir, au_caFile = caFile, au_caCert = caCert, au_caKey = caKey, au_serial = 1\<rparr>))) w))"

text \<open>The leaf's files and the authority with its next serial number.\<close>

definition Leaf :: "('w, 'k) crypto \<Rightarrow> 'k Authority \<Rightarrow> string \<Rightarrow> string list \<Rightarrow> ('w, string, TLS \<times> 'k Authority) go" where
  "Leaf x a name roles =
     seqE (x_GenerateKey x) (\<lambda>key w.
       let a1 = a\<lparr>au_serial := au_serial a + 1\<rparr>;
           template = \<lparr>ct_SerialNumber = au_serial a1, ct_CommonName = name, ct_OrganizationalUnit = roles,
             ct_DNSNames = [''localhost''], ct_IPAddresses = [''127.0.0.1''], ct_NotAfter = x_Now x w + Hour, ct_IsCA = False,
             ct_KeyUsage = KeyUsageDigitalSignature, ct_ExtKeyUsage = [ExtKeyUsageServerAuth, ExtKeyUsageClientAuth],
             ct_BasicConstraintsValid = False\<rparr>;
           certFile = filepath_Join (au_dir a1) (name @ ''.pem'');
           keyFile = filepath_Join (au_dir a1) (name @ ''.key'') in
       seqE (x_CreateCertificate x template (au_caCert a1) key (au_caKey a1)) (\<lambda>der.
       seqE (x_MarshalECPrivateKey x key) (\<lambda>keyDER.
       seqE (x_WriteFile x certFile (x_EncodeToMemory x ''CERTIFICATE'' der)) (\<lambda>_.
       seqE (x_WriteFile x keyFile (x_EncodeToMemory x ''EC PRIVATE KEY'' keyDER)) (\<lambda>_.
       ret (\<lparr>tls_CAFile = au_caFile a1, tls_CertFile = certFile, tls_KeyFile = keyFile\<rparr>, a1))))) w)"

definition pki_ClientCredentials ::
  "('cert, 'pool) tls_lib \<Rightarrow> TLS \<Rightarrow> string + ('cert, 'pool) TransportCredentials" where
  "pki_ClientCredentials lib material =
     (case LoadX509KeyPair lib (tls_CertFile material) (tls_KeyFile material) of
        Inl e \<Rightarrow> Inl e
      | Inr certificate \<Rightarrow>
          case ReadFile lib (tls_CAFile material) of
            Inl e \<Rightarrow> Inl e
          | Inr ca \<Rightarrow>
              case CertPool lib ca of
                None \<Rightarrow> Inl ''Should be true''
              | Some pool \<Rightarrow>
                  Inr (NewTLS \<lparr>tc_Certificates = [certificate], tc_ClientCAs = None, tc_RootCAs = Some pool,
                    tc_ClientAuth = NoClientCert, tc_MinVersion = VersionTLS13\<rparr>))"

section \<open>Theorems\<close>

text \<open>A test dials as the daemon does with the same material.\<close>

lemma pki_ClientCredentials_daemon:
  "tls_Enabled (cfg_TLS cfg) \<Longrightarrow> pki_ClientCredentials lib (cfg_TLS cfg) = Inr creds \<longleftrightarrow> clientCredentials lib cfg = Inr creds"
  by (auto simp: pki_ClientCredentials_def clientCredentials_def loadTLS_def split: sum.splits option.splits)

text \<open>In a clean directory a plain name is joined as it is.\<close>

definition plain :: "string \<Rightarrow> bool" where
  "plain p \<longleftrightarrow> p \<noteq> [] \<and> p \<noteq> ''.'' \<and> p \<noteq> ''..'' \<and> CHR ''/'' \<notin> set p"

definition clean_dir :: "string list \<Rightarrow> string" where
  "clean_dir parts = CHR ''/'' # Join parts ''/''"

lemma clean_parts_plain: "list_all plain ps \<Longrightarrow> clean_parts rooted acc ps = rev acc @ ps"
  by (induction ps arbitrary: acc) (auto simp: plain_def)

lemma filepath_Join_plain:
  assumes "parts \<noteq> []" and "list_all plain parts" and "plain name"
  shows "filepath_Join (clean_dir parts) name = clean_dir parts @ ''/'' @ name"
proof -
  have path: "clean_dir parts @ ''/'' @ name = CHR ''/'' # Join (parts @ [name]) ''/''"
    by (simp add: clean_dir_def Join_snoc [OF assms(1)])
  have "Split (CHR ''/'') (Join (parts @ [name]) ''/'') = parts @ [name]"
    using assms(2,3) by (intro Split_Join) (auto simp: plain_def list_all_iff)
  moreover have "clean_parts True [] (parts @ [name]) = parts @ [name]"
    using assms(2,3) by (simp add: clean_parts_plain)
  ultimately have "filepath_Clean (CHR ''/'' # Join (parts @ [name]) ''/'') = CHR ''/'' # Join (parts @ [name]) ''/''"
    by (simp add: filepath_Clean_def)
  moreover have "filepath_Join (clean_dir parts) name = filepath_Clean (clean_dir parts @ ''/'' @ name)"
    by (simp add: filepath_Join_def clean_dir_def)
  ultimately show ?thesis by (simp only: path)
qed

text \<open>Files hold what was written last; nothing else that is called here writes.\<close>

definition stores :: "('w, 'k) crypto \<Rightarrow> ('w \<Rightarrow> string \<rightharpoonup> bytes) \<Rightarrow> bool" where
  "stores x files \<longleftrightarrow>
     (\<forall>p b w w'. x_WriteFile x p b w = (Inr (), w') \<longrightarrow> files w' = (files w)(p \<mapsto> b)) \<and>
     (\<forall>w r w'. x_GenerateKey x w = (r, w') \<longrightarrow> files w' = files w) \<and>
     (\<forall>t c k k' w r w'. x_CreateCertificate x t c k k' w = (r, w') \<longrightarrow> files w' = files w) \<and>
     (\<forall>k w r w'. x_MarshalECPrivateKey x k w = (r, w') \<longrightarrow> files w' = files w)"

text \<open>
  A leaf adds its two files to the directory of the authority and leaves the certificate of the authority
  alone, unless it is called \<open>ca\<close>; serial numbers count up.
\<close>

lemma Leaf_files:
  assumes leaf: "Leaf x a name roles w = (Inr (material, a'), w')" and "stores x files"
    and dir: "au_dir a = clean_dir parts" "parts \<noteq> []" "list_all plain parts" and "plain (name @ ''.pem'')" "plain (name @ ''.key'')"
    and ca: "au_caFile a = filepath_Join (au_dir a) ''ca.pem''" and "name \<noteq> ''ca''"
  shows "files w' (tls_CAFile material) = files w (au_caFile a) \<and>
    (\<exists>der keyDER. files w' (tls_CertFile material) = Some (x_EncodeToMemory x ''CERTIFICATE'' der) \<and>
       files w' (tls_KeyFile material) = Some (x_EncodeToMemory x ''EC PRIVATE KEY'' keyDER)) \<and>
    tls_Enabled material \<and> au_serial a' = au_serial a + 1"
proof -
  have "plain ''ca.pem''" by (simp add: plain_def)
  note j = filepath_Join_plain [OF dir(2,3)]
  have names: "name @ ''.pem'' \<noteq> name @ ''.key''" "name @ ''.pem'' \<noteq> ''ca.pem''" "name @ ''.key'' \<noteq> ''ca.pem''"
  proof -
    show "name @ ''.pem'' \<noteq> name @ ''.key''" by simp
    show "name @ ''.pem'' \<noteq> ''ca.pem''" using assms(9) append_same_eq [of name "''.pem''" "''ca''"] by simp
    have "last (name @ ''.key'') \<noteq> last ''ca.pem''" by simp
    then show "name @ ''.key'' \<noteq> ''ca.pem''" by metis
  qed
  have paths: "filepath_Join (au_dir a) (name @ ''.pem'') \<noteq> filepath_Join (au_dir a) (name @ ''.key'')"
    "filepath_Join (au_dir a) (name @ ''.pem'') \<noteq> au_caFile a" "filepath_Join (au_dir a) (name @ ''.key'') \<noteq> au_caFile a"
    "au_caFile a \<noteq> []"
    unfolding ca dir(1) j [OF assms(6)] j [OF assms(7)] j [OF \<open>plain ''ca.pem''\<close>] using names by simp_all
  obtain key w1 der w2 keyDER w3 w4 t where run: "x_GenerateKey x w = (Inr key, w1)"
      "x_CreateCertificate x t (au_caCert a) key (au_caKey a) w1 = (Inr der, w2)"
      "x_MarshalECPrivateKey x key w2 = (Inr keyDER, w3)"
      "x_WriteFile x (tls_CertFile material) (x_EncodeToMemory x ''CERTIFICATE'' der) w3 = (Inr (), w4)"
      "x_WriteFile x (tls_KeyFile material) (x_EncodeToMemory x ''EC PRIVATE KEY'' keyDER) w4 = (Inr (), w')"
    and material: "material = \<lparr>tls_CAFile = au_caFile a, tls_CertFile = filepath_Join (au_dir a) (name @ ''.pem''),
      tls_KeyFile = filepath_Join (au_dir a) (name @ ''.key'')\<rparr>" "au_serial a' = au_serial a + 1"
    using leaf unfolding Leaf_def by (auto simp: seqE_def Let_def split: prod.splits sum.splits)
  have "files w' = (files w)(tls_CertFile material \<mapsto> x_EncodeToMemory x ''CERTIFICATE'' der,
      tls_KeyFile material \<mapsto> x_EncodeToMemory x ''EC PRIVATE KEY'' keyDER)"
    using run assms(2) unfolding stores_def by metis
  then show ?thesis using paths material by (auto simp: tls_Enabled_def)
qed

end
