(* ===== verification/ApiFrames.thy ===== *)
theory ApiFrames
  imports ApiPush
begin

text \<open>
  What calls leave alone. A predicate that every lvm command keeps is kept by every storage verb, a
  predicate that every device operation and every send keeps is kept by reading a device; the rules
  follow the structure of the code and are collected in \<open>keeps_intros\<close>.
\<close>

named_theorems keeps_intros "rules for predicates that a call keeps, whatever its outcome"

definition keeps :: "('w \<Rightarrow> bool) \<Rightarrow> ('w, 'e, 'a) go \<Rightarrow> bool" where
  "keeps P m \<longleftrightarrow> (\<forall>w. P w \<longrightarrow> P (snd (m w)))"

lemma keepsI: "(\<And>w r w'. P w \<Longrightarrow> m w = (r, w') \<Longrightarrow> P w') \<Longrightarrow> keeps P m"
  by (metis keeps_def prod.collapse)

lemma keepsD: "keeps P m \<Longrightarrow> P w \<Longrightarrow> m w = (r, w') \<Longrightarrow> P w'"
  by (metis keeps_def snd_conv)

section \<open>Control flow\<close>

lemma keeps_ret [keeps_intros]: "keeps P (ret a)" "keeps P (fail e)"
  by (simp_all add: keeps_def)

lemma keeps_seqE [keeps_intros]: "keeps P m \<Longrightarrow> (\<And>a. keeps P (f a)) \<Longrightarrow> keeps P (seqE m f)"
  by (rule keepsI, erule seqE_cases) (auto dest: keepsD)

lemma keeps_mapErr [keeps_intros]: "keeps P m \<Longrightarrow> keeps P (mapErr g m)"
  by (rule keepsI, erule mapErr_cases) (auto dest: keepsD)

lemma keeps_wrap [keeps_intros]: "keeps P m \<Longrightarrow> keeps P (wrap what m)"
  unfolding wrap_def by (rule keeps_mapErr)

lemma keeps_if [keeps_intros]: "(b \<Longrightarrow> keeps P m) \<Longrightarrow> (\<not> b \<Longrightarrow> keeps P m') \<Longrightarrow> keeps P (if b then m else m')"
  by simp

lemma keeps_list_case [keeps_intros]:
  "keeps P m \<Longrightarrow> (\<And>x xs. keeps P (f x xs)) \<Longrightarrow> keeps P (case l of [] \<Rightarrow> m | x # xs \<Rightarrow> f x xs)"
  by (simp split: list.splits)

lemma keeps_option_case [keeps_intros]:
  "keeps P m \<Longrightarrow> (\<And>x. keeps P (f x)) \<Longrightarrow> keeps P (case z of None \<Rightarrow> m | Some x \<Rightarrow> f x)"
  by (simp split: option.splits)

lemma keeps_conj: "keeps P m \<Longrightarrow> keeps Q m \<Longrightarrow> keeps (\<lambda>w. P w \<and> Q w) m"
  by (simp add: keeps_def)

section \<open>Storage verbs\<close>

lemma keeps_client_run: "keeps P (run cmd) \<Longrightarrow> keeps P (client_run (daemon_client run) cmd)"
  by (rule keepsI) (auto simp: client_run_def dest: keepsD split: prod.splits sum.splits run_failure.splits)

lemma keeps_run_unit: "(\<And>cmd. keeps P (run cmd)) \<Longrightarrow> keeps P (run_unit (daemon_client run) what cmd)"
  unfolding run_unit_def by (intro keeps_intros keeps_client_run)

lemma keeps_run_output: "(\<And>cmd. keeps P (run cmd)) \<Longrightarrow> keeps P (run_output (daemon_client run) what cmd)"
  unfolding run_output_def by (intro keeps_intros keeps_client_run)

lemma keeps_commands [keeps_intros]:
  assumes run: "\<And>cmd. keeps P (run cmd)"
  shows "adds @ dels \<noteq> [] \<Longrightarrow> keeps P (ChangeLogicalVolume (daemon_client run) (lv_target cfg n) (retag_opts adds dels skip))"
    and "keeps P (ActivateLogicalVolume (daemon_client run) (lv_target cfg n) (activate_opts ignore))"
    and "keeps P (DeactivateLogicalVolume (daemon_client run) (lv_target cfg n) no_common)"
    and "keeps P (RemoveLogicalVolume (daemon_client run) (lv_target cfg n) force_remove)"
  unfolding lv_target_def
  by (simp_all only: retag_command [where pool = "[]"] activate_command [where pool = "[]"]
      deactivate_command [where pool = "[]"] remove_command [where pool = "[]"] keeps_run_unit [OF run] not_False_eq_True)

lemma keeps_list:
  assumes "\<And>cmd. keeps P (run cmd)" and "sel \<noteq> []" and "vg \<noteq> []"
  shows "keeps P (ListLogicalVolumes (daemon_client run) (list_opts vg sel))"
  unfolding list_command [OF assms(2,3)]
  by (intro keeps_seqE keeps_run_output assms(1)) (simp add: keeps_def)

lemma keeps_GetVolume [keeps_intros]:
  assumes "\<And>cmd. keeps P (run cmd)" and "cfg_VolumeGroup cfg \<noteq> []"
  shows "keeps P (GetVolume (daemon_client run) cfg n)"
  unfolding GetVolume_def by (intro keeps_intros keeps_list assms sel_nonempty)

lemma keeps_push_verbs:
  assumes run: "\<And>cmd. keeps P (run cmd)" and "cfg_VolumeGroup cfg \<noteq> []"
  shows "keeps P (MarkCommitting (daemon_client run) cfg n)" "keeps P (RetirePushed (daemon_client run) cfg n)"
    "keeps P (AbortPush (daemon_client run) cfg n)"
  unfolding MarkCommitting_def RetirePushed_def AbortPush_def deactivatePushed_def
  by (intro keeps_intros assms; simp)+

section \<open>Devices\<close>

text \<open>The operations that reading a device needs.\<close>

definition keeps_reads :: "('w \<Rightarrow> bool) \<Rightarrow> 'w devio \<Rightarrow> bool" where
  "keeps_reads P io \<longleftrightarrow>
     (\<forall>p. keeps P (d_open io p) \<and> keeps P (d_seek_end io p) \<and> keeps P (d_seek_start io p) \<and>
        (\<forall>off n. keeps P (d_read io p off n)))"

lemma keeps_read_loop:
  assumes "\<And>off n. keeps P (d_read io path off n)" and "\<And>f. keeps P (sink f)"
  shows "keeps P (read_loop H io cancelled path sink off left b)"
proof (induction left arbitrary: off b rule: less_induct)
  case (less left)
  have pos: "0 < chunk_len" by (simp add: chunk_len_def TransferChunkBytes_def)
  show ?case
  proof (cases "left = 0")
    case False
    then have "left - min chunk_len left < left" using pos by simp
    then have "keeps P (read_loop H io cancelled path sink off' (left - min chunk_len left) b')" for off' b'
      by (rule less.IH)
    then show ?thesis
      using assms False unfolding read_loop.simps [of H io cancelled path sink off left b] Let_def
      by (auto intro!: keeps_intros)
  qed (simp add: read_loop.simps keeps_def)
qed

lemma keeps_ReadDevice:
  assumes "keeps_reads P io" and "\<And>f. keeps P (sink f)"
  shows "keeps P (ReadDevice H io cancelled path sink)"
  using assms unfolding ReadDevice_def keeps_reads_def Let_def
  by (intro keeps_intros keeps_read_loop) auto

section \<open>The server\<close>

lemma keeps_on_host: "keeps P m \<Longrightarrow> (\<And>s w. Q s \<longleftrightarrow> P (sv_host s) \<and> R (sv_ops s)) \<Longrightarrow> keeps Q (on_host m)"
  by (simp add: keeps_def on_host_def split_def Let_def)

lemma on_host_simps [simp]:
  "on_host m s = (fst (m (sv_host s)), s\<lparr>sv_host := snd (m (sv_host s))\<rparr>)"
  by (simp add: on_host_def split_def Let_def)

text \<open>A server on the reference node, with one operation under way.\<close>

definition demo_server :: "'w \<Rightarrow> Transfers \<Rightarrow> 'w server" where
  "demo_server w t = \<lparr>sv_host = w, sv_ops = NewTable(''op'' \<mapsto> \<lparr>op_Phase = Pending, op_BytesDone = 0, op_Reason = []\<rparr>),
     sv_pins = NewExportPins, sv_transfers = t, sv_reserved = newNameReservations, sv_jobs = []\<rparr>"

end
