(* ===== verification/ApiStreams.thy ===== *)
theory ApiStreams
  imports ApiFrames
begin

text \<open>
  What streaming a device leaves alone. A predicate of the server that the calls to the peer, the
  reads of the device and the progress of the operation keep is kept by every attempt of a push, by
  the commit loop and by a copy between devices.
\<close>

section \<open>Pushing\<close>

definition keeps_stream :: "('w server \<Rightarrow> bool) \<Rightarrow> 'w devio \<Rightarrow> 'w peer \<Rightarrow> string \<Rightarrow> string \<Rightarrow> bool" where
  "keeps_stream Q io peer tid op \<longleftrightarrow>
     keeps Q (on_host (p_QueryTransfer peer tid)) \<and> keeps Q (on_host (p_Receive peer)) \<and>
     (\<forall>msg. keeps Q (on_host (p_Send peer msg))) \<and> keeps Q (on_host (p_CloseAndRecv peer)) \<and>
     keeps_reads Q (lift_io io) \<and> (\<forall>s k. Q s \<longrightarrow> Q (s\<lparr>sv_ops := ops_Progress (sv_ops s) op k\<rparr>))"

lemma keeps_peer_err [keeps_intros]: "keeps P m \<Longrightarrow> keeps P (peer_err what m)"
  unfolding peer_err_def by (rule keeps_mapErr)

text \<open>The flag next to the state while the device is read.\<close>

lemma keeps_pair: "keeps P m \<Longrightarrow> keeps (\<lambda>p. P (fst p)) (on_fst m)"
  by (simp add: keeps_def on_fst_def split_def Let_def)

lemma keeps_reads_fst: "keeps_reads P io \<Longrightarrow> keeps_reads (\<lambda>p. P (fst p)) (fst_io io)"
  by (simp add: keeps_reads_def fst_io_def keeps_pair)

lemma keeps_stream_send: "keeps Q (on_host (p_Send peer msg)) \<Longrightarrow> keeps (\<lambda>p. Q (fst p)) (stream_send peer msg)"
  by (auto simp: keeps_def stream_send_def split: prod.splits sum.splits)

lemma keeps_send_frame:
  assumes "keeps_stream Q io peer tid op"
  shows "keeps (\<lambda>p. Q (fst p)) (send_frame peer op nxt frame)"
  using assms unfolding send_frame_def keeps_stream_def
  by (intro keeps_intros keeps_stream_send) (auto simp: keeps_def)

lemma keeps_streamOnce:
  assumes k: "keeps_stream Q io peer tid op"
  shows "keeps Q (streamOnce H io cancelled peer path tid op)"
proof -
  let ?send = "\<lambda>nxt. seqE (stream_send peer (Header tid))
    (\<lambda>_. ReadDevice H (fst_io (lift_io io)) cancelled path (send_frame peer op nxt))"
  have send: "keeps (\<lambda>p. Q (fst p)) (?send nxt)" for nxt
    using k by (intro keeps_intros keeps_stream_send keeps_ReadDevice keeps_reads_fst keeps_send_frame [OF k])
      (auto simp: keeps_stream_def)
  have closing: "Q s \<Longrightarrow> Q (s\<lparr>sv_host := snd (p_CloseAndRecv peer (sv_host s))\<rparr>)" for s
    using k by (simp add: keeps_stream_def keeps_def)
  have body: "Q (snd (case ?send nxt (s, False) of
       (Inl e, (s1, sendFailed)) \<Rightarrow>
         (if sendFailed
          then (case on_host (p_CloseAndRecv peer) s1 of
                  (Inl recvErr, s2) \<Rightarrow> (Inl (Wrap ''streaming frames: '' (PeerError recvErr) []), s2)
                | (Inr _, s2) \<Rightarrow> (Inl (Wrap ''streaming frames: '' e []), s2))
          else (Inl (Wrap ''streaming frames: '' e []), s1))
     | (Inr (_, digest), (s1, _)) \<Rightarrow>
         seqE (peer_err ''closing stream'' (on_host (p_CloseAndRecv peer))) (\<lambda>_. ret digest) s1))"
    if "Q s" for nxt s
  proof -
    obtain r s1 b where r: "?send nxt (s, False) = (r, (s1, b))" by (metis prod.exhaust)
    have s1: "Q s1" using keepsD [OF send _ r] that by simp
    then show ?thesis
      unfolding r using closing [OF s1]
      by (cases r) (auto simp: peer_err_def mapErr_def seqE_def split: sum.splits)
  qed
  show ?thesis
    unfolding streamOnce_def
    using k by (intro keeps_intros) (use body in \<open>simp_all add: keeps_stream_def keeps_def\<close>)
qed

lemma keeps_stream_attempts:
  assumes "keeps_stream Q io peer tid op"
  shows "keeps Q (stream_attempts H io cancelled peer path tid op k e)"
proof (induction k arbitrary: e)
  case (Suc k)
  show ?case
  proof (rule keepsI)
    fix s r s' assume "Q s" and a: "stream_attempts H io cancelled peer path tid op (Suc k) e s = (r, s')"
    obtain q s1 where q: "streamOnce H io cancelled peer path tid op s = (q, s1)" by fastforce
    have "Q s1" using keeps_streamOnce [OF assms] \<open>Q s\<close> q by (rule keepsD)
    then show "Q s'" using a q keepsD [OF Suc.IH] by (auto split: sum.splits if_splits)
  qed
qed (simp add: keeps_def)

lemma keeps_streamVolume:
  assumes "keeps_stream Q io peer tid op" and "keeps Q (on_host (GetVolume c cfg vid))"
    and "keeps Q (on_host (ActivateLogicalVolume c (lv_target cfg vid) (activate_opts ignore)))"
  shows "keeps Q (streamVolume H io cancelled c cfg peer vid tid op ignore)"
proof -
  have "keeps Q (on_host (wrap what (ActivateLogicalVolume c (lv_target cfg vid) (activate_opts ignore))))" for what
    using assms(3) by (auto simp: keeps_def wrap_def mapErr_def split: prod.splits sum.splits)
  then show ?thesis
    unfolding streamVolume_def by (intro keeps_intros keeps_stream_attempts assms)
qed

section \<open>Committing\<close>

lemma commit_attempts_keeps:
  assumes "keeps Q (on_host (p_CommitTransfer peer tid digest))" and "Q s"
  shows "Q (snd (commit_attempts peer tid digest k e s))"
  using assms(2)
proof (induction k arbitrary: e s)
  case (Suc k)
  obtain r w where c: "p_CommitTransfer peer tid digest (sv_host s) = (r, w)" by fastforce
  have "Q (s\<lparr>sv_host := w\<rparr>)" using assms(1) Suc.prems c by (auto simp: keeps_def)
  then show ?case using c Suc.IH by (cases r) auto
qed simp

lemma commitPush_keeps:
  "keeps Q (on_host (p_CommitTransfer peer tid digest)) \<Longrightarrow> Q s \<Longrightarrow> Q (snd (commitPush peer tid digest s))"
  unfolding commitPush_def by (rule commit_attempts_keeps)

section \<open>Copying\<close>

lemma keeps_CopyDevice:
  assumes "keeps_reads Q io" and "keeps Q (d_openw io dst)" and "keeps Q (d_sync io dst)"
    and "\<And>off data. keeps Q (d_write io dst off data)" and "\<And>k w. Q w \<Longrightarrow> Q (progress k w)"
  shows "keeps Q (CopyDevice H io cancelled src dst progress)"
proof -
  have "keeps Q (\<lambda>w. (Inr (), progress k w))" for k using assms(5) by (simp add: keeps_def)
  then show ?thesis
    unfolding CopyDevice_def by (intro keeps_intros keeps_ReadDevice assms(1-4))
qed

end
