(* ===== verification/PushSafety.thy ===== *)
theory PushSafety
  imports ApiStreams
begin

text \<open>
  The safety of a push, over the contract of a target. The locale \<open>push_link\<close> states what the pushing
  node relies on: its own lvm commands, and the answers of the target to the calls of one transfer.
  \<open>there w\<close> says that the target holds the volume as its own, \<open>ok\<close> is what the target keeps invariant.
\<close>

definition is_done :: "Table \<Rightarrow> string \<Rightarrow> bool" where
  "is_done t op \<longleftrightarrow> (\<exists>p. ops_Get t op = Some p \<and> op_Phase p = Done)"

lemma is_doneD:
  "is_done (ops_Progress t k n) op \<Longrightarrow> is_done t op" "is_done (ops_Fail t k reason) op \<Longrightarrow> is_done t op"
  by (auto simp: is_done_def ops_Get_def ops_Progress_def ops_Fail_def split: if_splits option.splits)

text \<open>Nothing of interest has changed: the states on the source, and whether the target has the volume.\<close>

definition steady ::
  "('w \<Rightarrow> lvview) \<Rightarrow> ('w \<Rightarrow> bool) \<Rightarrow> ('w \<Rightarrow> bool) \<Rightarrow> (string \<rightharpoonup> State) \<Rightarrow> bool \<Rightarrow> 'w \<Rightarrow> bool" where
  "steady view ok there st l w \<longleftrightarrow> wf_view (view w) \<and> vstate (view w) = st \<and> ok w \<and> there w = l"

text \<open>The same on a server whose operation has not been reported done.\<close>

definition waits :: "('w \<Rightarrow> bool) \<Rightarrow> string \<Rightarrow> 'w server \<Rightarrow> bool" where
  "waits P op s \<longleftrightarrow> P (sv_host s) \<and> \<not> is_done (sv_ops s) op"

text \<open>
  At most one node has the volume as its own: a source that is ready, or still streaming, has it alone, a
  retired source only where the target has it; a committing source is not decided.
\<close>

definition one_copy :: "('w \<Rightarrow> lvview) \<Rightarrow> ('w \<Rightarrow> bool) \<Rightarrow> string \<Rightarrow> 'w \<Rightarrow> bool" where
  "one_copy view there vid w \<longleftrightarrow>
     (case vstate (view w) vid of
        Some StateReady \<Rightarrow> \<not> there w
      | Some StatePushing \<Rightarrow> \<not> there w
      | Some StateRetired \<Rightarrow> there w
      | Some StateCommitting \<Rightarrow> True
      | _ \<Rightarrow> False)"

text \<open>
  A job is over: the rule holds, an operation reported done has retired the source, and only a job that
  streams can leave a source that is still pushing.
\<close>

definition over ::
  "('w \<Rightarrow> lvview) \<Rightarrow> ('w \<Rightarrow> bool) \<Rightarrow> ('w \<Rightarrow> bool) \<Rightarrow> string \<Rightarrow> bool \<Rightarrow> string \<Rightarrow> 'w server \<Rightarrow> bool" where
  "over view ok there vid streamed op s \<longleftrightarrow>
     wf_view (view (sv_host s)) \<and> ok (sv_host s) \<and> one_copy view there vid (sv_host s) \<and>
     (vstate (view (sv_host s)) vid = Some StatePushing \<longrightarrow> streamed) \<and>
     (is_done (sv_ops s) op \<longrightarrow> vstate (view (sv_host s)) vid = Some StateRetired)"

locale push_link = node run cfg view
  for run :: "'w runner" and cfg :: Config and view :: "'w \<Rightarrow> lvview" +
  fixes ok there :: "'w \<Rightarrow> bool" and peer :: "'w peer" and dial :: "'w dial" and io :: "'w devio" and vid tid :: string
  assumes own_frame: "run cmd w = (out, w') \<Longrightarrow> ok w' = ok w \<and> there w' = there w"
    and reads: "keeps_reads (steady view ok there st l) io"
    and dial_frame: "keeps (steady view ok there st l) (dial target)"
    and dialled: "dial target w = (Inr p, w') \<Longrightarrow> p = peer"
    and query_transfer_frame: "keeps (steady view ok there st l) (p_QueryTransfer peer tid)"
    and receive_frame: "keeps (steady view ok there st l) (p_Receive peer)"
    and send_frame: "keeps (steady view ok there st l) (p_Send peer msg)"
    and close_frame: "keeps (steady view ok there st l) (p_CloseAndRecv peer)"
    and abort_frame: "keeps (steady view ok there st l) (p_AbortTransfer peer tid)"
    and query_frame: "keeps (steady view ok there st l) (p_QueryVolume peer vid)"
    and query_answer: "p_QueryVolume peer vid w = (Inr b, w') \<Longrightarrow> ok w \<Longrightarrow> b = there w"
    and commit_answer: "p_CommitTransfer peer tid digest w = (r, w') \<Longrightarrow> ok w \<Longrightarrow>
      view w' = view w \<and> ok w' \<and> (r = Inr () \<longrightarrow> there w') \<and> (\<forall>e. r = Inl e \<and> st_Code e = DataLoss \<longrightarrow> \<not> there w')"
    and name_ok: "lv_name_ok vid"
begin

lemma own_keeps: "keeps (\<lambda>w. ok w = a \<and> there w = b) (run cmd)"
  by (rule keepsI) (auto dest: own_frame)

lemma activity_same:
  assumes "lv_effect pool op v v'" and "op = OpActivate n ignore \<or> op = OpDeactivate n" and "wf_view v"
  shows "wf_view v' \<and> vstate v' = vstate v"
  using assms active_same [OF _ assms(3)] by (auto elim!: eff_activateE eff_deactivateE)

lemma keeps_activity:
  "keeps (steady view ok there st l) (ActivateLogicalVolume (daemon_client run) (lv_target cfg n) (activate_opts ignore))"
  "keeps (steady view ok there st l) (DeactivateLogicalVolume (daemon_client run) (lv_target cfg n) no_common)"
proof -
  have k: "keeps (steady view ok there st l) m"
    if d: "does view (cfg_ThinPool cfg) op (wrap [] m)" and o: "op = OpActivate n ignore \<or> op = OpDeactivate n"
      and f: "keeps (\<lambda>w. ok w = True \<and> there w = l) m" for m :: "('w, lvm_err, unit) go" and op
  proof (rule keepsI)
    fix w r w' assume p: "steady view ok there st l w" and m: "m w = (r, w')"
    then have "wrap [] m w = (case r of Inl e \<Rightarrow> Inl (Wrap ([] @ '': '') (OfLvm e) []) | Inr u \<Rightarrow> Inr u, w')"
      by (auto simp: wrap_def mapErr_def split: sum.splits)
    then have "view w' = view w \<or> lv_effect (cfg_ThinPool cfg) op (view w) (view w')"
      by (rule does_cases [OF d]) auto
    then have "wf_view (view w') \<and> vstate (view w') = vstate (view w)"
      using p activity_same [OF _ o] by (auto simp: steady_def)
    moreover have "ok w' = True \<and> there w' = l" using keepsD [OF f _ m] p by (simp add: steady_def)
    ultimately show "steady view ok there st l w'" using p by (simp add: steady_def)
  qed
  show "keeps (steady view ok there st l) (ActivateLogicalVolume (daemon_client run) (lv_target cfg n) (activate_opts ignore))"
    by (rule k [OF activate_does _ keeps_commands(2) [OF own_keeps]]) simp
  show "keeps (steady view ok there st l) (DeactivateLogicalVolume (daemon_client run) (lv_target cfg n) no_common)"
    by (rule k [OF deactivate_does _ keeps_commands(3) [OF own_keeps]]) simp
qed

lemma keeps_lookup: "keeps (steady view ok there st l) (GetVolume (daemon_client run) cfg vid)"
proof (rule keepsI)
  fix w r w' assume p: "steady view ok there st l w" and g: "GetVolume (daemon_client run) cfg vid w = (r, w')"
  have "ok w' = True \<and> there w' = l"
    using keepsD [OF keeps_GetVolume [OF own_keeps vg_set] _ g] p by (simp add: steady_def)
  moreover have "view w' = view w" using g name_ok by (rule GetVolume_cases)
  ultimately show "steady view ok there st l w'" using p by (simp add: steady_def)
qed

section \<open>Streaming\<close>

text \<open>A predicate of the world is kept by the calls on the server.\<close>

lemma keeps_server: "keeps P m \<Longrightarrow> keeps (waits P op) (on_host m)"
  by (simp add: keeps_def waits_def)

lemma link_stream: "keeps_stream (waits (steady view ok there st l) op) io peer tid op"
  using reads query_transfer_frame receive_frame send_frame close_frame
  by (auto simp: keeps_stream_def keeps_reads_def lift_io_def intro!: keeps_server) (auto simp: waits_def dest: is_doneD)

lemma streamVolume_keeps:
  "keeps (waits (steady view ok there st l) op) (streamVolume H io cancelled (daemon_client run) cfg peer vid tid op ignore)"
  by (intro keeps_streamVolume link_stream keeps_server keeps_activity keeps_lookup)

section \<open>Settling\<close>

lemma commit_attempts_outcome:
  assumes "commit_attempts peer tid digest k e s = ((oc, e'), s')" and "ok (sv_host s)"
  shows "view (sv_host s') = view (sv_host s) \<and> ok (sv_host s') \<and> sv_ops s' = sv_ops s \<and>
    (oc = commitLanded \<longrightarrow> there (sv_host s')) \<and> (oc = commitRefused \<longrightarrow> \<not> there (sv_host s'))"
  using assms
proof (induction k arbitrary: e s)
  case (Suc k)
  obtain r w where c: "p_CommitTransfer peer tid digest (sv_host s) = (r, w)" by fastforce
  note a = commit_answer [OF c Suc.prems(2)]
  show ?case
  proof (cases r)
    case (Inr u)
    then show ?thesis using Suc.prems(1) c a by auto
  next
    case (Inl x)
    then show ?thesis
      using Suc.prems(1) c a Suc.IH [of _ "s\<lparr>sv_host := w\<rparr>"] by (auto split: if_splits)
  qed
qed auto

lemma own_verb_frame:
  assumes "keeps (\<lambda>w. ok w = ok w0 \<and> there w = there w0) m" and "m w0 = (r, w')"
  shows "ok w' = ok w0 \<and> there w' = there w0"
  using keepsD [OF assms(1) _ assms(2)] by simp

lemma abort_outcome:
  assumes "AbortPush (daemon_client run) cfg vid w = (r, w')" and "wf_view (view w)" and "ok w" and "\<not> there w"
    and "vstate (view w) vid \<in> {Some StatePushing, Some StateCommitting}"
  shows "wf_view (view w') \<and> ok w' \<and> \<not> there w' \<and> one_copy view there vid w' \<and>
    (vstate (view w') vid = Some StatePushing \<longrightarrow> vstate (view w) vid = Some StatePushing)"
proof -
  have f: "ok w' = ok w \<and> there w' = there w"
    using own_verb_frame [OF keeps_push_verbs(3) [OF own_keeps vg_set] assms(1)] .
  consider "view w' = view w" | s where "unsettled vid s (view w) (view w')" | s where "settled vid StateReady s (view w) (view w')"
    using AbortPush_outcome [OF assms(1,2) name_ok] by blast
  then have "wf_view (view w') \<and> (vstate (view w') vid = vstate (view w) vid \<or> vstate (view w') vid = Some StateReady)"
    by cases (use assms(2) settledD unsettledD in auto)
  then show ?thesis using f assms(3-5) by (auto simp: one_copy_def)
qed

lemma retire_outcome:
  assumes "RetirePushed (daemon_client run) cfg vid w = (r, w')" and "wf_view (view w)" and "ok w" and "there w"
    and "vstate (view w) vid = Some StateCommitting"
  shows "wf_view (view w') \<and> ok w' \<and> one_copy view there vid w' \<and> vstate (view w') vid \<noteq> Some StatePushing \<and>
    (r = Inr () \<longrightarrow> vstate (view w') vid = Some StateRetired)"
proof -
  have f: "ok w' = ok w \<and> there w' = there w"
    using own_verb_frame [OF keeps_push_verbs(2) [OF own_keeps vg_set] assms(1)] .
  consider e where "r = Inl e" "view w' = view w" | "is_err r" "unsettled vid StateCommitting (view w) (view w')"
    | "settled vid StateRetired StateCommitting (view w) (view w')"
    using RetirePushed_outcome [OF assms(1,2) name_ok] by blast
  then have "wf_view (view w') \<and> (is_err r \<and> vstate (view w') vid = Some StateCommitting \<or> vstate (view w') vid = Some StateRetired)"
    by cases (use assms(2,5) settledD unsettledD in auto)
  then show ?thesis using f assms(3,4) by (auto simp: one_copy_def)
qed

text \<open>What holds when a job is over.\<close>

lemma failPush_over:
  assumes "wf_view (view (sv_host s))" and "ok (sv_host s)" and "\<not> there (sv_host s)" and "\<not> is_done (sv_ops s) op"
    and "vstate (view (sv_host s)) vid \<in> {Some StatePushing, Some StateCommitting}"
    and "vstate (view (sv_host s)) vid = Some StatePushing \<Longrightarrow> streamed"
  shows "over view ok there vid streamed op (failPush (daemon_client run) cfg vid op cause s)"
proof -
  obtain r w where "AbortPush (daemon_client run) cfg vid (sv_host s) = (r, w)" by fastforce
  from this abort_outcome [OF this assms(1-3,5)] assms(4,6) show ?thesis
    by (auto simp: over_def failPush_def ops_fail_def dest: is_doneD)
qed

lemma retirePushed_over:
  assumes "wf_view (view (sv_host s))" and "ok (sv_host s)" and "there (sv_host s)" and "\<not> is_done (sv_ops s) op"
    and "vstate (view (sv_host s)) vid = Some StateCommitting"
  shows "over view ok there vid streamed op (retirePushed (daemon_client run) cfg vid op s)"
proof -
  obtain r w where "RetirePushed (daemon_client run) cfg vid (sv_host s) = (r, w)" by fastforce
  from this retire_outcome [OF this assms(1-3,5)] assms(4) show ?thesis
    by (cases r) (auto simp: over_def retirePushed_def ops_fail_def ops_finish_def dest: is_doneD)
qed

lemma abortTransfer_waits:
  "waits (steady view ok there st l) op s \<Longrightarrow> waits (steady view ok there st l) op (abortTransfer peer tid s)"
  using keeps_server [OF abort_frame] by (simp add: abortTransfer_def keeps_def)

lemma settlePush_over:
  assumes "waits (steady view ok there st l) op s" and "st vid = Some StateCommitting"
  shows "over view ok there vid streamed op (settlePush (daemon_client run) cfg peer l vid tid op e s)"
proof (cases l)
  case True
  then show ?thesis using assms retirePushed_over [of s op] by (simp add: settlePush_def waits_def steady_def)
next
  case False
  have "waits (steady view ok there st l) op (abortTransfer peer tid s)" using assms(1) by (rule abortTransfer_waits)
  then show ?thesis
    using False assms(2) failPush_over [of "abortTransfer peer tid s" op streamed e] by (simp add: settlePush_def waits_def steady_def)
qed

lemma query_cases:
  assumes "waits (steady view ok there st l) op s" and "p_QueryVolume peer vid (sv_host s) = (r, w)"
  shows "waits (steady view ok there st l) op (s\<lparr>sv_host := w\<rparr>) \<and> (\<forall>b. r = Inr b \<longrightarrow> b = l)"
  using assms keepsD [OF query_frame _ assms(2)] query_answer [of "sv_host s"] by (auto simp: waits_def steady_def)

lemma resolvePush_over:
  assumes p: "waits (steady view ok there st l) op s" and st: "st vid = Some StateCommitting"
  shows "over view ok there vid streamed op (resolvePush (daemon_client run) cfg peer vid tid op e s)"
proof -
  obtain r w where q: "p_QueryVolume peer vid (sv_host s) = (r, w)" by fastforce
  note c = query_cases [OF p q]
  show ?thesis
  proof (cases r)
    case (Inl x)
    have "steady view ok there st l (snd (DeactivateLogicalVolume (daemon_client run) (lv_target cfg vid) no_common w))"
      using keeps_activity(2) c by (simp add: keeps_def waits_def)
    then show ?thesis
      using Inl q c st by (auto simp: resolvePush_def over_def ops_fail_def steady_def waits_def one_copy_def dest: is_doneD)
  next
    case (Inr b)
    then show ?thesis using q c settlePush_over [OF conjunct1 [OF c] st] by (auto simp: resolvePush_def)
  qed
qed

lemma finishPush_over:
  assumes p: "waits (steady view ok there st l) op s" and st: "st vid = Some StateCommitting"
  shows "over view ok there vid streamed op (finishPush (daemon_client run) cfg peer vid tid op digest s)"
proof -
  obtain oc e s1 where c: "commitPush peer tid digest s = ((oc, e), s1)" by (metis prod.exhaust)
  have h: "view (sv_host s1) = view (sv_host s)" "ok (sv_host s1)" "sv_ops s1 = sv_ops s"
    "oc = commitLanded \<Longrightarrow> there (sv_host s1)" "oc = commitRefused \<Longrightarrow> \<not> there (sv_host s1)"
    using commit_attempts_outcome [OF c [unfolded commitPush_def]] p by (auto simp: waits_def steady_def)
  have s1: "waits (steady view ok there st (there (sv_host s1))) op s1"
    using p h(1-3) by (simp add: waits_def steady_def)
  then have w: "wf_view (view (sv_host s1))" "\<not> is_done (sv_ops s1) op" "vstate (view (sv_host s1)) vid = Some StateCommitting"
    using st by (simp_all add: waits_def steady_def)
  show ?thesis
  proof (cases oc)
    case commitLanded
    then show ?thesis using c retirePushed_over [OF w(1) h(2) h(4) w(2,3)] by (simp add: finishPush_def)
  next
    case commitRefused
    then show ?thesis using c failPush_over [OF w(1) h(2) h(5) w(2), of streamed] w(3) by (simp add: finishPush_def)
  next
    case commitUnknown
    then show ?thesis using c resolvePush_over [OF s1 st] by (simp add: finishPush_def)
  qed
qed

lemma mark_committing_cases:
  assumes p: "waits (steady view ok there st False) op s" and st: "st vid = Some StatePushing"
    and m: "MarkCommitting (daemon_client run) cfg vid (sv_host s) = (r, w)"
  shows "\<exists>st'. waits (steady view ok there st' False) op (s\<lparr>sv_host := w\<rparr>) \<and>
    (if is_err r then st' vid \<in> {Some StatePushing, Some StateCommitting} else st' vid = Some StateCommitting)"
proof -
  have wf: "wf_view (view (sv_host s))" using p by (simp add: waits_def steady_def)
  have f: "ok w = ok (sv_host s) \<and> there w = there (sv_host s)"
    using own_verb_frame [OF keeps_push_verbs(1) [OF own_keeps vg_set] m] .
  consider (same) "is_err r" "view w = view (sv_host s)"
    | (moved) "moves vid StateCommitting [] StatePushing [] None (view (sv_host s)) (view w)"
    using MarkCommitting_outcome [OF m wf name_ok] by (auto simp: push_step_def)
  then show ?thesis
  proof cases
    case same
    then show ?thesis using p f st by (intro exI [of _ st]) (simp add: waits_def steady_def)
  next
    case moved
    from movesD [OF this wf] show ?thesis
      using p f by (intro exI [of _ "vstate (view w)"]) (simp add: waits_def steady_def)
  qed
qed

lemma dialled_waits:
  assumes "waits (steady view ok there st l) op s" and "dial target (sv_host s) = (r, w)"
  shows "waits (steady view ok there st l) op (s\<lparr>sv_host := w\<rparr>) \<and> (\<forall>p. r = Inr p \<longrightarrow> p = peer)"
  using assms keepsD [OF dial_frame _ assms(2)] dialled [of target "sv_host s"] by (auto simp: waits_def steady_def)

lemma aborted_over:
  assumes "waits (steady view ok there st False) op s" and "st vid \<in> {Some StatePushing, Some StateCommitting}"
  shows "over view ok there vid True op (failPush (daemon_client run) cfg vid op cause s)"
    and "over view ok there vid True op (failPush (daemon_client run) cfg vid op cause (abortTransfer peer tid s))"
  using assms abortTransfer_waits [OF assms(1)] by (auto intro!: failPush_over simp: waits_def steady_def)

lemma runPush_over:
  assumes p: "waits (steady view ok there st False) op s" and st: "st vid = Some StatePushing"
  shows "over view ok there vid True op (runPush H io cancelled (daemon_client run) cfg dial vid tid target op s)"
proof -
  obtain r w where d: "dial target (sv_host s) = (r, w)" by fastforce
  let ?s1 = "s\<lparr>sv_host := w\<rparr>"
  have s1: "waits (steady view ok there st False) op ?s1" and peer: "\<And>p. r = Inr p \<Longrightarrow> p = peer"
    using dialled_waits [OF p d] by auto
  show ?thesis
  proof (cases r)
    case (Inl e)
    then show ?thesis using d aborted_over(1) [OF s1] st by (simp add: runPush_def)
  next
    case (Inr p')
    obtain q s2 where v: "streamVolume H io cancelled (daemon_client run) cfg peer vid tid op False ?s1 = (q, s2)" by fastforce
    have s2: "waits (steady view ok there st False) op s2" by (rule keepsD [OF streamVolume_keeps s1 v])
    show ?thesis
    proof (cases q)
      case e: (Inl e)
      then show ?thesis using d Inr peer v aborted_over(2) [OF s2] st by (simp add: runPush_def)
    next
      case digest: (Inr digest)
      obtain m w3 where m: "MarkCommitting (daemon_client run) cfg vid (sv_host s2) = (m, w3)" by fastforce
      obtain st' where s3: "waits (steady view ok there st' False) op (s2\<lparr>sv_host := w3\<rparr>)"
        and st': "if is_err m then st' vid \<in> {Some StatePushing, Some StateCommitting} else st' vid = Some StateCommitting"
        using mark_committing_cases [OF s2 st m] by blast
      show ?thesis
        using d Inr peer v digest m st' aborted_over(2) [OF s3] finishPush_over [OF s3] by (cases m) (auto simp: runPush_def)
    qed
  qed
qed

lemma tryResolve_over:
  assumes p: "waits (steady view ok there st l) [] s" and st: "st vid = Some StateCommitting"
    and r: "tryResolve (daemon_client run) cfg dial vid tid target s = (answered, s')"
  shows "if answered then over view ok there vid False [] s' else waits (steady view ok there st l) [] s'"
proof -
  obtain q w where d: "dial target (sv_host s) = (q, w)" by fastforce
  let ?s1 = "s\<lparr>sv_host := w\<rparr>"
  have s1: "waits (steady view ok there st l) [] ?s1" and peer: "\<And>p. q = Inr p \<Longrightarrow> p = peer"
    using dialled_waits [OF p d] by auto
  show ?thesis
  proof (cases q)
    case (Inl e)
    then show ?thesis using r d s1 by (auto simp: tryResolve_def)
  next
    case (Inr p')
    obtain a w2 where v: "p_QueryVolume peer vid w = (a, w2)" by fastforce
    have s2: "waits (steady view ok there st l) [] (s\<lparr>sv_host := w2\<rparr>)" and b: "\<And>b. a = Inr b \<Longrightarrow> b = l"
      using query_cases [OF s1, of a w2] v by auto
    show ?thesis
      using r d Inr peer v s2 b settlePush_over [OF s2 st] by (cases a) (auto simp: tryResolve_def)
  qed
qed

end

section \<open>The resolver\<close>

lemma resolve_invariant:
  assumes "resolveUntilSettled c cfg dial pause vid tid target s = Some s'" and "I s"
    and "\<forall>s a s1. I s \<longrightarrow> tryResolve c cfg dial vid tid target s = (a, s1) \<longrightarrow> (if a then Q s1 else I s1)"
    and "\<forall>s. I s \<longrightarrow> I (snd (pause s))"
  shows "Q s' \<or> I s' \<and> (\<exists>x. fst (pause x))"
proof -
  define P where "P c cfg dial pause vid tid target s s' \<longleftrightarrow>
      (\<forall>s a s1. I s \<longrightarrow> tryResolve c cfg dial vid tid target s = (a, s1) \<longrightarrow> (if a then Q s1 else I s1)) \<longrightarrow>
      (\<forall>s. I s \<longrightarrow> I (snd (pause s))) \<longrightarrow> I s \<longrightarrow> Q s' \<or> I s' \<and> (\<exists>x. fst (pause x))"
    for c cfg dial and pause :: "'a server \<Rightarrow> bool \<times> 'a server" and vid tid target s s'
  have "P c cfg dial pause vid tid target s s'"
  proof (rule resolveUntilSettled.raw_induct [OF _ assms(1), where P = P])
    fix f c cfg dial pause vid tid target s y
    assume IH: "\<And>c cfg dial pause vid tid target s y. f c cfg dial pause vid tid target s = Some y \<Longrightarrow>
        P c cfg dial pause vid tid target s y"
      and body: "(let (settled, s1) = tryResolve c cfg dial vid tid target s in
          if settled then Some s1
          else let (done', s2) = pause s1 in
            if done' then Some s2 else f c cfg dial pause vid tid target s2) = Some y"
    obtain a s1 where t: "tryResolve c cfg dial vid tid target s = (a, s1)" by fastforce
    obtain b s2 where p: "pause s1 = (b, s2)" by fastforce
    have cases: "a \<and> y = s1 \<or> \<not> a \<and> y = s2 \<and> fst (pause s1) \<or> \<not> a \<and> P c cfg dial pause vid tid target s2 y"
      using body t p IH by (auto split: if_splits)
    show "P c cfg dial pause vid tid target s y"
      unfolding P_def
    proof (intro impI)
      assume tries: "\<forall>s a s1. I s \<longrightarrow> tryResolve c cfg dial vid tid target s = (a, s1) \<longrightarrow> (if a then Q s1 else I s1)"
        and waits: "\<forall>s. I s \<longrightarrow> I (snd (pause s))" and "I s"
      then have s1: "if a then Q s1 else I s1" using t by blast
      moreover have "I s2" if "\<not> a" using s1 waits p that by (metis snd_conv)
      ultimately show "Q y \<or> I y \<and> (\<exists>x. fst (pause x))" using cases tries waits unfolding P_def by auto
    qed
  qed
  then show ?thesis using assms(2-4) unfolding P_def by blast
qed

end
