(* ===== verification/TargetNode.thy ===== *)
theory TargetNode
  imports ApiFrames
begin

text \<open>
  The receiving side of one transfer, as its sender sees it: an invariant of the target between the calls
  of a transfer, and what each handler of the transfer plane does to it.
\<close>

section \<open>The invariant\<close>

text \<open>The node has the volume as its own: it is there and not merely incoming.\<close>

definition owns :: "lvview \<Rightarrow> string \<Rightarrow> bool" where
  "owns v vid \<longleftrightarrow> vstate v vid \<notin> {None, Some StateIncoming}"

text \<open>
  While the transfer is live, the volume is incoming and is the one of the transfer; a transfer known as
  committed has left the node with the volume.
\<close>

definition target_ok :: "('w \<Rightarrow> lvview) \<Rightarrow> string \<Rightarrow> string \<Rightarrow> 'w server \<Rightarrow> bool" where
  "target_ok view vid tid s \<longleftrightarrow>
     wf_view (view (sv_host s)) \<and>
     (\<forall>x. the_session (sv_transfers s) tid = Some x \<longrightarrow>
        ses_volumeID x = vid \<and> \<not> ses_terminal x \<and> vstate (view (sv_host s)) vid = Some StateIncoming) \<and>
     (tr_committed (sv_transfers s) tid \<longrightarrow> owns (view (sv_host s)) vid)"

text \<open>Operations on device nodes leave the states of the volumes alone.\<close>

definition io_frame :: "('w \<Rightarrow> lvview) \<Rightarrow> 'w devio \<Rightarrow> bool" where
  "io_frame view io \<longleftrightarrow>
     sync_frame view io \<and>
     (\<forall>st. keeps_reads (\<lambda>w. wf_view (view w) \<and> vstate (view w) = st) io \<and>
        (\<forall>p. keeps (\<lambda>w. wf_view (view w) \<and> vstate (view w) = st) (d_openw io p) \<and>
           (\<forall>off data. keeps (\<lambda>w. wf_view (view w) \<and> vstate (view w) = st) (d_write io p off data))))"

lemma io_frameD:
  assumes "io_frame view io" and "wf_view (view w)"
  shows "d_openw io p w = (r, w') \<Longrightarrow> wf_view (view w') \<and> vstate (view w') = vstate (view w)"
    and "d_write io p off data w = (r, w') \<Longrightarrow> wf_view (view w') \<and> vstate (view w') = vstate (view w)"
  using assms unfolding io_frame_def keeps_def by (metis snd_conv)+

text \<open>The table after a call that neither starts nor commits the transfer.\<close>

definition follows :: "string \<Rightarrow> Transfers \<Rightarrow> Transfers \<Rightarrow> bool" where
  "follows tid t t' \<longleftrightarrow>
     tr_committed t' = tr_committed t \<and>
     (\<forall>x'. the_session t' tid = Some x' \<longrightarrow>
        (\<exists>x. the_session t tid = Some x \<and> ses_volumeID x' = ses_volumeID x \<and> ses_terminal x' = ses_terminal x))"

lemma follows_refl [simp]: "follows tid t t"
  by (simp add: follows_def)

lemma follows_trans: "follows tid t t1 \<Longrightarrow> follows tid t1 t2 \<Longrightarrow> follows tid t t2"
  unfolding follows_def by metis

lemma follows_finish: "follows tid t (finish k t)"
  by (simp add: follows_def)

lemma follows_set:
  "the_session t k = Some x \<Longrightarrow> ses_volumeID x' = ses_volumeID x \<Longrightarrow> ses_terminal x' = ses_terminal x \<Longrightarrow>
    follows tid t (set_session k x' t)"
  by (simp add: follows_def)

lemma target_ok_follows:
  assumes "target_ok view vid tid s" and "follows tid (sv_transfers s) (sv_transfers s')"
    and "wf_view (view (sv_host s'))" and "vstate (view (sv_host s')) = vstate (view (sv_host s))"
  shows "target_ok view vid tid s'" and "owns (view (sv_host s')) vid = owns (view (sv_host s)) vid"
  using assms by (auto simp: target_ok_def follows_def owns_def)

section \<open>Receiving\<close>

lemma attach_follows: "tr_Attach k t = (r, t') \<Longrightarrow> follows tid t t'"
  by (auto simp: tr_Attach_def split: option.splits if_splits intro!: follows_set)

lemma detach_follows: "follows tid t (tr_Detach k t)"
  by (auto simp: tr_Detach_def armGrace_def split: option.splits intro!: follows_set)

lemma write_follows:
  assumes "tr_Write H io k off data (t, w) = Some (r, (t', w'))" and "io_frame view io" and "wf_view (view w)"
  shows "follows tid t t' \<and> wf_view (view w') \<and> vstate (view w') = vstate (view w)"
proof (cases "the_session t k")
  case (Some s)
  show ?thesis
  proof (cases "check_frame s off data")
    case None
    obtain q w1 where o: "(if ses_device s then ret () else
        mapErr (\<lambda>e. Wrap ''opening incoming volume: '' e []) (d_openw io (ses_path s))) w = (q, w1)" by fastforce
    have w1: "wf_view (view w1) \<and> vstate (view w1) = vstate (view w)"
      using o io_frameD(1) [OF assms(2,3)] assms(3) by (auto simp: mapErr_def split: if_splits prod.splits sum.splits)
    obtain q2 w2 where d: "d_write io (ses_path s) off data w1 = (q2, w2)" by fastforce
    have "wf_view (view w2) \<and> vstate (view w2) = vstate (view w)"
      using io_frameD(2) [OF assms(2) conjunct1 [OF w1] d] w1 by simp
    then show ?thesis
      using assms(1) Some None o d w1
      by (auto simp: tr_Write_def Let_def split: sum.splits option.splits intro!: follows_set)
  qed (use assms(1,3) Some in \<open>simp add: tr_Write_def\<close>)
qed (use assms(1,3) in \<open>simp add: tr_Write_def\<close>)

lemma receive_loop_ok:
  assumes "receive_loop H io k msgs s = Some (r, s')" and "io_frame view io" and "target_ok view vid tid s"
  shows "target_ok view vid tid s' \<and> owns (view (sv_host s')) vid = owns (view (sv_host s)) vid"
  using assms
proof (induction H io k msgs s rule: receive_loop.induct)
  case (5 H io k off data msgs s)
  obtain q t w where w: "tr_Write H io k off data (sv_transfers s, sv_host s) = Some (q, (t, w))"
    using tr_Write_total [of H io k off data "sv_transfers s" "sv_host s"] by auto
  let ?s1 = "s\<lparr>sv_transfers := t, sv_host := w\<rparr>"
  have "wf_view (view (sv_host s))" using 5(4) by (simp add: target_ok_def)
  from write_follows [OF w 5(3) this, of tid] target_ok_follows [OF 5(4), of ?s1]
  have s1: "target_ok view vid tid ?s1" "owns (view (sv_host ?s1)) vid = owns (view (sv_host s)) vid" by simp_all
  show ?case
  proof (cases q)
    case (Inl e)
    then show ?thesis using 5(2) w s1 by auto
  next
    case (Inr u)
    then show ?thesis using 5(1-3) w s1 by auto
  qed
qed auto

lemma api_Receive_ok:
  assumes r: "api_Receive H io msgs s = Some (r, s')" and io: "io_frame view io" and ok: "target_ok view vid tid s"
  shows "target_ok view vid tid s' \<and> owns (view (sv_host s')) vid = owns (view (sv_host s)) vid"
proof (cases "\<exists>k rest. msgs = Header k # rest")
  case True
  then obtain k rest where msgs: "msgs = Header k # rest" by blast
  have wf: "wf_view (view (sv_host s))" using ok by (simp add: target_ok_def)
  obtain q t where a: "tr_Attach k (sv_transfers s) = (q, t)" by fastforce
  let ?s1 = "s\<lparr>sv_transfers := t\<rparr>"
  have s1: "target_ok view vid tid ?s1" "owns (view (sv_host ?s1)) vid = owns (view (sv_host s)) vid"
    using target_ok_follows [OF ok, of ?s1] attach_follows [OF a] wf by simp_all
  show ?thesis
  proof (cases q)
    case (Inl e)
    then show ?thesis using r msgs a s1 by (auto simp: api_Receive_def)
  next
    case (Inr u)
    then obtain s2 where l: "receive_loop H io k rest ?s1 = Some (r, s2)"
      and s': "s' = s2\<lparr>sv_transfers := tr_Detach k (sv_transfers s2)\<rparr>"
      using r msgs a by (auto simp: api_Receive_def)
    note s2 = receive_loop_ok [OF l io s1(1)]
    then have "wf_view (view (sv_host s2))" by (simp add: target_ok_def)
    then show ?thesis
      using s2 s1(2) target_ok_follows [OF conjunct1 [OF s2], of s'] detach_follows s' by simp
  qed
next
  case False
  then have "s' = s" using r by (cases msgs) (auto simp: api_Receive_def split: ReceiveRequest.splits)
  then show ?thesis using ok by simp
qed

lemma receive_loop_total: "\<exists>r. receive_loop H io k msgs s = Some r"
proof (induction H io k msgs s rule: receive_loop.induct)
  case (5 H io k off data msgs s)
  obtain q t w where "tr_Write H io k off data (sv_transfers s, sv_host s) = Some (q, (t, w))"
    using tr_Write_total [of H io k off data "sv_transfers s" "sv_host s"] by auto
  then show ?case using 5 by (auto simp: Let_def split: sum.splits simp del: split_paired_Ex)
qed auto

lemma api_Receive_total: "\<exists>r. api_Receive H io msgs s = Some r"
  using receive_loop_total
  by (auto simp: api_Receive_def split: list.splits ReceiveRequest.splits prod.splits sum.splits simp del: split_paired_Ex)

section \<open>Ending a transfer\<close>

context node
begin

text \<open>Ending a live transfer removes its volume, or leaves it incoming.\<close>

lemma destroy_ok:
  assumes "target_ok view vid tid s" and "the_session (sv_transfers s) tid = Some x"
    and "destroy (daemon_client run) cfg tid (set_session tid x' (sv_transfers s), sv_host s) = (t', w')"
    and "ses_volumeID x' = vid" and "\<not> ses_terminal x'"
  shows "target_ok view vid tid (s\<lparr>sv_transfers := t', sv_host := w'\<rparr>)" and "\<not> owns (view w') vid"
proof -
  have h: "wf_view (view (sv_host s))" "vstate (view (sv_host s)) vid = Some StateIncoming" "\<not> tr_committed (sv_transfers s) tid"
    using assms(1,2) by (auto simp: target_ok_def owns_def)
  obtain r where r: "RemoveVolume (daemon_client run) cfg vid (sv_host s) = (r, w')"
    and t': "t' = finish tid (set_session tid x' (sv_transfers s))"
    using assms(3-5) by (auto simp: destroy_def) (metis prod.collapse)
  have "wf_view (view w') \<and> vstate (view w') vid \<in> {None, Some StateIncoming}"
    using RemoveVolume_does r by (rule does_cases) (use h effect_remove in auto)
  then show "target_ok view vid tid (s\<lparr>sv_transfers := t', sv_host := w'\<rparr>)" and "\<not> owns (view w') vid"
    using h(3) by (auto simp: target_ok_def owns_def t')
qed

lemma update_same: "map_of al k = Some v \<Longrightarrow> AList.update k v al = al"
  by (induction al) (auto split: if_splits)

lemma set_session_same: "the_session t tid = Some x \<Longrightarrow> set_session tid x t = t"
  by (simp add: the_session_def set_session_def update_same)

lemma AbortTransfer_ok:
  assumes "target_ok view vid tid s"
  shows "target_ok view vid tid (AbortTransfer (daemon_client run) cfg tid s) \<and>
    owns (view (sv_host (AbortTransfer (daemon_client run) cfg tid s))) vid = owns (view (sv_host s)) vid"
proof (cases "the_session (sv_transfers s) tid")
  case (Some x)
  have x: "ses_volumeID x = vid" "\<not> ses_terminal x" "\<not> owns (view (sv_host s)) vid"
    using assms Some by (auto simp: target_ok_def owns_def)
  obtain t' w' where d: "destroy (daemon_client run) cfg tid (sv_transfers s, sv_host s) = (t', w')" by fastforce
  then show ?thesis
    using destroy_ok [OF assms Some _ x(1,2), unfolded set_session_same [OF Some], OF d] x Some
    by (simp add: AbortTransfer_def Abort_def)
qed (use assms in \<open>simp add: AbortTransfer_def Abort_def\<close>)

lemma land_volume_mismatch:
  assumes "land_volume (daemon_client run) cfg io tid x dev w = (Inl e, w')" and "err_Is e ErrDigestMismatch"
    and "sync_frame view io"
  shows "view w' = view w"
  using assms(1) unfolding land_volume_def
proof (cases rule: seqE_cases)
  case (err e')
  then show ?thesis using assms(3)
    by (auto simp: sync_frame_def mapErr_def split: if_splits prod.splits sum.splits) (metis snd_conv)
next
  case (ok u w1)
  then show ?thesis using assms(2)
    by (auto simp: seqE_def wrap_def mapErr_def split: prod.splits sum.splits)
qed

lemma commit_land_ok:
  assumes l: "commit_land (daemon_client run) cfg io tid x (t, w) = (r, (t', w'))"
    and x: "the_session t tid = Some x" "\<not> ses_terminal x" "ses_volumeID x = vid" and nc: "\<not> tr_committed t tid"
    and wf: "wf_view (view w)" and st: "vstate (view w) vid = Some StateIncoming" and sync: "sync_frame view io"
  shows "the_session t' tid = None \<and> wf_view (view w') \<and> (tr_committed t' tid \<longrightarrow> owns (view w') vid) \<and>
    (case r of Inr _ \<Rightarrow> owns (view w') vid | Inl e \<Rightarrow> err_Is e ErrDigestMismatch \<longrightarrow> \<not> owns (view w') vid)"
proof -
  obtain y where y: "view w vid = Some y" "obj_state y = Some StateIncoming" using st by (auto simp: vstate_Some_iff)
  obtain q w1 where v: "land_volume (daemon_client run) cfg io tid x (ses_device x) w = (q, w1)" by fastforce
  note out = land_volume_outcome [OF v wf sync, unfolded x(3), OF y]
  have w1: "wf_view (view w1)" "vstate (view w1) vid \<in> {Some StateIncoming, Some StateReady}"
    using out active_same [OF y(1) wf] landedD [OF _ wf] st by auto
  show ?thesis
  proof (cases q)
    case (Inr u)
    then have "landed vid tid (view w) (view w1)" using out by simp
    then have "owns (view w1) vid" using landedD(2) [OF _ wf] by (simp add: owns_def)
    then show ?thesis using Inr l v x w1 by (auto simp: commit_land_def Let_def)
  next
    case (Inl e)
    obtain q2 where d: "RemoveVolume (daemon_client run) cfg vid w1 = (q2, w')" and t': "t' = finish tid t" and r: "r = Inl e"
      using Inl l v x by (auto simp: commit_land_def destroy_def Let_def) (metis prod.collapse)
    have w': "wf_view (view w')" "vstate (view w') vid \<in> {None, vstate (view w1) vid}"
      using does_cases [OF RemoveVolume_does d] w1 effect_remove by (metis fun_upd_same insertCI)+
    have "\<not> owns (view w') vid" if "err_Is e ErrDigestMismatch"
      using land_volume_mismatch [OF v [unfolded Inl] that sync] w'(2) st by (auto simp: owns_def)
    then show ?thesis using w' t' r nc by auto
  qed
qed

lemma transferError_mismatch: "st_Code (transferError e message) = DataLoss \<Longrightarrow> err_Is e ErrDigestMismatch"
  by (auto simp: transferError_def status_Error_def split: if_splits)

lemma Commit_ok:
  assumes r: "CommitTransfer H (daemon_client run) cfg io tid digest s = Some (r, s')"
    and io: "io_frame view io" and ok: "target_ok view vid tid s"
  shows "target_ok view vid tid s' \<and> (r = Inr () \<longrightarrow> owns (view (sv_host s')) vid) \<and>
    (\<forall>e. r = Inl e \<and> st_Code e = DataLoss \<longrightarrow> \<not> owns (view (sv_host s')) vid)"
proof -
  let ?t = "sv_transfers s" and ?w = "sv_host s"
  obtain q t' w' where c: "Commit H (daemon_client run) cfg io tid digest (?t, ?w) = Some (q, (t', w'))"
    and s': "s' = s\<lparr>sv_transfers := t', sv_host := w'\<rparr>"
    and q: "r = (case q of Inl e \<Rightarrow> Inl (transferError e ''committing transfer failed'') | Inr _ \<Rightarrow> Inr ())"
    using r by (auto simp: CommitTransfer_def)
  have goal: ?thesis
    if "target_ok view vid tid s'" "\<And>u. q = Inr u \<Longrightarrow> owns (view w') vid"
      "\<And>e. q = Inl e \<Longrightarrow> err_Is e ErrDigestMismatch \<Longrightarrow> \<not> owns (view w') vid"
    using that q s' by (auto split: sum.splits dest: transferError_mismatch)
  show ?thesis
  proof (cases "the_session ?t tid")
    case None
    then show ?thesis
      using c ok s' by (intro goal) (auto simp: Commit_def commit_verify_def target_ok_def sentinel_err_def split: if_splits)
  next
    case (Some x)
    have x: "ses_volumeID x = vid" "\<not> ses_terminal x" "vstate (view ?w) vid = Some StateIncoming"
      "wf_view (view ?w)" "\<not> tr_committed ?t tid"
      using ok Some by (auto simp: target_ok_def owns_def)
    show ?thesis
    proof (cases "ses_streaming x")
      case True
      then show ?thesis using c ok s' Some x
        by (intro goal) (auto simp: Commit_def commit_verify_def target_ok_def sentinel_err_def split: if_splits)
    next
      case False
      then obtain b where z: "zero_fill H (ses_sizeBytes x) (ses_nextOffset x) (ses_sizeBytes x) (ses_digest x) = Some b"
        using c Some x by (auto simp: Commit_def commit_verify_def split: option.splits)
      let ?x = "x\<lparr>ses_digest := snd (Sum H b (ses_sizeBytes x))\<rparr>"
      let ?t1 = "set_session tid ?x ?t"
      show ?thesis
      proof (cases "fst (Sum H b (ses_sizeBytes x)) = digest")
        case True
        then have l: "commit_land (daemon_client run) cfg io tid ?x (?t1, ?w) = (q, (t', w'))"
          using c Some x False z by (simp add: Commit_def commit_verify_def Let_def split_def)
        from commit_land_ok [OF l, of vid] x io
        show ?thesis by (intro goal) (auto simp: target_ok_def s' io_frame_def split: sum.splits)
      next
        case ne: False
        then have "q = Inl (sentinel_err ErrDigestMismatch tid)"
          and d: "destroy (daemon_client run) cfg tid (?t1, ?w) = (t', w')"
          using c Some x False z by (simp_all add: Commit_def commit_verify_def Let_def split_def)
        then show ?thesis using destroy_ok [OF ok Some d] x s' by (intro goal) simp_all
      qed
    qed
  qed
qed

lemma expiry_ok:
  assumes ok: "target_ok view vid tid s" and g: "grace_expired (daemon_client run) cfg tid (sv_transfers s, sv_host s) = (t', w')"
  shows "target_ok view vid tid (s\<lparr>sv_transfers := t', sv_host := w'\<rparr>) \<and> owns (view w') vid = owns (view (sv_host s)) vid"
proof (cases "the_session (sv_transfers s) tid")
  case (Some x)
  have x: "ses_volumeID x = vid" "\<not> ses_terminal x" "\<not> owns (view (sv_host s)) vid"
    using ok Some by (auto simp: target_ok_def owns_def)
  show ?thesis
  proof (cases "ses_grace x")
    case True
    then have d: "destroy (daemon_client run) cfg tid (sv_transfers s, sv_host s) = (t', w')"
      using g Some by (simp add: grace_expired_def)
    then show ?thesis
      using destroy_ok [OF ok Some _ x(1,2), unfolded set_session_same [OF Some], OF d] x by simp
  qed (use g Some ok in \<open>auto simp: grace_expired_def target_ok_def\<close>)
qed (use g ok in \<open>auto simp: grace_expired_def target_ok_def\<close>)

lemma QueryVolume_ok:
  assumes "QueryVolume (daemon_client run) cfg vid s = (r, s')" and "lv_name_ok vid"
  shows "view (sv_host s') = view (sv_host s) \<and> sv_transfers s' = sv_transfers s \<and>
    (\<forall>b. r = Inr b \<longrightarrow> b = owns (view (sv_host s)) vid)"
proof -
  obtain q w where g: "GetVolume (daemon_client run) cfg vid (sv_host s) = (q, w)" by fastforce
  from g assms(2) show ?thesis
  proof (cases rule: GetVolume_cases)
    case (ok x vol)
    then show ?thesis using assms(1) g by (auto simp: QueryVolume_def owns_def vstate_def vol_shows_def)
  next
    case missing
    then show ?thesis using assms(1) g by (auto simp: QueryVolume_def owns_def sentinel_err_def split: if_splits)
  next
    case (fault e)
    then show ?thesis using assms(1) g by (auto simp: QueryVolume_def)
  qed
qed

end

end
