(* ===== verification/PushNetwork.thy ===== *)
theory PushNetwork
  imports PushSafety TargetNode
begin

text \<open>
  Two nodes and the network between them. The source runs the push of \<^verbatim>\<open>internal/api/push.go\<close>, the target the
  handlers of the transfer plane. The network decides about every call: it is delivered, its request
  is lost, or its response is lost; before a call reaches the target, the grace period of the transfer
  may have expired there. The theorems hold for every sequence of such decisions and for every pair of
  hosts that keep the lvm contract.
\<close>

section \<open>Two nodes\<close>

datatype delivery = Delivered | RequestLost | ResponseLost

record ('a, 'b) net =
  n_source :: 'a
  n_target :: "'b server"
  n_stream :: "ReceiveRequest list"
  n_fates :: "(bool \<times> delivery) list"

definition on_source :: "('a, 'e, 'r) go \<Rightarrow> (('a, 'b) net, 'e, 'r) go" where
  "on_source m w = (let (r, a) = m (n_source w) in (r, w\<lparr>n_source := a\<rparr>))"

definition source_run :: "'a runner \<Rightarrow> ('a, 'b) net runner" where
  "source_run run cmd = on_source (run cmd)"

definition source_io :: "'a devio \<Rightarrow> ('a, 'b) net devio" where
  "source_io io =
     \<lparr>d_open = (\<lambda>p. on_source (d_open io p)), d_seek_end = (\<lambda>p. on_source (d_seek_end io p)),
      d_seek_start = (\<lambda>p. on_source (d_seek_start io p)), d_openw = (\<lambda>p. on_source (d_openw io p)),
      d_read = (\<lambda>p off n. on_source (d_read io p off n)), d_write = (\<lambda>p off data. on_source (d_write io p off data)),
      d_sync = (\<lambda>p. on_source (d_sync io p))\<rparr>"

definition unavailable :: Status where
  "unavailable = status_Error Unavailable ''connection lost''"

text \<open>The fate of a call: whether the grace period expires first, and what is lost.\<close>

definition next_fate :: "('a, 'b) net \<Rightarrow> bool \<times> delivery" where
  "next_fate w = (case n_fates w of [] \<Rightarrow> (False, Delivered) | f # _ \<Rightarrow> f)"

definition expire :: "'b Client \<Rightarrow> Config \<Rightarrow> string \<Rightarrow> 'b server \<Rightarrow> 'b server" where
  "expire c cfg tid s =
     (let (t, w) = grace_expired c cfg tid (sv_transfers s, sv_host s) in s\<lparr>sv_transfers := t, sv_host := w\<rparr>)"

definition net_call ::
  "('b server \<Rightarrow> 'b server) \<Rightarrow> ('b server, Status, 'r) go \<Rightarrow> (('a, 'b) net, Status, 'r) go" where
  "net_call tick handler w =
     (let (late, d) = next_fate w; s = (if late then tick (n_target w) else n_target w); (r, s1) = handler s;
          w1 = w\<lparr>n_fates := tl (n_fates w)\<rparr> in
      case d of
        Delivered \<Rightarrow> (r, w1\<lparr>n_target := s1\<rparr>)
      | RequestLost \<Rightarrow> (Inl unavailable, w1\<lparr>n_target := s\<rparr>)
      | ResponseLost \<Rightarrow> (Inl unavailable, w1\<lparr>n_target := s1\<rparr>))"

text \<open>A handler that does not return is never answered.\<close>

definition handled :: "('s \<Rightarrow> ((Status + 'r) \<times> 's) option) \<Rightarrow> ('s, Status, 'r) go" where
  "handled h s = (case h s of None \<Rightarrow> (Inl unavailable, s) | Some x \<Rightarrow> x)"

text \<open>
  What is sent on a stream reaches the target when the stream is closed, or, as a broken stream, when
  another one is opened.
\<close>

definition net_peer ::
  "hash \<Rightarrow> 'b Client \<Rightarrow> Config \<Rightarrow> 'b devio \<Rightarrow> string \<Rightarrow> ('a, 'b) net peer" where
  "net_peer H c cfg io tid =
     (let tick = expire c cfg tid in
      \<lparr>p_QueryTransfer = (\<lambda>k. net_call tick (\<lambda>s. (QueryTransfer k s, s))),
       p_Receive = (\<lambda>w. (Inr (), w\<lparr>n_stream := [],
          n_target := snd (handled (api_Receive H io (n_stream w @ [RecvFailed unavailable])) (n_target w))\<rparr>)),
       p_Send = (\<lambda>msg w. if snd (next_fate w) = RequestLost
          then (Inl (Errorf ''EOF''), w\<lparr>n_fates := tl (n_fates w)\<rparr>)
          else (Inr (), w\<lparr>n_fates := tl (n_fates w), n_stream := n_stream w @ [msg]\<rparr>)),
       p_CloseAndRecv = (\<lambda>w. let (r, w1) = net_call tick (handled (api_Receive H io (n_stream w))) w in (r, w1\<lparr>n_stream := []\<rparr>)),
       p_CommitTransfer = (\<lambda>k digest. net_call tick (handled (CommitTransfer H c cfg io k digest))),
       p_AbortTransfer = (\<lambda>k. net_call tick (\<lambda>s. (Inr (), AbortTransfer c cfg k s))),
       p_QueryVolume = (\<lambda>k. net_call tick (QueryVolume c cfg k))\<rparr>)"

definition net_dial :: "'w peer \<Rightarrow> 'w dial" where
  "net_dial p target w = (Inr p, w)"

section \<open>The link\<close>

lemma on_source_cases: "on_source m w = (r, w') \<Longrightarrow> m (n_source w) = (r, n_source w') \<and> w' = w\<lparr>n_source := n_source w'\<rparr>"
  by (auto simp: on_source_def split: prod.splits)

lemma source_run_cases: "source_run run cmd w = (r, w') \<Longrightarrow> run cmd (n_source w) = (r, n_source w') \<and> w' = w\<lparr>n_source := n_source w'\<rparr>"
  unfolding source_run_def by (rule on_source_cases)

lemma lvm2_source:
  assumes "lvm2 run vg pool view"
  shows "lvm2 (source_run run) vg pool (\<lambda>w. view (n_source w))"
proof
  fix op w out f w' sel r n lvs
  note [dest!] = source_run_cases
  show "source_run run (argv vg pool op) w = (Inr out, w') \<Longrightarrow> lv_effect pool op (view (n_source w)) (view (n_source w'))"
    by (auto dest: lvm2.effect_ok [OF assms])
  show "source_run run (argv vg pool op) w = (Inl f, w') \<Longrightarrow>
      view (n_source w') = view (n_source w) \<or> lv_effect pool op (view (n_source w)) (view (n_source w'))"
    by (auto dest: lvm2.effect_err [OF assms])
  show "source_run run (lvs_argv vg sel) w = (r, w') \<Longrightarrow> view (n_source w') = view (n_source w)"
    by (auto dest: lvm2.report_frame [OF assms])
  show "lv_name_ok n \<Longrightarrow> source_run run (lvs_argv vg (sel_name n)) w = (Inr out, w') \<Longrightarrow> parseLVReport out = Inr lvs \<Longrightarrow>
      reports (\<lambda>m _. m = n) (view (n_source w)) lvs"
    by (auto dest: lvm2.report_name [OF assms])
  show "lv_name_ok pool \<Longrightarrow> source_run run (lvs_argv vg (sel_pool pool)) w = (Inr out, w') \<Longrightarrow> parseLVReport out = Inr lvs \<Longrightarrow>
      reports (\<lambda>_ x. o_pool x = pool) (view (n_source w)) lvs"
    by (auto dest: lvm2.report_pool [OF assms])
qed

lemma node_source: "node run cfg view \<Longrightarrow> node (source_run run) cfg (\<lambda>w. view (n_source w))"
  by (simp add: node_def lvm2_source)

text \<open>What the source keeps an eye on.\<close>

abbreviation src_view :: "('a \<Rightarrow> lvview) \<Rightarrow> ('a, 'b) net \<Rightarrow> lvview" where
  "src_view view w \<equiv> view (n_source w)"

abbreviation tgt_ok :: "('b \<Rightarrow> lvview) \<Rightarrow> string \<Rightarrow> string \<Rightarrow> ('a, 'b) net \<Rightarrow> bool" where
  "tgt_ok tview vid tid w \<equiv> target_ok tview vid tid (n_target w)"

abbreviation tgt_owns :: "('b \<Rightarrow> lvview) \<Rightarrow> string \<Rightarrow> ('a, 'b) net \<Rightarrow> bool" where
  "tgt_owns tview vid w \<equiv> owns (tview (sv_host (n_target w))) vid"

definition harmless :: "('b \<Rightarrow> lvview) \<Rightarrow> string \<Rightarrow> string \<Rightarrow> 'b server \<Rightarrow> 'b server \<Rightarrow> bool" where
  "harmless tview vid tid s s' \<longleftrightarrow>
     (target_ok tview vid tid s \<longrightarrow> target_ok tview vid tid s' \<and> owns (tview (sv_host s')) vid = owns (tview (sv_host s)) vid)"

lemma harmless_refl [simp]: "harmless tview vid tid s s"
  by (simp add: harmless_def)

lemma keeps_net_call:
  assumes "\<And>s. harmless tview vid tid s (tick s)" and "\<And>s. harmless tview vid tid s (snd (handler s))"
  shows "keeps (steady (src_view view) (tgt_ok tview vid tid) (tgt_owns tview vid) st l) (net_call tick handler)"
proof (rule keepsI)
  fix w r w' assume p: "steady (src_view view) (tgt_ok tview vid tid) (tgt_owns tview vid) st l w"
    and c: "net_call tick handler w = (r, w')"
  let ?s = "if fst (next_fate w) then tick (n_target w) else n_target w"
  have "harmless tview vid tid (n_target w) ?s" using assms(1) by simp
  moreover have "n_target w' = ?s \<or> n_target w' = snd (handler ?s)" "n_source w' = n_source w"
    using c by (auto simp: net_call_def split_def Let_def split: delivery.splits)
  ultimately show "steady (src_view view) (tgt_ok tview vid tid) (tgt_owns tview vid) st l w'"
    using p assms(2) [of ?s] by (auto simp: steady_def harmless_def)
qed

lemma keeps_on_source:
  "keeps (\<lambda>w. wf_view (view w) \<and> vstate (view w) = st) m \<Longrightarrow>
    keeps (steady (src_view view) (tgt_ok tview vid tid) (tgt_owns tview vid) st l) (on_source m)"
  by (auto simp: keeps_def steady_def on_source_def split_def Let_def)

lemma keeps_reads_source:
  "io_frame view io \<Longrightarrow>
    keeps_reads (steady (src_view view) (tgt_ok tview vid tid) (tgt_owns tview vid) st l) (source_io io)"
  by (simp add: keeps_reads_def source_io_def io_frame_def keeps_on_source)

context node
begin

lemma expire_harmless: "harmless view vid tid s (expire (daemon_client run) cfg tid s)"
  using expiry_ok [of vid tid s] by (auto simp: harmless_def expire_def split: prod.splits)

lemma receive_harmless: "io_frame view io \<Longrightarrow> harmless view vid tid s (snd (handled (api_Receive H io msgs) s))"
  using api_Receive_total [of H io msgs s] api_Receive_ok [of H io msgs s]
  by (auto simp: harmless_def handled_def split: option.splits)

lemma commit_call:
  assumes "net_call (expire (daemon_client run) cfg tid) (handled (CommitTransfer H (daemon_client run) cfg io tid digest)) w = (r, w')"
    and io: "io_frame view io" and ok: "tgt_ok view vid tid w"
  shows "n_source w' = n_source w \<and> tgt_ok view vid tid w' \<and> (r = Inr () \<longrightarrow> tgt_owns view vid w') \<and>
    (\<forall>e. r = Inl e \<and> st_Code e = DataLoss \<longrightarrow> \<not> tgt_owns view vid w')"
proof -
  let ?s = "if fst (next_fate w) then expire (daemon_client run) cfg tid (n_target w) else n_target w"
  have s: "target_ok view vid tid ?s" using ok expire_harmless [of vid tid "n_target w"] by (simp add: harmless_def)
  obtain q s1 where h: "handled (CommitTransfer H (daemon_client run) cfg io tid digest) ?s = (q, s1)" by fastforce
  have "target_ok view vid tid s1 \<and> (q = Inr () \<longrightarrow> owns (view (sv_host s1)) vid) \<and>
      (\<forall>e. q = Inl e \<and> st_Code e = DataLoss \<longrightarrow> \<not> owns (view (sv_host s1)) vid)"
    using h s Commit_ok [OF _ io s, of H digest q s1]
    by (auto simp: handled_def unavailable_def status_Error_def split: option.splits)
  then show ?thesis
    using assms(1) h s by (auto simp: net_call_def split_def Let_def unavailable_def status_Error_def split: delivery.splits)
qed

lemma query_call:
  assumes "net_call (expire (daemon_client run) cfg tid) (QueryVolume (daemon_client run) cfg vid) w = (Inr b, w')"
    and name: "lv_name_ok vid" and ok: "tgt_ok view vid tid w"
  shows "b = tgt_owns view vid w"
proof -
  let ?s = "if fst (next_fate w) then expire (daemon_client run) cfg tid (n_target w) else n_target w"
  have "owns (view (sv_host ?s)) vid = tgt_owns view vid w"
    using ok expire_harmless [of vid tid "n_target w"] by (simp add: harmless_def)
  moreover obtain s1 where "QueryVolume (daemon_client run) cfg vid ?s = (Inr b, s1)"
    using assms(1) by (auto simp: net_call_def split_def Let_def split: delivery.splits) (metis prod.collapse)+
  ultimately show ?thesis using QueryVolume_ok [OF _ name] by metis
qed

lemma query_harmless: "lv_name_ok vid \<Longrightarrow> harmless view vid tid s (snd (QueryVolume (daemon_client run) cfg vid s))"
  using QueryVolume_ok [OF prod.collapse [symmetric], of vid s] by (auto simp: harmless_def target_ok_def)

end

lemma net_link:
  assumes src: "node run cfg view" and tgt: "node trun tcfg tview"
    and io: "io_frame view io" and tio: "io_frame tview tio" and name: "lv_name_ok vid"
  shows "push_link (source_run run) cfg (src_view view) (tgt_ok tview vid tid) (tgt_owns tview vid)
    (net_peer H (daemon_client trun) tcfg tio tid) (net_dial (net_peer H (daemon_client trun) tcfg tio tid))
    (source_io io) vid tid"
proof -
  note e = node.expire_harmless [OF tgt]
  note [simp] = net_peer_def Let_def
  have rec: "harmless tview vid tid s (snd (handled (api_Receive H tio msgs) s))" for s msgs
    by (rule node.receive_harmless [OF tgt tio])
  show ?thesis
  proof (intro push_link.intro push_link_axioms.intro node_source src name)
    fix st l cmd w out w' target p msg digest r b
    let ?P = "steady (src_view view) (tgt_ok tview vid tid) (tgt_owns tview vid) st l"
      and ?peer = "net_peer H (daemon_client trun) tcfg tio tid"
    show "source_run run cmd w = (out, w') \<Longrightarrow> tgt_ok tview vid tid w' = tgt_ok tview vid tid w \<and>
        tgt_owns tview vid w' = tgt_owns tview vid w"
      by (drule source_run_cases) (metis (no_types, lifting) net.ext_inject net.surjective net.update_convs(1))
    show "keeps_reads ?P (source_io io)" by (rule keeps_reads_source [OF io])
    show "keeps ?P (net_dial ?peer target)" by (simp add: net_dial_def keeps_def)
    show "net_dial ?peer target w = (Inr p, w') \<Longrightarrow> p = ?peer" by (simp add: net_dial_def)
    show "keeps ?P (p_QueryTransfer ?peer tid)" by (simp add: keeps_net_call [OF e])
    show "keeps ?P (p_Receive ?peer)" using rec by (auto simp: keeps_def steady_def harmless_def)
    show "keeps ?P (p_Send ?peer msg)" by (auto simp: keeps_def steady_def)
    show "keeps ?P (p_CloseAndRecv ?peer)"
    proof (rule keepsI)
      fix w r w' assume p: "?P w" and c: "p_CloseAndRecv ?peer w = (r, w')"
      have "?P (snd (net_call (expire (daemon_client trun) tcfg tid) (handled (api_Receive H tio (n_stream w))) w))"
        by (rule keepsD [OF keeps_net_call [OF e rec] p prod.collapse [symmetric]])
      then show "?P w'" using c by (auto simp: steady_def split_def)
    qed
    show "keeps ?P (p_AbortTransfer ?peer tid)"
      using node.AbortTransfer_ok [OF tgt] by (simp add: keeps_net_call [OF e] harmless_def)
    show "keeps ?P (p_QueryVolume ?peer vid)"
      using node.query_harmless [OF tgt name] by (simp add: keeps_net_call [OF e])
    show "p_QueryVolume ?peer vid w = (Inr b, w') \<Longrightarrow> tgt_ok tview vid tid w \<Longrightarrow> b = tgt_owns tview vid w"
      using node.query_call [OF tgt _ name] by simp
    show "p_CommitTransfer ?peer tid digest w = (r, w') \<Longrightarrow> tgt_ok tview vid tid w \<Longrightarrow>
        src_view view w' = src_view view w \<and> tgt_ok tview vid tid w' \<and> (r = Inr () \<longrightarrow> tgt_owns tview vid w') \<and>
        (\<forall>e. r = Inl e \<and> st_Code e = DataLoss \<longrightarrow> \<not> tgt_owns tview vid w')"
      using node.commit_call [OF tgt _ tio, of tid H digest w r w' vid] by auto
  qed
qed

section \<open>Theorems\<close>

text \<open>
  C4. A push leaves at most one node with the volume. Whatever lvm commands fail on either side, whatever
  requests and responses are lost, and whether or not the transfer expires on the target, as long as a
  call that reaches the target runs to its end before the source goes on: when the job is over, a source that is ready again has the volume alone, a retired source has handed it over to a
  target that holds it, and otherwise the source is still marked as pushing (the target has nothing)
  or committing (not decided). The operation is reported done only for a source that is retired.
\<close>

theorem push_single_copy:
  assumes "node run cfg view" and "node trun tcfg tview" and "io_frame view io" and "io_frame tview tio" and "lv_name_ok vid"
    and "sv_host s = w" and "wf_view (view (n_source w))" and "vstate (view (n_source w)) vid = Some StatePushing"
    and "target_ok tview vid tid (n_target w)" and "\<not> owns (tview (sv_host (n_target w))) vid" and "\<not> is_done (sv_ops s) op"
    and "s' = runPush H (source_io io) cancelled (daemon_client (source_run run)) cfg
      (net_dial (net_peer H (daemon_client trun) tcfg tio tid)) vid tid target op s"
    and "source = vstate (view (n_source (sv_host s'))) vid" and "handed_over = owns (tview (sv_host (n_target (sv_host s')))) vid"
  shows "source \<in> {Some StateReady, Some StatePushing, Some StateCommitting, Some StateRetired} \<and>
    (source \<in> {Some StateReady, Some StatePushing} \<longrightarrow> \<not> handed_over) \<and> (source = Some StateRetired \<longrightarrow> handed_over) \<and>
    (is_done (sv_ops s') op \<longrightarrow> source = Some StateRetired)"
proof -
  have "waits (steady (src_view view) (tgt_ok tview vid tid) (tgt_owns tview vid) (vstate (view (n_source w))) False) op s"
    using assms(6,7,9-11) by (simp add: waits_def steady_def)
  from push_link.runPush_over [OF net_link [OF assms(1-5)] this assms(8)]
  have "over (src_view view) (tgt_ok tview vid tid) (tgt_owns tview vid) vid True op s'" unfolding assms(12) .
  then show ?thesis unfolding assms(13,14)
    by (auto simp: over_def one_copy_def split: option.splits State.splits)
qed

definition demo_source :: "State \<Rightarrow> refhost" where
  "demo_source st = [(''n'', demo_lv [StateTag st, transferTagPrefix @ ''t'', targetTagPrefix @ ''n2:7411''] [] False)]"

definition demo_net :: "State \<Rightarrow> 'b server \<Rightarrow> (bool \<times> delivery) list \<Rightarrow> (refhost, 'b) net" where
  "demo_net st target fates = \<lparr>n_source = demo_source st, n_target = target, n_stream = [], n_fates = fates\<rparr>"

lemma still_frame: "io_frame view still_io"
  by (simp add: io_frame_def sync_frame_def keeps_reads_def still_io_def keeps_def)

interpretation demo_link: push_link "source_run demo_run" demo_cfg "src_view map_of" "tgt_ok map_of ''n'' ''t''"
  "tgt_owns map_of ''n''" "net_peer (\<lambda>x. x) demo_client demo_cfg still_io ''t''"
  "net_dial (net_peer (\<lambda>x. x) demo_client demo_cfg still_io ''t'')" "source_io still_io" "''n''" "''t''"
  by (rule net_link [OF demo_node demo_node still_frame still_frame demo_names(9)])

lemma demo_source_states:
  "vstate (map_of (demo_source StatePushing)) ''n'' = Some StatePushing"
  "vstate (map_of (demo_source StateCommitting)) ''n'' = Some StateCommitting"
  by (simp_all add: demo_source_def demo_lv_def vstate_def obj_state_def knownStates_def knownState_def)

lemma demo_source_wf: "wf_view (map_of (demo_source st))"
  by (rule wf_view_map_of) (simp add: demo_source_def demo_lv_def one_state_def state_tag_def tag_evals)

lemmas demo_source_facts = demo_source_states demo_source_wf

lemma demo_target_ok: "target_ok map_of ''n'' ''t'' (demo_server demo_incoming received_demo)"
  "\<not> owns (map_of demo_incoming) ''n''"
proof -
  have n: "map_of demo_incoming ''n'' = Some (demo_lv [StateTag StateIncoming, transferTagPrefix @ ''t''] [] True)"
    by (simp add: demo_incoming_def AList.update_conv')
  have st: "vstate (map_of demo_incoming) ''n'' = Some StateIncoming"
    using n by (simp add: vstate_def obj_state_def demo_lv_def knownState_def knownStates_def)
  have "wf_view (map_of demo_incoming)"
    by (rule wf_view_map_of) (simp add: demo_incoming_def demo_host_def demo_lv_def one_state_def state_tag_def tag_evals)
  then show "target_ok map_of ''n'' ''t'' (demo_server demo_incoming received_demo)"
    using st by (simp add: target_ok_def demo_server_def received_demo_def new_session_def NewTransfers_def)
  show "\<not> owns (map_of demo_incoming) ''n''" using st by (simp add: owns_def)
qed

theorem push_single_copy_witness:
  "let s' = runPush (\<lambda>x. x) (source_io still_io) (\<lambda>_. None) (daemon_client (source_run demo_run)) demo_cfg
       (net_dial (net_peer (\<lambda>x. x) demo_client demo_cfg still_io ''t'')) ''n'' ''t'' ''n2:7411'' ''op''
       (demo_server (demo_net StatePushing (demo_server demo_incoming received_demo)
          [(False, RequestLost), (True, Delivered), (False, ResponseLost)]) NewTransfers) in
   (vstate (map_of (n_source (sv_host s'))) ''n'', owns (map_of (sv_host (n_target (sv_host s')))) ''n'')
     \<notin> {(Some StateReady, True), (Some StatePushing, True), (Some StateRetired, False)}"
proof -
  let ?w = "demo_net StatePushing (demo_server demo_incoming received_demo)
    [(False, RequestLost), (True, Delivered), (False, ResponseLost)]"
  have "wf_view (map_of (n_source ?w))" "vstate (map_of (n_source ?w)) ''n'' = Some StatePushing"
    "target_ok map_of ''n'' ''t'' (n_target ?w)" "\<not> owns (map_of (sv_host (n_target ?w))) ''n''"
    using demo_source_facts demo_target_ok by (simp_all add: demo_net_def knownStates_def demo_server_def)
  from push_single_copy [OF demo_node demo_node still_frame still_frame demo_names(9) _ this _ refl refl refl,
      of "demo_server ?w NewTransfers" "''op''" "\<lambda>x. x" "\<lambda>_. None" "''n2:7411''"]
  show ?thesis by (auto simp: Let_def demo_server_def is_done_def ops_Get_def)
qed

section \<open>The resolver\<close>

text \<open>A call of the source's client library on the two nodes is that call on the source.\<close>

definition lifts :: "('a, 'e, 'r) go \<Rightarrow> (('a, 'b) net, 'e, 'r) go \<Rightarrow> bool" where
  "lifts m m' \<longleftrightarrow> (\<forall>w. m' w = on_source m w)"

named_theorems lift_intros "calls of the source on the two nodes"

lemma lift_calls [lift_intros]:
  "lifts (ret a) (ret a)" "lifts (fail e) (fail e)"
  "lifts k k' \<Longrightarrow> lifts (mapErr g k) (mapErr g k')" "lifts q q' \<Longrightarrow> lifts (wrap what q) (wrap what q')"
  "lifts m m' \<Longrightarrow> (\<And>a. lifts (f a) (f' a)) \<Longrightarrow> lifts (seqE m f) (seqE m' f')"
  "(c \<Longrightarrow> lifts m m') \<Longrightarrow> (\<not> c \<Longrightarrow> lifts n n') \<Longrightarrow> lifts (if c then m else n) (if c then m' else n')"
  by (auto simp: lifts_def on_source_def mapErr_def wrap_def seqE_def split: prod.splits sum.splits)

lemma lift_list [lift_intros]:
  "lifts n n' \<Longrightarrow> (\<And>x xs. lifts (c x xs) (c' x xs)) \<Longrightarrow>
    lifts (case l of [] \<Rightarrow> n | x # xs \<Rightarrow> c x xs) (case l of [] \<Rightarrow> n' | x # xs \<Rightarrow> c' x xs)"
  by (cases l) simp_all

lemma lift_commands:
  "lifts (run_unit (daemon_client run) what cmd) (run_unit (daemon_client (source_run run)) what cmd)"
  "lifts (run_output (daemon_client run) what cmd) (run_output (daemon_client (source_run run)) what cmd)"
proof -
  have "lifts (client_run (daemon_client run) cmd) (client_run (daemon_client (source_run run)) cmd)"
    by (auto simp: lifts_def client_run_def source_run_def on_source_def split: prod.splits sum.splits run_failure.splits)
  then show "lifts (run_unit (daemon_client run) what cmd) (run_unit (daemon_client (source_run run)) what cmd)"
    "lifts (run_output (daemon_client run) what cmd) (run_output (daemon_client (source_run run)) what cmd)"
    unfolding run_unit_def run_output_def by (intro lift_intros; assumption?)+
qed

lemma lift_verbs:
  assumes "cfg_VolumeGroup cfg \<noteq> []"
  shows "lifts (AbortPush (daemon_client run) cfg vid) (AbortPush (daemon_client (source_run run)) cfg vid)"
    and "lifts (RetirePushed (daemon_client run) cfg vid) (RetirePushed (daemon_client (source_run run)) cfg vid)"
proof -
  have change: "lifts (ChangeLogicalVolume (daemon_client run) (lv_target cfg n) (retag_opts adds dels skip))
      (ChangeLogicalVolume (daemon_client (source_run run)) (lv_target cfg n) (retag_opts adds dels skip))" if "adds @ dels \<noteq> []" for n adds dels skip
    unfolding lv_target_def retag_command [where pool = "[]", OF that] by (rule lift_commands)
  have off: "lifts (DeactivateLogicalVolume (daemon_client run) (lv_target cfg n) no_common)
      (DeactivateLogicalVolume (daemon_client (source_run run)) (lv_target cfg n) no_common)" for n
    unfolding lv_target_def deactivate_command [where pool = "[]"] by (rule lift_commands)
  have "lifts (\<lambda>w. (parseLVReport out, w)) (\<lambda>w. (parseLVReport out, w))" for out
    by (simp add: lifts_def on_source_def)
  then have list: "lifts (ListLogicalVolumes (daemon_client run) (list_opts (cfg_VolumeGroup cfg) (sel_name n)))
      (ListLogicalVolumes (daemon_client (source_run run)) (list_opts (cfg_VolumeGroup cfg) (sel_name n)))" for n
    unfolding list_command [OF sel_nonempty(1) assms] by (intro lift_intros lift_commands)
  have look: "lifts (GetVolume (daemon_client run) cfg n) (GetVolume (daemon_client (source_run run)) cfg n)" for n
    unfolding GetVolume_def by (intro lift_intros list)
  show "lifts (AbortPush (daemon_client run) cfg vid) (AbortPush (daemon_client (source_run run)) cfg vid)"
    "lifts (RetirePushed (daemon_client run) cfg vid) (RetirePushed (daemon_client (source_run run)) cfg vid)"
    unfolding AbortPush_def RetirePushed_def deactivatePushed_def by (intro lift_intros look off change; simp)+
qed

text \<open>The call that settles a push on the source.\<close>

definition settle_call :: "bool \<Rightarrow> 'a Client \<Rightarrow> Config \<Rightarrow> string \<Rightarrow> ('a, err, unit) go" where
  "settle_call committed c cfg vid = (if committed then RetirePushed c cfg vid else AbortPush c cfg vid)"

lemma net_call_source: "n_source (snd (net_call tick handler w)) = n_source w"
  by (simp add: net_call_def split_def Let_def split: delivery.split)

lemma settlePush_source:
  assumes "cfg_VolumeGroup cfg \<noteq> []"
  shows "n_source (sv_host (settlePush (daemon_client (source_run run)) cfg (net_peer H tc tcfg tio tid) b vid tid op e s)) =
    snd (settle_call b (daemon_client run) cfg vid (n_source (sv_host s)))"
proof -
  have host: "n_source (snd (m' w)) = snd (m (n_source w))" if "lifts m m'" for m :: "('a, err, unit) go" and m' and w :: "('a, 'b) net"
    using that by (simp add: lifts_def on_source_def split_def Let_def)
  have "n_source (sv_host (abortTransfer (net_peer H tc tcfg tio tid) tid s)) = n_source (sv_host s)"
    by (simp add: abortTransfer_def net_peer_def Let_def net_call_source)
  then show ?thesis
    using host [OF lift_verbs(1) [OF assms]] host [OF lift_verbs(2) [OF assms]]
    by (simp add: settlePush_def settle_call_def failPush_def retirePushed_def ops_fail_def ops_finish_def split_def split: sum.split)
qed

text \<open>A set of states of the target in which it answers for the volume, closed under what happens to it meanwhile.\<close>

definition answering :: "('b server \<Rightarrow> 'b server) \<Rightarrow> ('b server, Status, bool) go \<Rightarrow> 'b server set \<Rightarrow> bool" where
  "answering tick query T \<longleftrightarrow> (\<forall>s \<in> T. tick s \<in> T \<and> snd (query s) \<in> T \<and> \<not> is_err (fst (query s)))"

text \<open>The resolver asks until a call gets through: every lost call uses up one decision of the network.\<close>

lemma tryResolve_cases:
  assumes t: "tryResolve (daemon_client (source_run run)) cfg (net_dial (net_peer H tc tcfg tio tid)) vid tid target s = (answered, s')"
    and vg: "cfg_VolumeGroup cfg \<noteq> []" and T: "answering (expire tc tcfg tid) (QueryVolume tc tcfg vid) T" "n_target (sv_host s) \<in> T"
  obtains (settled) b where "answered"
      "n_source (sv_host s') = snd (settle_call b (daemon_client run) cfg vid (n_source (sv_host s)))"
      "fst (net_call (expire tc tcfg tid) (QueryVolume tc tcfg vid) (sv_host s)) = Inr b"
  | (lost) "\<not> answered" "n_source (sv_host s') = n_source (sv_host s)" "n_target (sv_host s') \<in> T"
      "length (n_fates (sv_host s')) < length (n_fates (sv_host s))"
proof -
  let ?call = "net_call (expire tc tcfg tid) (QueryVolume tc tcfg vid) (sv_host s)"
  let ?s = "if fst (next_fate (sv_host s)) then expire tc tcfg tid (n_target (sv_host s)) else n_target (sv_host s)"
  have s: "?s \<in> T" "snd (QueryVolume tc tcfg vid ?s) \<in> T" "\<not> is_err (fst (QueryVolume tc tcfg vid ?s))"
    using T by (auto simp: answering_def)
  show ?thesis
  proof (cases "fst ?call")
    case (Inr b)
    then have "answered" "s' = settlePush (daemon_client (source_run run)) cfg (net_peer H tc tcfg tio tid) b vid tid []
        (Some errNeverCommitted) (s\<lparr>sv_host := snd ?call\<rparr>)"
      using t by (auto simp: tryResolve_def net_dial_def net_peer_def Let_def on_host_def split_def split: sum.splits)
    moreover from this have "n_source (sv_host s') = snd (settle_call b (daemon_client run) cfg vid (n_source (snd ?call)))"
      using settlePush_source [OF vg, where s = "s\<lparr>sv_host := snd ?call\<rparr>"] by simp
    ultimately show ?thesis using Inr by (intro settled [of b]) (simp_all add: net_call_source)
  next
    case (Inl e)
    then have a: "\<not> answered" "s' = s\<lparr>sv_host := snd ?call\<rparr>"
      using t by (auto simp: tryResolve_def net_dial_def net_peer_def Let_def on_host_def split_def split: sum.splits)
    moreover have "n_target (snd ?call) \<in> T"
      using s(1,2) by (auto simp: net_call_def split_def Let_def split: delivery.split)
    moreover have "n_fates (sv_host s) \<noteq> [] \<and> n_fates (snd ?call) = tl (n_fates (sv_host s))"
      using Inl s(3) by (auto simp: net_call_def split_def Let_def next_fate_def split: delivery.splits list.splits)
    ultimately show ?thesis by (intro lost) (auto simp: net_call_source)
  qed
qed

lemma resolver_ends:
  assumes vg: "cfg_VolumeGroup cfg \<noteq> []" and T: "answering (expire tc tcfg tid) (QueryVolume tc tcfg vid) T"
    and pause: "\<And>s. sv_host (snd (pause s)) = sv_host s" and "n_target (sv_host s) \<in> T"
  shows "\<exists>s'. resolveUntilSettled (daemon_client (source_run run)) cfg (net_dial (net_peer H tc tcfg tio tid)) pause vid tid target s = Some s'"
  using assms(4)
proof (induction "length (n_fates (sv_host s))" arbitrary: s rule: less_induct)
  case less
  let ?dial = "net_dial (net_peer H tc tcfg tio tid)"
  obtain a s1 where t: "tryResolve (daemon_client (source_run run)) cfg ?dial vid tid target s = (a, s1)" by fastforce
  show ?case
  proof (cases a)
    case True
    then show ?thesis using t by (subst resolveUntilSettled.simps) simp
  next
    case False
    have "length (n_fates (sv_host (snd (pause s1)))) < length (n_fates (sv_host s))" "n_target (sv_host (snd (pause s1))) \<in> T"
      by (rule tryResolve_cases [OF t vg T less(2)]; use False pause in simp)+
    from less(1) [OF this] show ?thesis using t False by (subst resolveUntilSettled.simps) (auto simp: split_def Let_def)
  qed
qed

text \<open>A settling call that succeeds decides the push.\<close>

context node
begin

lemma settle_decides:
  assumes "settle_call b (daemon_client run) cfg vid w = (Inr (), w')" and "wf_view (view w)" and "lv_name_ok vid"
  shows "vstate (view w') vid = Some (if b then StateRetired else StateReady)"
proof (cases b)
  case True
  then show ?thesis
    using RetirePushed_outcome [OF _ assms(2,3)] assms(1) settledD(2) [OF _ assms(2)] by (fastforce simp: settle_call_def)
next
  case False
  then show ?thesis
    using AbortPush_outcome [OF _ assms(2,3)] assms(1) settledD(2) [OF _ assms(2)] by (fastforce simp: settle_call_def)
qed

end

text \<open>
  C10. After a restart a committing volume is resolved. The network may lose any finite number of calls, the transfer
  may expire on the target meanwhile, and local lvm commands on the source may fail; the target answers lookups of the volume in
  the states it goes through, and the waits between the attempts leave both nodes alone. Then the resolver ends. Unless
  it was stopped while it waited, it has made one settling call on the source, which retires the volume where the
  target holds it and gives it back otherwise. Where that call succeeded, a ready source has the volume alone and
  a retired source has handed it over; the source is still committing only where the call failed.
\<close>

theorem resolver_settles:
  assumes "node run cfg view" and "node trun tcfg tview" and "io_frame view io" and "io_frame tview tio" and "lv_name_ok vid"
    and "sv_host s = w" and "wf_view (view (n_source w))" and "vstate (view (n_source w)) vid = Some StateCommitting"
    and "target_ok tview vid tid (n_target w)" and "\<not> is_done (sv_ops s) []"
    and "answering (expire (daemon_client trun) tcfg tid) (QueryVolume (daemon_client trun) tcfg vid) T" and "n_target w \<in> T"
    and "\<forall>s. sv_host (snd (pause s)) = sv_host s \<and> sv_ops (snd (pause s)) = sv_ops s"
    and "settle = settle_call (owns (tview (sv_host (n_target w))) vid) (daemon_client run) cfg vid (n_source w)"
  shows "\<exists>s'. resolveUntilSettled (daemon_client (source_run run)) cfg (net_dial (net_peer H (daemon_client trun) tcfg tio tid))
        pause vid tid target s = Some s' \<and>
    (let source = vstate (view (n_source (sv_host s'))) vid; handed_over = owns (tview (sv_host (n_target (sv_host s')))) vid in
     n_source (sv_host s') = snd settle \<and>
       (source = Some StateReady \<and> \<not> handed_over \<or> source = Some StateRetired \<and> handed_over \<or>
        source = Some StateCommitting \<and> is_err (fst settle)) \<or>
     source = Some StateCommitting \<and> (\<exists>x. fst (pause x)))"
proof -
  let ?l = "tgt_owns tview vid w" and ?st = "vstate (view (n_source w))" and ?c = "daemon_client (source_run run)"
    and ?peer = "net_peer H (daemon_client trun) tcfg tio tid"
  let ?P = "steady (src_view view) (tgt_ok tview vid tid) (tgt_owns tview vid) ?st ?l"
  have vg: "cfg_VolumeGroup cfg \<noteq> []" using assms(1) by (rule node.vg_set)
  obtain s' where r: "resolveUntilSettled ?c cfg (net_dial ?peer) pause vid tid target s = Some s'"
    using resolver_ends [OF vg assms(11), of pause s] assms(6,12,13) by blast
  define I where "I s \<longleftrightarrow> waits ?P [] s \<and> n_source (sv_host s) = n_source w \<and> n_target (sv_host s) \<in> T" for s :: "('a, 'b) net server"
  define Q where "Q s' \<longleftrightarrow> over (src_view view) (tgt_ok tview vid tid) (tgt_owns tview vid) vid False [] s' \<and>
      n_source (sv_host s') = snd settle" for s'
  have attempt: "if a then Q s1 else I s1" if "I s0" "tryResolve ?c cfg (net_dial ?peer) vid tid target s0 = (a, s1)" for s0 a s1
  proof -
    have s0: "waits ?P [] s0" "n_source (sv_host s0) = n_source w" "n_target (sv_host s0) \<in> T" using that(1) by (simp_all add: I_def)
    note over = push_link.tryResolve_over [OF net_link [OF assms(1-5), where tid = tid and H = H] s0(1) assms(8) that(2)]
    from that(2) vg assms(11) s0(3) show ?thesis
    proof (cases rule: tryResolve_cases)
      case (settled b)
      have "net_call (expire (daemon_client trun) tcfg tid) (QueryVolume (daemon_client trun) tcfg vid) (sv_host s0) =
          (Inr b, snd (net_call (expire (daemon_client trun) tcfg tid) (QueryVolume (daemon_client trun) tcfg vid) (sv_host s0)))"
        using settled(3) by (simp add: prod_eq_iff)
      from node.query_call [OF assms(2) this assms(5)] s0(1) have "b = ?l" by (simp add: waits_def steady_def)
      then show ?thesis using settled over s0(2) assms(14) by (simp add: Q_def)
    next
      case lost
      then show ?thesis using over s0(2) by (simp add: I_def)
    qed
  qed
  have "Q s' \<or> I s' \<and> (\<exists>x. fst (pause x))"
  proof (rule resolve_invariant [OF r])
    show "I s" using assms(6,7,9,10,12) by (simp add: I_def waits_def steady_def)
    show "\<forall>s. I s \<longrightarrow> I (snd (pause s))" using assms(13) by (simp add: I_def waits_def)
  qed (use attempt in blast)
  moreover have "vstate (view (snd settle)) vid \<noteq> Some StateCommitting" if "\<not> is_err (fst settle)"
  proof -
    have "settle = (Inr (), snd settle)" using that by (auto simp: not_is_err_iff prod_eq_iff)
    from node.settle_decides [OF assms(1) this [unfolded assms(14)] assms(7,5)] show ?thesis by (simp add: assms(14))
  qed
  ultimately show ?thesis using r assms(8)
    by (auto simp: Q_def I_def over_def one_copy_def waits_def steady_def Let_def split: option.splits State.splits)
qed

text \<open>Both nodes on the reference implementation: the target waits for a commit that never came, and may give up meanwhile.\<close>

lemma demo_incoming_n: "map_of demo_incoming ''n'' = Some (demo_lv [StateTag StateIncoming, transferTagPrefix @ ''t''] [] True)"
  by (simp add: demo_incoming_def AList.update_conv')

lemma demo_GetVolume_none:
  assumes "printable ''vg0'' w" and "map_of w n = None"
  shows "GetVolume demo_client demo_cfg n w = (Inl (sentinel_err ErrNotFound n), w)"
proof -
  have "filter (selected (sel_name n)) w = []" using assms(2) by (auto simp: filter_empty_conv map_of_eq_None_iff image_iff)
  then have "ListLogicalVolumes demo_client (list_opts (cfg_VolumeGroup demo_cfg) (sel_name n)) w = (Inr [], w)"
    using ref_list [OF assms(1), of "sel_name n" "''thin''"] by (simp add: demo_cfg_def)
  then show ?thesis by (simp add: GetVolume_def wrap_def seqE_def mapErr_def)
qed

lemma demo_given_up: "RemoveVolume demo_client demo_cfg ''n'' demo_incoming = (Inr (), demo_host)"
proof -
  have "exec ''thin'' (OpRemove ''n'') demo_incoming = Some demo_host"
    by (simp add: demo_incoming_def demo_host_def demo_lv_def reorigin_def)
  then show ?thesis by (simp add: RemoveVolume_def wrap_def mapErr_def demo_commands)
qed

lemma demo_source_printable: "printable ''vg0'' (demo_source StateCommitting)" "printable ''vg0'' demo_incoming"
  by (simp_all add: printable_def demo_source_def demo_incoming_def demo_host_def demo_lv_def tag_evals plain_raw_def raw_values_def
      raw_of_lv_def obj_lv_def plain_char_def list_item_def FormatUint_def digits_of.simps)

lemma demo_AbortPush: "fst (AbortPush demo_client demo_cfg ''n'' (demo_source StateCommitting)) = Inr ()"
proof -
  have "map_of (demo_source StateCommitting) ''n'' =
      Some (demo_lv [StateTag StateCommitting, transferTagPrefix @ ''t'', targetTagPrefix @ ''n2:7411''] [] False)"
    by (simp add: demo_source_def)
  then have "GetVolume demo_client demo_cfg ''n'' (demo_source StateCommitting) =
      (Inr (volumeFromLV (obj_lv ''vg0'' (''n'', demo_lv [StateTag StateCommitting, transferTagPrefix @ ''t'',
        targetTagPrefix @ ''n2:7411''] [] False))), demo_source StateCommitting)"
    by (rule demo_GetVolume [OF demo_source_printable(1)]) (simp add: obj_state_def demo_lv_def)
  then show ?thesis
    by (simp add: AbortPush_def deactivatePushed_def wrap_def mapErr_def seqE_def demo_commands volumeFromLV_def
        obj_lv_def demo_lv_def Let_def knownState_def knownStates_def demo_source_def AList.update_conv')
qed

lemma demo_aborted: "vstate (map_of (snd (AbortPush demo_client demo_cfg ''n'' (demo_source StateCommitting)))) ''n'' = Some StateReady"
proof -
  let ?st = "AbortPush demo_client demo_cfg ''n'' (demo_source StateCommitting)"
  have "\<exists>s. settled ''n'' StateReady s (map_of (demo_source StateCommitting)) (map_of (snd ?st))"
    using demo.AbortPush_outcome [OF prod.collapse [symmetric] demo_source_wf demo_names(9), of StateCommitting] demo_AbortPush
    by auto
  then show ?thesis using settledD(2) [OF _ demo_source_wf] by fastforce
qed

lemma demo_QueryVolume: "QueryVolume demo_client demo_cfg ''n'' (demo_server demo_incoming t) = (Inr False, demo_server demo_incoming t)"
proof -
  have "GetVolume demo_client demo_cfg ''n'' demo_incoming =
      (Inr (volumeFromLV (obj_lv ''vg0'' (''n'', demo_lv [StateTag StateIncoming, transferTagPrefix @ ''t''] [] True))), demo_incoming)"
    by (rule demo_GetVolume [OF demo_source_printable(2) demo_incoming_n]) (simp add: obj_state_def demo_lv_def)
  then show ?thesis
    by (simp add: QueryVolume_def demo_server_def volumeFromLV_def obj_lv_def demo_lv_def Let_def knownState_def knownStates_def)
qed

lemma demo_answering:
  "answering (expire demo_client demo_cfg ''t'') (QueryVolume demo_client demo_cfg ''n'')
    {demo_server demo_incoming received_demo, demo_server demo_host (finish ''t'' received_demo)}"
proof -
  have "expire demo_client demo_cfg ''t'' (demo_server demo_incoming received_demo) = demo_server demo_host (finish ''t'' received_demo)"
    using demo_given_up by (simp add: expire_def grace_expired_def destroy_def demo_server_def received_demo_def new_session_def)
  moreover have "expire demo_client demo_cfg ''t'' (demo_server demo_host (finish ''t'' received_demo)) =
      demo_server demo_host (finish ''t'' received_demo)"
    by (simp add: expire_def grace_expired_def demo_server_def)
  moreover have "GetVolume demo_client demo_cfg ''n'' demo_host = (Inl (sentinel_err ErrNotFound ''n''), demo_host)"
    by (rule demo_GetVolume_none [OF demo_printable]) (simp add: demo_host_def)
  then have "QueryVolume demo_client demo_cfg ''n'' (demo_server demo_host t) = (Inr False, demo_server demo_host t)" for t
    by (simp add: QueryVolume_def demo_server_def sentinel_err_def)
  ultimately show ?thesis by (simp add: answering_def demo_QueryVolume)
qed

theorem resolver_settles_witness:
  "\<exists>s'. resolveUntilSettled (daemon_client (source_run demo_run)) demo_cfg
      (net_dial (net_peer (\<lambda>x. x) demo_client demo_cfg still_io ''t'')) (Pair False) ''n'' ''t'' ''n2:7411''
      (demo_server (demo_net StateCommitting (demo_server demo_incoming received_demo)
        [(False, RequestLost), (False, ResponseLost), (True, RequestLost)]) NewTransfers) = Some s' \<and>
    vstate (map_of (n_source (sv_host s'))) ''n'' = Some StateReady \<and>
    \<not> owns (map_of (sv_host (n_target (sv_host s')))) ''n''"
proof -
  let ?w = "demo_net StateCommitting (demo_server demo_incoming received_demo)
    [(False, RequestLost), (False, ResponseLost), (True, RequestLost)]"
  let ?T = "{demo_server demo_incoming received_demo, demo_server demo_host (finish ''t'' received_demo)}"
  have h: "wf_view (map_of (n_source ?w))" "vstate (map_of (n_source ?w)) ''n'' = Some StateCommitting"
    "target_ok map_of ''n'' ''t'' (n_target ?w)" "\<not> is_done (sv_ops (demo_server ?w NewTransfers)) []" "n_target ?w \<in> ?T"
    using demo_source_facts demo_target_ok(1)
    by (simp_all add: demo_net_def demo_server_def is_done_def ops_Get_def NewTable_def)
  have "settle_call (owns (map_of (sv_host (n_target ?w))) ''n'') demo_client demo_cfg ''n'' (n_source ?w) =
      AbortPush demo_client demo_cfg ''n'' (demo_source StateCommitting)"
    using demo_target_ok(2) by (simp add: settle_call_def demo_net_def demo_server_def)
  note settle = this [symmetric]
  have start: "sv_host (demo_server ?w NewTransfers) = ?w" by (simp add: demo_server_def)
  have wait: "\<forall>s. sv_host (snd (Pair False s)) = sv_host s \<and> sv_ops (snd (Pair False s)) = sv_ops s" by simp
  from resolver_settles [OF demo_node demo_node still_frame still_frame demo_names(9) start h(1-4) demo_answering h(5) wait settle,
      of "\<lambda>x. x" "''n2:7411''"]
  show ?thesis using demo_AbortPush demo_aborted by (auto simp: Let_def)
qed

end
