(* ===== verification/ApiRollback.thy ===== *)
theory ApiRollback
  imports ApiFrames
begin

text \<open>
  The rollback handler as a whole: sweeping what an earlier rollback left behind, the copy, the removal
  and the bounded attempts to finish.
\<close>

lemma temp_name_ok: "lv_name_ok vid \<Longrightarrow> lv_name_ok (RollbackTempName vid)"
  by (auto simp: lv_name_ok_def RollbackTempName_def name_char_def Let_def)

lemma temp_name_neq [simp]: "RollbackTempName vid \<noteq> vid" "vid \<noteq> RollbackTempName vid"
  by (simp_all add: RollbackTempName_def)

section \<open>Finishing\<close>

context node
begin

lemma phase_exists:
  assumes "rb_phase vid temp d v0 (view w)" and "temp \<noteq> vid"
  shows "if view w temp \<noteq> None then is_copy (view w) temp vid else view w vid \<noteq> None"
  using assms by (auto simp: rb_phase_def rb_ready_def is_copy_def vstate_Some_iff)

lemma finish_loop_phase:
  assumes "finish_loop (daemon_client run) cfg nm vid k e w = (r, w')" and "rb_phase vid temp d v0 (view w)"
    and "lv_name_ok nm" and "nm = temp \<and> temp \<noteq> vid \<or> nm = vid \<and> view w vid \<noteq> None"
  shows "rb_phase vid temp d v0 (view w') \<and> (is_err r \<or> k = 0 \<and> e = None \<or> rb_ready vid temp d (view w'))"
  using assms
proof (induction k arbitrary: e w)
  case 0
  then show ?case by (cases e) auto
next
  case (Suc k)
  have attempt: "rb_phase vid temp d v0 (view w') \<and> (is_err r \<or> rb_ready vid temp d (view w'))"
    if v: "view w1 = view w" and n: "n = temp \<and> is_copy (view w) temp vid \<or> n = vid \<and> view w vid \<noteq> None"
      and f: "(case FinishRollback (daemon_client run) cfg n vid w1 of
          (Inr _, w2) \<Rightarrow> (Inr (), w2)
        | (Inl e, w2) \<Rightarrow> finish_loop (daemon_client run) cfg nm vid k (Some e) w2) = (r, w')" for n w1
  proof -
    obtain q w2 where q: "FinishRollback (daemon_client run) cfg n vid w1 = (q, w2)" by fastforce
    note p = FinishRollback_phase [OF q, unfolded v, OF Suc.prems(2) n]
    have live: "nm = temp \<and> temp \<noteq> vid \<or> nm = vid \<and> view w2 vid \<noteq> None" using p Suc.prems(4) by auto
    show ?thesis
    proof (cases q)
      case (Inl e')
      then have "finish_loop (daemon_client run) cfg nm vid k (Some e') w2 = (r, w')" using f q by simp
      from Suc.IH [OF this conjunct1 [OF p] Suc.prems(3) live] show ?thesis by auto
    next
      case (Inr u)
      then show ?thesis using f q p by auto
    qed
  qed
  show ?case
  proof (cases "nm = vid")
    case True
    then have "view w vid \<noteq> None" using Suc.prems(4) by auto
    then show ?thesis using attempt [of w vid] Suc.prems(1) True by auto
  next
    case False
    then have nm: "nm = temp" "temp \<noteq> vid" using Suc.prems(4) by auto
    obtain q w1 where x: "VolumeExists (daemon_client run) cfg nm w = (q, w1)" by fastforce
    from x Suc.prems(3) show ?thesis
    proof (cases rule: VolumeExists_cases)
      case ok
      then show ?thesis
        using attempt [of w1 "if view w temp \<noteq> None then temp else vid"] phase_exists [OF Suc.prems(2) nm(2)]
          Suc.prems(1) x nm by (auto split: if_splits)
    next
      case (fault e')
      then have "finish_loop (daemon_client run) cfg nm vid k (Some (Wrap (''looking up volume '' @ nm @ '': '') (OfLvm e') [])) w1 = (r, w')"
        using Suc.prems(1) x nm by simp
      from Suc.IH [OF this] show ?thesis using fault Suc.prems by auto
    qed
  qed
qed

lemma finishRollback_phase:
  assumes "finishRollback (daemon_client run) cfg nm vid w = (r, w')" and "rb_phase vid temp d v0 (view w)"
    and "lv_name_ok nm" and "nm = temp \<and> temp \<noteq> vid \<or> nm = vid \<and> view w vid \<noteq> None"
  shows "rb_phase vid temp d v0 (view w') \<and> (is_err r \<or> rb_ready vid temp d (view w'))"
  using finish_loop_phase [OF assms(1) [unfolded finishRollback_def] assms(2-4)] by auto

section \<open>Sweeping\<close>

lemma copy_read:
  assumes "view w n = Some x" and "vol_shows x vol"
  shows "vol_State vol \<noteq> StateRollback \<or> vol_RollbackTarget vol \<noteq> vid \<longleftrightarrow> \<not> is_copy (view w) n vid"
  using assms by (auto simp: is_copy_def vol_shows_def)

lemma sweepRollback_none:
  assumes "sweepRollback (daemon_client run) cfg vid temp w = (r, w')" and "lv_name_ok temp" and "\<not> is_copy (view w) temp vid"
  shows "view w' = view w"
proof -
  obtain q w1 where g: "GetVolume (daemon_client run) cfg temp w = (q, w1)" by fastforce
  from g assms(2) show ?thesis
  proof (cases rule: GetVolume_cases)
    case (ok x vol)
    then show ?thesis using assms(1,3) g copy_read [of w temp x vol vid] by (auto simp: sweepRollback_def split: if_splits)
  qed (use assms(1) g in \<open>auto simp: sweepRollback_def\<close>)
qed

lemma sweepRenamed_none:
  assumes "sweepRenamedRollback (daemon_client run) cfg vid w = (r, w')" and "lv_name_ok vid" and "\<not> is_copy (view w) vid vid"
  shows "view w' = view w"
proof -
  obtain q w1 where g: "GetVolume (daemon_client run) cfg vid w = (q, w1)" by fastforce
  from g assms(2) show ?thesis
  proof (cases rule: GetVolume_cases)
    case (ok x vol)
    then show ?thesis using assms(1,3) g copy_read [of w vid x vol vid] by (auto simp: sweepRenamedRollback_def split: if_splits)
  qed (use assms(1) g in \<open>auto simp: sweepRenamedRollback_def\<close>)
qed

text \<open>Sweeping an interrupted rollback keeps its phases and, where it succeeds, ends it.\<close>

lemma sweepRollback_phase:
  assumes r: "sweepRollback (daemon_client run) cfg vid temp w = (r, w')" and names: "lv_name_ok temp" "lv_name_ok vid"
    and ph: "rb_phase vid temp d v0 (view w)" and ne: "temp \<noteq> vid"
  shows "rb_phase vid temp d v0 (view w') \<and> (is_err r \<or> view w' temp = None)"
proof (cases "is_copy (view w) temp vid")
  case False
  then have "view w temp = None" using phase_exists [OF ph ne] by (auto split: if_splits)
  then show ?thesis using sweepRollback_none [OF r names(1) False] ph by simp
next
  case True
  then have vid: "view w vid = None" and temp: "view w temp \<noteq> None"
    using ph ne by (auto simp: rb_phase_def rb_ready_def is_copy_def)
  obtain q w1 where g: "GetVolume (daemon_client run) cfg temp w = (q, w1)" by fastforce
  from g names(1) show ?thesis
  proof (cases rule: GetVolume_cases)
    case (ok x vol)
    have c: "seqE (VolumeExists (daemon_client run) cfg vid) (\<lambda>exists.
        if exists then RemoveVolume (daemon_client run) cfg temp else finishRollback (daemon_client run) cfg temp vid) w1 = (r, w')"
      using r g ok True copy_read [of w temp x vol vid] by (auto simp: sweepRollback_def)
    obtain q2 w2 where x: "VolumeExists (daemon_client run) cfg vid w1 = (q2, w2)" by fastforce
    from x names(2) show ?thesis
    proof (cases rule: VolumeExists_cases)
      case ok2: ok
      then have "finishRollback (daemon_client run) cfg temp vid w2 = (r, w')" "view w2 = view w"
        using c x vid ok(5) by (simp_all add: seqE_def)
      from finishRollback_phase [OF this(1), unfolded this(2), OF ph names(1)] show ?thesis
        using ne by (auto simp: rb_ready_def)
    next
      case (fault e)
      then show ?thesis using c x ok(5) ph by (auto simp: seqE_def)
    qed
  next
    case missing
    then show ?thesis using True by (auto simp: is_copy_def vstate_def)
  next
    case (fault e)
    then show ?thesis using r g ph by (auto simp: sweepRollback_def)
  qed
qed

lemma sweepRenamed_phase:
  assumes r: "sweepRenamedRollback (daemon_client run) cfg vid w = (r, w')" and name: "lv_name_ok vid"
    and ph: "rb_phase vid temp d v0 (view w)" and ne: "temp \<noteq> vid" and moved: "view w temp = None"
  shows "rb_phase vid temp d v0 (view w') \<and> (is_err r \<or> rb_ready vid temp d (view w'))"
proof (cases "is_copy (view w) vid vid")
  case False
  then have "rb_ready vid temp d (view w)" using ph ne moved by (auto simp: rb_phase_def is_copy_def)
  then show ?thesis using sweepRenamed_none [OF r name False] ph by simp
next
  case True
  then have vid: "view w vid \<noteq> None" by (auto simp: is_copy_def)
  obtain q w1 where g: "GetVolume (daemon_client run) cfg vid w = (q, w1)" by fastforce
  from g name show ?thesis
  proof (cases rule: GetVolume_cases)
    case (ok x vol)
    then have "finishRollback (daemon_client run) cfg vid vid w1 = (r, w')"
      using r g True copy_read [of w vid x vol vid] by (auto simp: sweepRenamedRollback_def)
    from finishRollback_phase [OF this, unfolded ok(5), OF ph name] vid show ?thesis by blast
  next
    case missing
    then show ?thesis using True by (auto simp: is_copy_def vstate_def)
  next
    case (fault e)
    then show ?thesis using r g ph by (auto simp: sweepRenamedRollback_def)
  qed
qed

section \<open>The handler\<close>

text \<open>What a rollback that did not succeed leaves: the volume, or the rollback in one of its phases, or neither.\<close>

lemma removed_phase:
  assumes "lv_effect pool (OpRemove vid) v v'" and "wf_view v" and "is_copy v temp vid" and "content v temp = Some d"
    and "temp \<noteq> vid" and "others_same {vid, temp} v0 v"
  shows "rb_phase vid temp d v0 v'" and "v' vid = None"
proof -
  have c: "core v' = (core v)(vid := None)" by (rule effect_remove_core [OF assms(1)])
  note f = effect_remove [OF assms(1,2)]
  have "is_copy v' temp vid" using assms(3,5) c core_cong(3) [of v' temp v temp vid] by simp
  moreover show "v' vid = None" using c core_None_iff [of v' vid] by simp
  moreover have "others_same {vid, temp} v0 v'" using assms(6) c by (simp add: others_same_def)
  ultimately show "rb_phase vid temp d v0 v'" using f assms(4,5) by (simp add: rb_phase_def)
qed

lemma undo_outcome:
  assumes "RemoveVolume (daemon_client run) cfg temp w = (r, w')" and "rb_phase vid temp d v0 (view w)" and "view w vid = None"
    and "temp \<noteq> vid"
  shows "rb_phase vid temp d v0 (view w') \<or> view w' vid = None \<and> view w' temp = None \<and> others_same {vid, temp} v0 (view w')"
  using RemoveVolume_does assms(1)
proof (cases rule: does_cases)
  case some
  have c: "core (view w') = (core (view w))(temp := None)" by (rule effect_remove_core [OF some])
  then have "view w' vid = None" "view w' temp = None"
    using core_None_iff [of "view w'" vid] core_None_iff [of "view w'" temp] assms(3,4) by auto
  moreover have "others_same {vid, temp} v0 (view w')" using assms(2) c by (simp add: rb_phase_def others_same_def)
  ultimately show ?thesis by blast
qed (use assms(2) in simp)

lemma removed_other:
  assumes "RemoveVolume (daemon_client run) cfg n w = (r, w')" and "m \<noteq> n"
  shows "core (view w') m = core (view w) m"
  using RemoveVolume_does assms(1) by (rule does_cases) (use assms(2) effect_remove_core in auto)

lemma sweeps_none:
  assumes "seqE (sweepRollback (daemon_client run) cfg vid temp) (\<lambda>_. sweepRenamedRollback (daemon_client run) cfg vid) w = (r, w')"
    and "lv_name_ok temp" "lv_name_ok vid" and "\<not> is_copy (view w) temp vid" "\<not> is_copy (view w) vid vid"
  shows "view w' = view w"
  using assms(1)
proof (cases rule: seqE_cases)
  case (err e)
  then show ?thesis using sweepRollback_none assms(2,4) by blast
next
  case (ok u w1)
  then have "view w1 = view w" using sweepRollback_none assms(2,4) by blast
  then show ?thesis using sweepRenamed_none [OF ok(2) assms(3)] assms(5) by simp
qed

lemma replace_outcome:
  assumes r: "(case RemoveVolume (daemon_client run) cfg vid w of
       (Inl e, w1) \<Rightarrow> (Inl (volumeError e ''rollback failed''), snd (RemoveVolume (daemon_client run) cfg temp w1))
     | (Inr _, w1) \<Rightarrow> mapErr f (finishRollback (daemon_client run) cfg temp vid) w1) = (r, w')"
    and wf: "wf_view (view w)" and copy: "is_copy (view w) temp vid" "content (view w) temp = Some d"
    and names: "lv_name_ok temp" and ne: "temp \<noteq> vid" and others: "others_same {vid, temp} v0 (view w)"
  shows "others_same {vid, temp} v0 (view w') \<and> (is_err r \<or> rb_ready vid temp d (view w')) \<and>
    (core (view w') vid = core (view w) vid \<or> rb_phase vid temp d v0 (view w') \<or> view w' vid = None \<and> view w' temp = None)"
proof -
  obtain q w1 where q: "RemoveVolume (daemon_client run) cfg vid w = (q, w1)" by fastforce
  have gone: ?thesis if e: "lv_effect (cfg_ThinPool cfg) (OpRemove vid) (view w) (view w1)"
  proof -
    note p = removed_phase [OF e wf copy ne others]
    show ?thesis
    proof (cases q)
      case (Inl e)
      obtain z where "RemoveVolume (daemon_client run) cfg temp w1 = (z, w')" and "is_err r"
        using r q Inl by auto (metis prod.collapse)
      from undo_outcome [OF this(1) p ne] this(2) show ?thesis by (auto simp: rb_phase_def)
    next
      case (Inr u)
      then obtain z where f: "finishRollback (daemon_client run) cfg temp vid w1 = (z, w')" and z: "is_err r = is_err z"
        using r q by (auto elim!: mapErr_cases)
      have "rb_phase vid temp d v0 (view w') \<and> (is_err z \<or> rb_ready vid temp d (view w'))"
        by (rule finishRollback_phase [OF f p(1) names]) (simp add: ne)
      then show ?thesis using z by (auto simp: rb_phase_def)
    qed
  qed
  from RemoveVolume_does q show ?thesis
  proof (cases rule: does_cases)
    case (none e)
    obtain z where u: "RemoveVolume (daemon_client run) cfg temp w1 = (z, w')" and err: "is_err r"
      using r q none by auto (metis prod.collapse)
    have "core (view w') m = core (view w) m" if "m \<noteq> temp" for m using removed_other [OF u that] none by simp
    then show ?thesis using err ne others by (auto simp: others_same_def)
  qed (rule gone)
qed

lemma rollback_body_outcome:
  fixes vid sid :: string
  defines "temp \<equiv> RollbackTempName vid"
  assumes r: "rollback_body (daemon_client run) cfg vid sid temp w = (r, w')" and wf: "wf_view (view w)"
    and names: "lv_name_ok vid" "lv_name_ok sid" and fresh: "\<not> is_copy (view w) temp vid" "\<not> is_copy (view w) vid vid"
  shows "others_same {vid, temp} (view w) (view w') \<and>
    (is_err r \<or> vstate (view w) vid = Some StateReady \<and> vstate (view w) sid = Some StateSnapshot \<and>
       (\<exists>d. content (view w) sid = Some d \<and> rb_ready vid temp d (view w'))) \<and>
    (core (view w') vid = core (view w) vid \<or>
     (\<exists>d. content (view w) sid = Some d \<and> rb_phase vid temp d (view w) (view w')) \<or>
     view w' vid = None \<and> view w' temp = None)"
proof -
  have tn: "lv_name_ok temp" "temp \<noteq> vid" using temp_name_ok [OF names(1)] by (simp_all add: temp_def)
  have still: ?thesis if "view w' = view w" "is_err r" using that by (simp add: others_same_def)
  from r show ?thesis unfolding rollback_body_def
  proof (cases rule: seqE_cases)
    case (err e)
    then show ?thesis using sweeps_none [OF _ tn(1) names(1) fresh] still by (auto elim!: mapErr_cases)
  next
    case (ok u w1)
    have w1: "view w1 = view w" using ok(1) sweeps_none [OF _ tn(1) names(1) fresh] by (auto elim!: mapErr_cases)
    from ok(2) show ?thesis
    proof (cases rule: seqE_cases)
      case (err e)
      then obtain e' where b: "BeginRollback (daemon_client run) cfg vid sid w1 = (Inl e', w')" and "is_err r"
        by (auto elim!: mapErr_cases)
      then show ?thesis
        using BeginRollback_outcome [OF b, unfolded w1, OF wf names] still tn(2) unfolding temp_def [symmetric]
        by (auto simp: others_same_def core_def)
    next
      case (ok u' w2)
      then have b: "BeginRollback (daemon_client run) cfg vid sid w1 = (Inr u', w2)" by (auto elim!: mapErr_cases)
      have m: "vstate (view w) vid = Some StateReady" "vstate (view w) sid = Some StateSnapshot"
        "wf_view (view w2)" "is_copy (view w2) temp vid" "content (view w2) temp = content (view w) sid"
        "\<forall>n. n \<noteq> temp \<longrightarrow> view w2 n = view w n"
        using BeginRollback_outcome [OF b, unfolded w1, OF wf names] by (simp_all add: temp_def)
      obtain d where d: "content (view w) sid = Some d" using m(2) by (auto simp: content_def vstate_Some_iff)
      have o: "others_same {vid, temp} (view w) (view w2)" using m(6) by (simp add: others_same_def core_def)
      have "core (view w2) vid = core (view w) vid" using m(6) tn(2) by (simp add: core_def)
      with replace_outcome [OF ok(2) m(3,4) m(5) [unfolded d] tn o] show ?thesis using m(1,2) d by auto
    qed
  qed
qed

end

section \<open>Theorems\<close>

text \<open>
  C11. A rollback request, whatever fails. Without leftovers of an earlier rollback, a request that succeeds
  found a ready volume with a snapshot, and leaves the volume ready with the content of that snapshot
  and the temporary name free. A request that fails leaves the volume as it was, or the rollback in one
  of its phases with the restored content intact; only where the removal of the volume reported an
  error although it took effect, both the volume and its copy can be gone. Every other volume, the
  snapshot among them, is untouched, and the names are free again.
\<close>

theorem RollbackVolume_correct:
  assumes "node run cfg view" and "wf_view (view (sv_host s))"
    and "\<not> is_copy (view (sv_host s)) (RollbackTempName vid) vid" and "\<not> is_copy (view (sv_host s)) vid vid"
    and "RollbackVolume (daemon_client run) cfg vid sid s = (r, s')"
    and "temp = RollbackTempName vid" and "v = view (sv_host s)" and "v' = view (sv_host s')"
  shows "sv_reserved s' = sv_reserved s \<and> others_same {vid, temp} v v' \<and>
    (is_err r \<or> vstate v vid = Some StateReady \<and> vstate v sid = Some StateSnapshot \<and>
       (\<exists>d. content v sid = Some d \<and> rb_ready vid temp d v')) \<and>
    (core v' vid = core v vid \<or> (\<exists>d. content v sid = Some d \<and> rb_phase vid temp d v v') \<or> v' vid = None \<and> v' temp = None)"
proof (cases "volumeIDPattern vid \<and> volumeIDPattern sid \<and> fst (Reserve (sv_reserved s) [vid, temp])")
  case False
  then have "sv_host s' = sv_host s \<and> sv_reserved s' = sv_reserved s \<and> is_err r"
    using assms(5,6) by (auto simp: RollbackVolume_def demand_def Reserve_def Let_def split: if_splits)
  then show ?thesis using assms(7,8) by (simp add: others_same_def)
next
  case True
  then have names: "lv_name_ok vid" "lv_name_ok sid" and free: "\<not> sv_reserved s vid" "\<not> sv_reserved s temp"
    by (auto simp: volumeIDPattern_iff Reserve_def split: if_splits)
  obtain w' where b: "rollback_body (daemon_client run) cfg vid sid (RollbackTempName vid) (sv_host s) = (r, w')"
    and s': "s' = s\<lparr>sv_host := w', sv_reserved := res_Release (claim_all (sv_reserved s) [vid, temp]) [vid, temp]\<rparr>"
    using assms(5,6) True free
    by (auto simp: RollbackVolume_def demand_def Reserve_def Let_def split_def) (metis prod.collapse)
  have "res_Release (claim_all (sv_reserved s) [vid, temp]) [vid, temp] = sv_reserved s"
    using free by (auto simp: fun_eq_iff)
  then show ?thesis
    using node.rollback_body_outcome [OF assms(1) b assms(2) names assms(3,4)] s' assms(6-8) by simp
qed

theorem RollbackVolume_correct_witness:
  "let (r, s') = RollbackVolume demo_client demo_cfg ''v'' ''s'' (demo_server demo_host NewTransfers) in
   sv_reserved s' = newNameReservations \<and> others_same {''v'', ''v+rb''} (map_of demo_host) (map_of (sv_host s'))"
proof -
  let ?s = "demo_server demo_host NewTransfers"
  have h: "wf_view (map_of (sv_host ?s))" "\<not> is_copy (map_of (sv_host ?s)) (RollbackTempName ''v'') ''v''"
    "\<not> is_copy (map_of (sv_host ?s)) ''v'' ''v''"
    using demo_states(1) by (auto simp: demo_server_def is_copy_def RollbackTempName_def vstate_def)
  show ?thesis
    using RollbackVolume_correct [OF demo_node h prod.collapse [symmetric] refl refl refl, of "''s''"]
    by (simp add: split_def demo_server_def RollbackTempName_def)
qed

text \<open>
  C12. An interrupted rollback is resumed by the next request for its volume: from any phase, sweeping leaves
  it in one of the phases with the restored content intact, and where it succeeds, the volume is ready
  with that content.
\<close>

theorem interrupted_rollback_resumes:
  assumes "node run cfg view" and "lv_name_ok vid" and "temp = RollbackTempName vid" and "rb_phase vid temp d v0 (view w)"
    and "seqE (sweepRollback (daemon_client run) cfg vid temp) (\<lambda>_. sweepRenamedRollback (daemon_client run) cfg vid) w = (r, w')"
  shows "rb_phase vid temp d v0 (view w') \<and> (is_err r \<or> rb_ready vid temp d (view w'))"
proof -
  have tn: "lv_name_ok temp" "temp \<noteq> vid" using temp_name_ok [OF assms(2)] assms(3) by simp_all
  from assms(5) show ?thesis
  proof (cases rule: seqE_cases)
    case (err e)
    then show ?thesis using node.sweepRollback_phase [OF assms(1) err(1) tn(1) assms(2,4) tn(2)] by simp
  next
    case (ok u w1)
    have "rb_phase vid temp d v0 (view w1) \<and> view w1 temp = None"
      using node.sweepRollback_phase [OF assms(1) ok(1) tn(1) assms(2,4) tn(2)] by simp
    then show ?thesis using node.sweepRenamed_phase [OF assms(1) ok(2) assms(2) _ tn(2)] by blast
  qed
qed

definition demo_interrupted :: refhost where
  "demo_interrupted = [(''y+rb'', demo_lv [StateTag StateRollback, rollbackTargetTagPrefix @ ''y''] [] False)]"

theorem interrupted_rollback_resumes_witness:
  "let st = seqE (sweepRollback demo_client demo_cfg ''y'' ''y+rb'') (\<lambda>_. sweepRenamedRollback demo_client demo_cfg ''y'') demo_interrupted in
   rb_phase ''y'' ''y+rb'' (\<lambda>i. of_nat i) (map_of demo_interrupted) (map_of (snd st))"
proof -
  have "tagValue [StateTag StateRollback, rollbackTargetTagPrefix @ ''y''] rollbackTargetTagPrefix = ''y''"
    by (rule tagValue_eqI) auto
  then have copy: "is_copy (map_of demo_interrupted) ''y+rb'' ''y''"
    by (simp add: is_copy_def demo_interrupted_def demo_lv_def obj_state_def knownState_def knownStates_def del: tagValue.simps)
  have wf: "wf_view (map_of demo_interrupted)"
    by (rule wf_view_map_of) (simp add: demo_interrupted_def demo_lv_def one_state_def state_tag_def tag_evals)
  have "rb_phase ''y'' ''y+rb'' (\<lambda>i. of_nat i) (map_of demo_interrupted) (map_of demo_interrupted)"
    using wf copy by (simp add: rb_phase_def others_same_def content_def) (simp add: demo_interrupted_def demo_lv_def)
  then show ?thesis
    using interrupted_rollback_resumes [OF demo_node demo_names(8) _ _ prod.collapse [symmetric], of "''y+rb''"]
    by (simp add: RollbackTempName_def Let_def)
qed

end
