(* ===== verification/Lifecycle.thy ===== *)
theory Lifecycle
  imports ApiRollback TargetNode
begin

text \<open>
  What each verb of the storage package does to the states of the volumes, and to nothing else: the
  lemmas here forget content, size and activity and keep only which volume moves from which state to
  which. They are the steps of the daemon's state machine in the theory of its runs.
\<close>

section \<open>Changes of state\<close>

type_synonym transition = "string \<Rightarrow> State option \<Rightarrow> State option \<Rightarrow> bool"

text \<open>Every volume keeps its state or moves as \<open>T\<close> allows; \<open>None\<close> is a name without a volume of the daemon.\<close>

definition shift :: "transition \<Rightarrow> lvview \<Rightarrow> lvview \<Rightarrow> bool" where
  "shift T v v' \<longleftrightarrow> wf_view v' \<and> (\<forall>n. vstate v' n = vstate v n \<or> T n (vstate v n) (vstate v' n))"

definition goes :: "string \<Rightarrow> State option set \<Rightarrow> State option set \<Rightarrow> transition" where
  "goes vid A B n a b \<longleftrightarrow> n = vid \<and> a \<in> A \<and> b \<in> B"

definition stays :: transition where
  "stays n a b \<longleftrightarrow> False"

lemma shift_wf: "shift T v v' \<Longrightarrow> wf_view v'"
  by (simp add: shift_def)

lemma shift_refl [simp]: "shift T v v \<longleftrightarrow> wf_view v"
  by (simp add: shift_def)

lemma shift_same: "wf_view v' \<Longrightarrow> vstate v' = vstate v \<Longrightarrow> shift T v v'"
  by (simp add: shift_def)

lemma shift_upd: "wf_view v' \<Longrightarrow> vstate v' = (vstate v)(n := b) \<Longrightarrow> T n (vstate v n) b \<Longrightarrow> shift T v v'"
  by (simp add: shift_def)

lemma shift_one:
  assumes "wf_view v'" and "\<And>m. m \<noteq> n \<Longrightarrow> v' m = v m" and "vstate v' n = vstate v n \<or> T n (vstate v n) (vstate v' n)"
  shows "shift T v v'"
  unfolding shift_def
proof (intro conjI allI)
  fix m show "vstate v' m = vstate v m \<or> T m (vstate v m) (vstate v' m)"
    using assms(2,3) by (cases "m = n") (auto simp: vstate_def)
qed (rule assms(1))

lemma shift_mono: "shift T v v' \<Longrightarrow> (\<And>n a b. T n a b \<Longrightarrow> U n a b) \<Longrightarrow> shift U v v'"
  by (auto simp: shift_def)

lemma shift_from: "shift T v v' \<Longrightarrow> (\<And>n b. T n (vstate v n) b \<Longrightarrow> U n (vstate v n) b) \<Longrightarrow> shift U v v'"
  by (auto simp: shift_def)

lemma shift_stays: "shift stays v v' \<longleftrightarrow> wf_view v' \<and> vstate v' = vstate v"
  by (auto simp: shift_def stays_def)

lemma shift_trans:
  assumes "shift T v v1" and "shift U v1 v2"
    and "\<And>n a b. T n a b \<Longrightarrow> W n a b" "\<And>n a b. U n a b \<Longrightarrow> W n a b"
    and "\<And>n a b c. T n a b \<Longrightarrow> U n b c \<Longrightarrow> a = c \<or> W n a c"
  shows "shift W v v2"
  unfolding shift_def
proof (intro conjI allI)
  show "wf_view v2" using assms(2) by (rule shift_wf)
  fix n
  show "vstate v2 n = vstate v n \<or> W n (vstate v n) (vstate v2 n)"
    using assms unfolding shift_def by metis
qed

lemma shift_removed:
  assumes "shift (goes n A B) v v1" and "wf_view v2" and "vstate v2 = vstate v1 \<or> vstate v2 = (vstate v1)(n := None)"
    and "None \<in> B" and "vstate v n \<in> A"
  shows "shift (goes n A B) v v2"
  unfolding shift_def
proof (intro conjI allI)
  fix m
  have "vstate v1 m = vstate v m \<or> goes n A B m (vstate v m) (vstate v1 m)" using assms(1) by (simp add: shift_def)
  then show "vstate v2 m = vstate v m \<or> goes n A B m (vstate v m) (vstate v2 m)"
    using assms(3-5) by (cases "m = n") (auto simp: goes_def)
qed (rule assms(2))

lemma shift_moves:
  assumes "moves n s' adds s dels skip v v'" and "wf_view v" and "Some s \<in> A" and "Some s' \<in> B"
  shows "shift (goes n A B) v v'"
  using movesD [OF assms(1,2)] assms(3,4) by (intro shift_upd) (auto simp: goes_def)

lemma shift_settled:
  assumes "settled n s' s v v'" and "wf_view v" and "Some s \<in> A" and "Some s' \<in> B"
  shows "shift (goes n A B) v v'"
  using settledD [OF assms(1,2)] assms(3,4) by (intro shift_upd) (auto simp: goes_def)

lemma shift_unsettled: "unsettled n s v v' \<Longrightarrow> wf_view v \<Longrightarrow> shift T v v'"
  using unsettledD by (intro shift_same) auto

lemma shift_others: "others_same S v v' \<Longrightarrow> n \<notin> S \<Longrightarrow> vstate v' n = vstate v n"
  unfolding others_same_def using core_cong(1) by blast

text \<open>A rollback moves its volume and its temporary copy.\<close>

definition rolls :: "string \<Rightarrow> string \<Rightarrow> transition" where
  "rolls vid temp n a b \<longleftrightarrow>
     n = vid \<and> {a, b} \<subseteq> {None, Some StateReady, Some StateRollback} \<or> n = temp \<and> {a, b} \<subseteq> {None, Some StateRollback}"

lemma shift_rolls_trans: "shift (rolls vid temp) v v1 \<Longrightarrow> shift (rolls vid temp) v1 v2 \<Longrightarrow> shift (rolls vid temp) v v2"
  by (erule (1) shift_trans) (auto simp: rolls_def)

text \<open>A volume the scan found is removed, reverted or finished; a free name can be taken by a finished rollback.\<close>

definition recovers :: "(string \<Rightarrow> bool) \<Rightarrow> transition" where
  "recovers byName n a b \<longleftrightarrow>
     (if byName n
      then a \<in> Some ` {StateCreating, StateDeleting, StateIncoming, StateRollback} \<and> b = None \<or>
        a \<in> Some ` {StatePushing, StateRollback} \<and> b = Some StateReady
      else a = None \<and> b \<in> Some ` {StateRollback, StateReady})"

section \<open>Volumes and snapshots\<close>

context node
begin

lemma shift_CreateVolume:
  assumes "CreateVolume (daemon_client run) cfg vid n w = (r, w')" and "wf_view (view w)"
  shows "shift (goes vid {None} {Some StateCreating, Some StateReady}) (view w) (view w')"
proof -
  consider "view w' = view w"
    | x where "view w vid = None" "view w' vid = Some x" "obj_state x = Some StateReady \<or> obj_state x = Some StateCreating"
      "wf_view (view w')" "\<forall>m. m \<noteq> vid \<longrightarrow> view w' m = view w m"
    using CreateVolume_outcome [OF assms] by blast
  then show ?thesis
  proof cases
    case (2 x)
    show ?thesis by (rule shift_one [OF 2(4)]) (use 2 in \<open>auto simp: goes_def vstate_def\<close>)
  qed (use assms(2) in simp)
qed

lemma shift_CreateSnapshot:
  assumes "CreateSnapshot (daemon_client run) cfg vid sid w = (r, w')" and "wf_view (view w)" and "lv_name_ok vid"
  shows "shift (goes sid {None} {Some StateSnapshot}) (view w) (view w')"
proof -
  consider "view w' = view w"
    | x where "view w sid = None" "view w' sid = Some x" "obj_state x = Some StateSnapshot"
      "wf_view (view w')" "\<forall>m. m \<noteq> sid \<longrightarrow> view w' m = view w m"
    using CreateSnapshot_outcome [OF assms] by blast
  then show ?thesis
  proof cases
    case (2 x)
    show ?thesis by (rule shift_one [OF 2(4)]) (use 2 in \<open>auto simp: goes_def vstate_def\<close>)
  qed (use assms(2) in simp)
qed

lemma shift_DeleteSnapshot:
  assumes "DeleteSnapshot (daemon_client run) cfg pins sid w = (r, w')" and "wf_view (view w)" and "lv_name_ok sid"
  shows "shift (\<lambda>n a b. goes sid {Some StateSnapshot} {None} n a b \<and> \<not> Pinned pins n) (view w) (view w')"
  using DeleteSnapshot_outcome [OF assms(1,3)]
proof (elim disjE conjE exE)
  assume "vstate (view w) sid = Some StateSnapshot" "\<not> Pinned pins sid"
    and e: "lv_effect (cfg_ThinPool cfg) (OpRemove sid) (view w) (view w')"
  then show ?thesis using effect_remove [OF e assms(2)] by (intro shift_upd) (auto simp: goes_def)
qed (use assms(2) in auto)

lemma shift_Attach:
  assumes "Attach (daemon_client run) cfg vid w = (r, w')" and "wf_view (view w)" and "lv_name_ok vid"
  shows "shift (goes vid {Some StateReady} {Some StateAttached}) (view w) (view w')"
  using Attach_outcome [OF assms]
proof (elim disjE conjE exE)
  assume "vstate (view w) vid = Some StateReady" "wf_view (view w')"
    "vstate (view w') = (vstate (view w))(vid \<mapsto> StateAttached)"
  then show ?thesis by (intro shift_upd) (auto simp: goes_def)
qed (use assms(2) in \<open>auto simp: shift_def goes_def\<close>)

lemma shift_Detach:
  assumes "Detach (daemon_client run) cfg vid w = (r, w')" and "wf_view (view w)" and "lv_name_ok vid"
  shows "shift (goes vid {Some StateAttached} {Some StateReady}) (view w) (view w')"
  using Detach_outcome [OF assms] assms(2) by (elim disjE conjE exE) (auto simp: shift_def goes_def)

lemma shift_ResizeVolume:
  assumes "ResizeVolume (daemon_client run) cfg vid n w = (r, w')" and "wf_view (view w)" and "lv_name_ok vid"
  shows "shift stays (view w) (view w')"
proof -
  have "wf_view ((view w)(vid \<mapsto> x\<lparr>o_size := k\<rparr>)) \<and> vstate ((view w)(vid \<mapsto> x\<lparr>o_size := k\<rparr>)) = vstate (view w)"
    if "view w vid = Some x" for x k
    using that assms(2) wf_viewD [OF assms(2) that]
    by (auto simp: wf_view_def vstate_def fun_eq_iff obj_state_def)
  then show ?thesis
    using ResizeVolume_outcome [OF assms] assms(2) by (auto simp: shift_stays)
qed

text \<open>A delete marks the volume and snapshots that are not pinned; what it returns is marked with the volume.\<close>

lemma shift_MarkDeleting:
  assumes "MarkDeleting (daemon_client run) cfg pins vid force w = (r, w')" and "wf_view (view w)" and "lv_name_ok vid"
  shows "shift (\<lambda>n a b. goes vid {Some StateReady, Some StateRetired} {Some StateDeleting} n a b \<or>
      force \<and> a = Some StateSnapshot \<and> b = Some StateDeleting \<and> \<not> Pinned pins n) (view w) (view w')"
    and "r = Inr ids \<Longrightarrow> distinct (ids @ [vid]) \<and>
      (\<forall>n \<in> set (ids @ [vid]). vstate (view w) n \<noteq> Some StateDeleting \<and> vstate (view w') n = Some StateDeleting)"
proof -
  have snaps: "vstate (view w) n = Some StateSnapshot" if "n \<in> snapshots_of (cfg_ThinPool cfg) (view w) vid" for n
    using that by (auto simp: snapshots_of_def vstate_def)
  note out = MarkDeleting_outcome [OF assms]
  show "shift (\<lambda>n a b. goes vid {Some StateReady, Some StateRetired} {Some StateDeleting} n a b \<or>
      force \<and> a = Some StateSnapshot \<and> b = Some StateDeleting \<and> \<not> Pinned pins n) (view w) (view w')"
  proof (cases "view w' = view w")
    case False
    then obtain js xs f where js: "set js = snapshots_of (cfg_ThinPool cfg) (view w) vid" "force \<or> js = []"
        "\<forall>n \<in> set js. \<not> Pinned pins n" "vstate (view w) vid = Some StateReady \<or> vstate (view w) vid = Some StateRetired"
      and xs: "marked xs f (view w) (view w')" "set xs \<subseteq> insert vid (set js)"
      using out by (metis list.set(2) order_refl subset_insertI)
    obtain T where T: "T \<subseteq> set xs" "vstate (view w') = mark T StateDeleting (vstate (view w))" "wf_view (view w')"
      using xs(1) by (auto simp: marked_def)
    have "n = vid \<or> force \<and> vstate (view w) n = Some StateSnapshot \<and> \<not> Pinned pins n" if "n \<in> T" for n
      using that T(1) xs(2) js(1-3) snaps by (cases "n = vid") auto
    then show ?thesis using T(2,3) js(4) by (auto simp: shift_def mark_def goes_def)
  qed (use assms(2) in simp)
  assume "r = Inr ids"
  then have "distinct ids \<and> set ids = snapshots_of (cfg_ThinPool cfg) (view w) vid \<and> vid \<notin> set ids \<and>
      (vstate (view w) vid = Some StateReady \<or> vstate (view w) vid = Some StateRetired) \<and>
      marked (vid # ids) False (view w) (view w')"
    using out by auto
  then show "distinct (ids @ [vid]) \<and>
      (\<forall>n \<in> set (ids @ [vid]). vstate (view w) n \<noteq> Some StateDeleting \<and> vstate (view w') n = Some StateDeleting)"
    using snaps by (auto simp: marked_def mark_def)
qed

lemma shift_RemoveVolume:
  assumes "RemoveVolume (daemon_client run) cfg n w = (r, w')" and "wf_view (view w)"
  shows "shift (goes n {vstate (view w) n} {None}) (view w) (view w')"
    and "vstate (view w') = vstate (view w) \<or> vstate (view w') = (vstate (view w))(n := None)"
proof -
  have "view w' = view w \<or> wf_view (view w') \<and> vstate (view w') = (vstate (view w))(n := None)"
    by (rule does_cases [OF RemoveVolume_does assms(1)]) (use effect_remove(1,2) [OF _ assms(2)] in auto)
  then show "shift (goes n {vstate (view w) n} {None}) (view w) (view w')"
    and "vstate (view w') = vstate (view w) \<or> vstate (view w') = (vstate (view w))(n := None)"
    using assms(2) by (auto simp: goes_def intro: shift_upd)
qed

section \<open>Pushes\<close>

lemma shift_MarkPushing:
  assumes "MarkPushing (daemon_client run) cfg vid tid target w = (r, w')" and "wf_view (view w)" and "lv_name_ok vid"
  shows "shift (goes vid {Some StateReady} {Some StatePushing}) (view w) (view w')"
  using MarkPushing_outcome [OF assms] assms(2) shift_moves [OF _ assms(2)] by (auto simp: push_step_def)

lemma shift_MarkCommitting:
  assumes "MarkCommitting (daemon_client run) cfg vid w = (r, w')" and "wf_view (view w)" and "lv_name_ok vid"
  shows "shift (goes vid {Some StatePushing} {Some StateCommitting}) (view w) (view w')"
  using MarkCommitting_outcome [OF assms] assms(2) shift_moves [OF _ assms(2)] by (auto simp: push_step_def)

lemma shift_RetirePushed:
  assumes "RetirePushed (daemon_client run) cfg vid w = (r, w')" and "wf_view (view w)" and "lv_name_ok vid"
  shows "shift (goes vid {Some StateCommitting} {Some StateRetired}) (view w) (view w')"
  using RetirePushed_outcome [OF assms] assms(2) shift_settled [OF _ assms(2)] shift_unsettled [OF _ assms(2)] by auto

lemma shift_AbortPush:
  assumes "AbortPush (daemon_client run) cfg vid w = (r, w')" and "wf_view (view w)" and "lv_name_ok vid"
  shows "shift (goes vid {Some StatePushing, Some StateCommitting} {Some StateReady}) (view w) (view w')"
  using AbortPush_outcome [OF assms] assms(2) shift_settled [OF _ assms(2)] shift_unsettled [OF _ assms(2)] by auto

section \<open>Rollbacks\<close>

lemma shift_phase:
  assumes "rb_phase vid temp d v v'" and "vstate v vid \<in> {None, Some StateReady, Some StateRollback}"
    and "vstate v temp \<in> {None, Some StateRollback} \<or> temp = vid"
  shows "shift (rolls vid temp) v v'"
proof -
  have "vstate v' vid \<in> {None, Some StateReady, Some StateRollback} \<and> (temp = vid \<or> vstate v' temp \<in> {None, Some StateRollback})"
    using assms(1) by (auto simp: rb_phase_def rb_ready_def is_copy_def vstate_def)
  then have "vstate v' n = vstate v n \<or> rolls vid temp n (vstate v n) (vstate v' n)" for n
    using assms shift_others [of "{vid, temp}" v v' n]
    by (cases "n = vid"; cases "n = temp") (auto simp: rb_phase_def rolls_def)
  then show ?thesis using assms(1) by (simp add: shift_def rb_phase_def)
qed

lemma copy_phase:
  assumes "is_copy v temp vid" and "wf_view v" and "temp \<noteq> vid \<longrightarrow> v vid = None"
  obtains d where "rb_phase vid temp d v v"
proof -
  from assms(1) obtain x where "v temp = Some x" by (auto simp: is_copy_def)
  then have "rb_phase vid temp (o_data x) v v" using assms by (simp add: rb_phase_def others_same_def content_def)
  then show ?thesis by (rule that)
qed

lemma shift_finishRollback:
  assumes "finishRollback (daemon_client run) cfg temp vid w = (r, w')" and "is_copy (view w) temp vid"
    and "wf_view (view w)" and "temp \<noteq> vid \<longrightarrow> view w vid = None" and "lv_name_ok temp"
  shows "shift (rolls vid temp) (view w) (view w')"
proof -
  obtain d where d: "rb_phase vid temp d (view w) (view w)" by (rule copy_phase [OF assms(2-4)])
  have c: "vstate (view w) temp = Some StateRollback" "view w temp \<noteq> None" using assms(2) by (auto simp: is_copy_def vstate_def)
  have "rb_phase vid temp d (view w) (view w')"
    using finishRollback_phase [OF assms(1) d assms(5)] c(2) by auto
  then show ?thesis by (rule shift_phase) (use c(1) assms(4) in \<open>auto simp: vstate_None\<close>)
qed

lemma shift_sweepRollback:
  assumes "sweepRollback (daemon_client run) cfg vid temp w = (r, w')" and "wf_view (view w)"
    and "lv_name_ok temp" "lv_name_ok vid" and "temp \<noteq> vid"
  shows "shift (rolls vid temp) (view w) (view w')"
proof (cases "is_copy (view w) temp vid")
  case False
  then show ?thesis using sweepRollback_none [OF assms(1,3)] assms(2) by simp
next
  case True
  have st: "vstate (view w) temp = Some StateRollback" using True by (auto simp: is_copy_def vstate_def)
  obtain q w1 where g: "GetVolume (daemon_client run) cfg temp w = (q, w1)" by fastforce
  from g assms(3) show ?thesis
  proof (cases rule: GetVolume_cases)
    case (ok x vol)
    then have s: "seqE (VolumeExists (daemon_client run) cfg vid) (\<lambda>exists. if exists then RemoveVolume (daemon_client run) cfg temp
        else finishRollback (daemon_client run) cfg temp vid) w1 = (r, w')"
      using assms(1) g True copy_read [of w temp x vol vid] by (auto simp: sweepRollback_def)
    from s show ?thesis
    proof (cases rule: seqE_cases)
      case (err e)
      from err(1) assms(4) show ?thesis by (cases rule: VolumeExists_cases) (use ok(5) assms(2) in auto)
    next
      case (ok ex w2)
      from ok(1) assms(4) have v2: "view w2 = view w" "ex = (view w vid \<noteq> None)"
        by (cases rule: VolumeExists_cases; use \<open>view w1 = view w\<close> in simp)+
      show ?thesis
      proof (cases ex)
        case True
        then have "RemoveVolume (daemon_client run) cfg temp w2 = (r, w')" using ok(2) by simp
        from shift_RemoveVolume(1) [OF this] show ?thesis
          using v2 assms(2) st by (auto elim!: shift_mono simp: goes_def rolls_def)
      next
        case False
        then have "finishRollback (daemon_client run) cfg temp vid w2 = (r, w')" using ok(2) by simp
        from shift_finishRollback [OF this] show ?thesis
          using v2 assms(2,3) False \<open>is_copy (view w) temp vid\<close> by simp
      qed
    qed
  qed (use assms(1,2) g in \<open>auto simp: sweepRollback_def\<close>)
qed

lemma shift_sweepRenamed:
  assumes "sweepRenamedRollback (daemon_client run) cfg vid w = (r, w')" and "wf_view (view w)" and "lv_name_ok vid"
  shows "shift (rolls vid temp) (view w) (view w')"
proof (cases "is_copy (view w) vid vid")
  case False
  then show ?thesis using sweepRenamed_none [OF assms(1,3)] assms(2) by simp
next
  case True
  obtain q w1 where g: "GetVolume (daemon_client run) cfg vid w = (q, w1)" by fastforce
  from g assms(3) show ?thesis
  proof (cases rule: GetVolume_cases)
    case (ok x vol)
    then have "finishRollback (daemon_client run) cfg vid vid w1 = (r, w')"
      using assms(1) g True copy_read [of w vid x vol vid] by (auto simp: sweepRenamedRollback_def)
    from shift_finishRollback [OF this] have "shift (rolls vid vid) (view w) (view w')"
      using ok(5) assms(2,3) True by simp
    then show ?thesis by (rule shift_mono) (auto simp: rolls_def)
  qed (use assms(1,2) g in \<open>auto simp: sweepRenamedRollback_def\<close>)
qed

text \<open>The replacement of the volume by its copy, with its undo.\<close>

lemma shift_replace:
  assumes r: "(case RemoveVolume (daemon_client run) cfg vid w of
       (Inl e, w1) \<Rightarrow> (Inl (f e), snd (RemoveVolume (daemon_client run) cfg temp w1))
     | (Inr _, w1) \<Rightarrow> mapErr g (finishRollback (daemon_client run) cfg temp vid) w1) = (r, w')"
    and wf: "wf_view (view w)" and copy: "is_copy (view w) temp vid" and vid: "vstate (view w) vid = Some StateReady"
    and names: "lv_name_ok temp" and ne: "temp \<noteq> vid"
  shows "shift (rolls vid temp) (view w) (view w')"
proof -
  obtain q w1 where q: "RemoveVolume (daemon_client run) cfg vid w = (q, w1)" by fastforce
  have temp: "vstate (view w) temp = Some StateRollback" using copy by (auto simp: is_copy_def vstate_def)
  have 1: "shift (rolls vid temp) (view w) (view w1)" "vstate (view w1) temp = Some StateRollback"
    using shift_RemoveVolume [OF q wf] vid temp ne by (auto elim!: shift_mono simp: goes_def rolls_def)
  have "shift (rolls vid temp) (view w1) (view w')"
  proof (cases q)
    case (Inl e)
    then obtain z where "RemoveVolume (daemon_client run) cfg temp w1 = (z, w')" using r q by simp (metis prod.collapse)
    from shift_RemoveVolume(1) [OF this shift_wf [OF 1(1)]] 1(2) show ?thesis
      by (auto elim!: shift_mono simp: goes_def rolls_def)
  next
    case (Inr u)
    then obtain z where f: "finishRollback (daemon_client run) cfg temp vid w1 = (z, w')"
      using r q by (auto elim!: mapErr_cases)
    have e: "lv_effect (cfg_ThinPool cfg) (OpRemove vid) (view w) (view w1)"
      using does_ok [OF RemoveVolume_does] q Inr by auto
    obtain d where d: "content (view w) temp = Some d" using copy by (auto simp: is_copy_def content_def)
    have "is_copy (view w1) temp vid \<and> view w1 vid = None"
      using removed_phase [OF e wf copy d ne, of "view w"] ne by (auto simp: rb_phase_def others_same_def rb_ready_def is_copy_def vstate_None)
    then show ?thesis using shift_finishRollback [OF f _ shift_wf [OF 1(1)] _ names] by simp
  qed
  with 1(1) show ?thesis by (rule shift_rolls_trans)
qed

lemma shift_sweeps:
  assumes "seqE (sweepRollback (daemon_client run) cfg vid temp) (\<lambda>_. sweepRenamedRollback (daemon_client run) cfg vid) w = (r, w')"
    and wf: "wf_view (view w)" and names: "lv_name_ok temp" "lv_name_ok vid" and ne: "temp \<noteq> vid"
  shows "shift (rolls vid temp) (view w) (view w')"
  using assms(1)
proof (cases rule: seqE_cases)
  case (ok u w1)
  have "shift (rolls vid temp) (view w) (view w1)" by (rule shift_sweepRollback [OF ok(1) wf names ne])
  then show ?thesis using shift_rolls_trans shift_sweepRenamed [OF ok(2) shift_wf names(2)] by blast
qed (rule shift_sweepRollback [OF _ wf names ne])

lemma shift_BeginRollback:
  assumes "BeginRollback (daemon_client run) cfg vid sid w = (r, w')" and "wf_view (view w)"
    and "lv_name_ok vid" "lv_name_ok sid"
  shows "shift (rolls vid (RollbackTempName vid)) (view w) (view w')"
    and "r = Inr u \<Longrightarrow> is_copy (view w') (RollbackTempName vid) vid \<and> vstate (view w') vid = Some StateReady"
proof -
  let ?t = "RollbackTempName vid"
  consider "view w' = view w" "is_err r"
    | "vstate (view w) vid = Some StateReady" "view w ?t = None" "wf_view (view w')" "is_copy (view w') ?t vid"
      "\<forall>n. n \<noteq> ?t \<longrightarrow> view w' n = view w n"
    using BeginRollback_outcome [OF assms] by (elim disjE conjE) simp_all
  then have "shift (rolls vid ?t) (view w) (view w') \<and>
      (is_err r \<or> is_copy (view w') ?t vid \<and> vstate (view w') vid = Some StateReady)"
  proof cases
    case 2
    have "vstate (view w') ?t = Some StateRollback" using 2(4) by (auto simp: is_copy_def vstate_def)
    then have "shift (rolls vid ?t) (view w) (view w')"
      by (intro shift_one [OF 2(3)]) (use 2(2,5) in \<open>auto simp: rolls_def vstate_None\<close>)
    then show ?thesis using 2 by (simp add: vstate_def)
  qed (use assms(2) in simp)
  then show "shift (rolls vid ?t) (view w) (view w')"
    and "r = Inr u \<Longrightarrow> is_copy (view w') ?t vid \<and> vstate (view w') vid = Some StateReady"
    by auto
qed

lemma shift_rollback_body:
  assumes "rollback_body (daemon_client run) cfg vid sid (RollbackTempName vid) w = (r, w')" and wf: "wf_view (view w)"
    and names: "lv_name_ok vid" "lv_name_ok sid"
  shows "shift (rolls vid (RollbackTempName vid)) (view w) (view w')"
proof -
  let ?t = "RollbackTempName vid"
  have t: "lv_name_ok ?t" by (rule temp_name_ok [OF names(1)])
  note sweeps = shift_sweeps [OF _ wf t names(1) temp_name_neq(1)]
  from assms(1)[unfolded rollback_body_def] show ?thesis
  proof (cases rule: seqE_cases)
    case (err e)
    from err(1) show ?thesis by (cases rule: mapErr_cases) (auto intro: sweeps)
  next
    case (ok u w1)
    from ok(1) have 1: "shift (rolls vid ?t) (view w) (view w1)" by (cases rule: mapErr_cases) (auto intro: sweeps)
    note begun = shift_BeginRollback [OF _ shift_wf [OF 1] names]
    from ok(2) show ?thesis
    proof (cases rule: seqE_cases)
      case (err e)
      from err(1) have "shift (rolls vid ?t) (view w1) (view w')" by (cases rule: mapErr_cases) (auto intro: begun(1))
      with 1 show ?thesis by (rule shift_rolls_trans)
    next
      case (ok u w2)
      from ok(1) obtain z where b: "BeginRollback (daemon_client run) cfg vid sid w1 = (Inr z, w2)"
        by (cases rule: mapErr_cases) auto
      have "shift (rolls vid ?t) (view w2) (view w')"
        by (rule shift_replace [OF ok(2)]) (use begun [OF b] shift_wf t in auto)
      then show ?thesis using begun(1) [OF b] 1 shift_rolls_trans by blast
    qed
  qed
qed

section \<open>Recovery\<close>

lemma shift_FinishRollback:
  assumes f: "FinishRollback (daemon_client run) cfg temp vid w = (r, w')" and wf: "wf_view (view w)"
    and copy: "is_copy (view w) temp vid"
  shows "shift (\<lambda>n a b. n = vid \<and> (temp = vid \<and> a = Some StateRollback \<and> b = Some StateReady \<or>
        temp \<noteq> vid \<and> a = None \<and> b \<in> {Some StateRollback, Some StateReady}) \<or>
      n = temp \<and> temp \<noteq> vid \<and> a = Some StateRollback \<and> b = None) (view w) (view w')" (is "shift ?T _ _")
proof (cases "temp \<noteq> vid \<and> view w vid \<noteq> None")
  case True
  then show ?thesis using FinishRollback_blocked [OF f _ _ wf] wf by simp
next
  case False
  then have "temp \<noteq> vid \<longrightarrow> view w vid = None" by blast
  with copy wf obtain d where d: "rb_phase vid temp d (view w) (view w)" by (rule copy_phase)
  have ph: "rb_phase vid temp d (view w) (view w')" using FinishRollback_phase [OF f d] copy by blast
  have start: "vstate (view w) temp = Some StateRollback" "temp \<noteq> vid \<longrightarrow> vstate (view w) vid = None"
    using copy False by (auto simp: is_copy_def vstate_def)
  have "vstate (view w') vid = Some StateReady \<and> (temp \<noteq> vid \<longrightarrow> vstate (view w') temp = None) \<or>
      vstate (view w') vid = Some StateRollback \<and> (temp \<noteq> vid \<longrightarrow> vstate (view w') temp = None) \<or>
      vstate (view w') temp = Some StateRollback \<and> (temp \<noteq> vid \<longrightarrow> vstate (view w') vid = None)"
    using ph by (auto simp: rb_phase_def rb_ready_def is_copy_def vstate_def)
  then have "vstate (view w') n = vstate (view w) n \<or> ?T n (vstate (view w) n) (vstate (view w') n)" for n
    using start ph shift_others [of "{vid, temp}" "view w" "view w'" n]
    by (cases "n = vid"; cases "n = temp") (auto simp: rb_phase_def)
  then show ?thesis using ph by (simp add: shift_def rb_phase_def)
qed

lemma shift_recoverRollback:
  assumes run: "recoverRollback (daemon_client run) cfg vol byName w = (r, w')" and wf: "wf_view (view w)"
    and x: "view w (vol_ID vol) = Some x" "scanned x vol" "vol_State vol = StateRollback" and bn: "byName (vol_ID vol)"
  shows "shift (recovers byName) (view w) (view w')"
proof -
  let ?n = "vol_ID vol" and ?t = "vol_RollbackTarget vol"
  have st: "vstate (view w) ?n = Some StateRollback" and copy: "is_copy (view w) ?n ?t"
    using x by (auto simp: vstate_def scanned_def is_copy_def)
  consider "?t = []" | (drop) "?n \<noteq> ?t" "byName ?t" "RemoveVolume (daemon_client run) cfg ?n w = (r, w')"
    | (finish) "?n = ?t \<or> \<not> byName ?t" "FinishRollback (daemon_client run) cfg ?n ?t w = (r, w')"
    using run by (auto simp: recoverRollback_def Let_def split: if_splits)
  then show ?thesis
  proof cases
    case drop
    from shift_RemoveVolume(1) [OF drop(3) wf] show ?thesis
      by (rule shift_mono) (use st bn in \<open>auto simp: goes_def recovers_def\<close>)
  next
    case finish
    from shift_FinishRollback [OF finish(2) wf copy] show ?thesis
      by (rule shift_mono) (use bn finish(1) in \<open>auto simp: recovers_def\<close>)
  qed (use run wf in \<open>simp add: recoverRollback_def\<close>)
qed

lemma shift_recover_one:
  assumes one: "recover_one (daemon_client run) cfg byName vol w = (r, w')" and wf: "wf_view (view w)"
    and x: "view w (vol_ID vol) = Some x" "scanned x vol" and bn: "byName (vol_ID vol)" and name: "lv_name_ok (vol_ID vol)"
  shows "shift (recovers byName) (view w) (view w')"
proof -
  let ?n = "vol_ID vol"
  have st: "vstate (view w) ?n = Some (vol_State vol)" using x by (simp add: vstate_def scanned_def)
  have removed: "shift (recovers byName) (view w) (view w')"
    if "RemoveVolume (daemon_client run) cfg ?n w = (r, w')" "vol_State vol \<in> {StateCreating, StateDeleting, StateIncoming}"
    by (rule shift_mono [OF shift_RemoveVolume(1) [OF that(1) wf]]) (use st bn that(2) in \<open>auto simp: goes_def recovers_def\<close>)
  have active: "shift (recovers byName) (view w) (view w')"
    if "mapErr OfLvm (ActivateLogicalVolume (daemon_client run) (lv_target cfg ?n) (activate_opts False)) w = (r, w')"
    by (rule does_cases [OF activate_raw_does that]) (use wf effect_active(1,2) [OF disjI1 wf] in \<open>auto intro: shift_same\<close>)
  show ?thesis
  proof (cases "vol_State vol")
    case StateSnapshot
    then obtain y where "view w' = (view w)(?n \<mapsto> y)" "one_state (o_tags y)" "obj_state y = Some StateSnapshot"
      using one recoverSnapshot_outcome [OF _ wf x] by (auto simp: recover_one_def)
    then show ?thesis using wf st StateSnapshot by (intro shift_same) (auto simp: wf_view_upd fun_upd_idem)
  next
    case StatePushing
    then have "AbortPush (daemon_client run) cfg ?n w = (r, w')" using one by (simp add: recover_one_def)
    from shift_AbortPush [OF this wf name] show ?thesis
      by (rule shift_from) (use StatePushing bn st in \<open>auto simp: goes_def recovers_def\<close>)
  next
    case StateRollback
    then show ?thesis using one shift_recoverRollback [OF _ wf x] bn by (simp add: recover_one_def)
  qed (use one removed active wf in \<open>simp_all add: recover_one_def\<close>)
qed

lemma shift_recover_each:
  assumes "recover_each (daemon_client run) cfg byName vols w = (failed, w')" and "wf_view (view w)"
    and "distinct (map vol_ID vols)"
    and "\<And>vol. vol \<in> set vols \<Longrightarrow> byName (vol_ID vol) \<and> lv_name_ok (vol_ID vol) \<and>
      (\<exists>x. view w (vol_ID vol) = Some x \<and> scanned x vol)"
  shows "shift (recovers byName) (view w) (view w')"
  using assms
proof (induction vols arbitrary: w failed)
  case (Cons vol vols)
  obtain r w1 where one: "recover_one (daemon_client run) cfg byName vol w = (r, w1)" by fastforce
  obtain fs where rest: "recover_each (daemon_client run) cfg byName vols w1 = (fs, w')"
    using Cons.prems(1) one by (auto split: prod.splits)
  have 1: "shift (recovers byName) (view w) (view w1)"
    using shift_recover_one [OF one Cons.prems(2)] Cons.prems(4) [of vol] by auto
  have "rule_ok byName vol (is_err r) (view w) (view w1)"
    using recover_one_rule [OF one Cons.prems(2)] Cons.prems(4) [of vol] by auto
  then have alone: "leaves_alone byName {vol_ID vol} (view w) (view w1)" by (simp add: rule_ok_def)
  have "shift (recovers byName) (view w1) (view w')"
  proof (rule Cons.IH [OF rest shift_wf [OF 1]])
    show "distinct (map vol_ID vols)" using Cons.prems(3) by simp
    show "byName (vol_ID u) \<and> lv_name_ok (vol_ID u) \<and> (\<exists>x. view w1 (vol_ID u) = Some x \<and> scanned x u)"
      if u: "u \<in> set vols" for u
    proof -
      have "same (vol_ID u) (view w) (view w1)"
        using alone Cons.prems(3) Cons.prems(4) [of u] u by (auto simp: leaves_alone_def image_iff)
      then show ?thesis using Cons.prems(4) [of u] u scanned_same by auto
    qed
  qed
  with 1 show ?case by (rule shift_trans) (auto simp: recovers_def split: if_splits)
qed simp

lemma shift_Recover:
  assumes "Recover (daemon_client run) cfg w = (r, w')" and wf: "wf_view (view w)"
    and names: "\<forall>n. view w n \<noteq> None \<longrightarrow> lv_name_ok n"
  shows "shift (recovers (\<lambda>n. n \<in> pool_volumes (cfg_ThinPool cfg) (view w))) (view w) (view w')"
  using assms(1) [unfolded Recover_def]
proof (cases rule: seqE_cases)
  case (err e)
  from err(1) show ?thesis by (cases rule: ListVolumes_cases) (use wf in auto)
next
  case (ok vols w1)
  from ok(1) have l: "view w1 = view w" "distinct (map vol_ID vols)"
      "set (map vol_ID vols) = pool_volumes (cfg_ThinPool cfg) (view w)"
      "\<forall>vol \<in> set vols. \<exists>x. view w (vol_ID vol) = Some x \<and> vol_shows x vol"
    by (cases rule: ListVolumes_cases; fastforce)+
  let ?bn = "\<lambda>n. n \<in> pool_volumes (cfg_ThinPool cfg) (view w)"
  obtain failed where run: "recover_each (daemon_client run) cfg ?bn vols w1 = (failed, w')"
    using ok(2) unfolding l(3) by (auto simp: Let_def split: prod.splits)
  have "?bn (vol_ID vol) \<and> lv_name_ok (vol_ID vol) \<and> (\<exists>x. view w1 (vol_ID vol) = Some x \<and> scanned x vol)"
    if "vol \<in> set vols" for vol
    using that l(1,4) names scanned_shows by (auto simp flip: l(3))
  from shift_recover_each [OF run _ l(2) this] show ?thesis using wf l(1) by simp
qed

end

end
