(* ===== verification/ServerRuns.thy ===== *)
theory ServerRuns
  imports Lifecycle ApiStreams
begin

text \<open>
  The daemon as a state machine. A state is a server with its host and its pending jobs; the next
  event is a request, a piece of a pending job, the expiry of a transfer's grace period, or a restart
  of the process on the same host. Requests and jobs come in any order, each runs its calls in one
  sequence. Where the process stops in the middle of one, the commands that were to follow change
  nothing, which is what the lvm contract allows of failed commands.
\<close>

section \<open>Events\<close>

record 'w daemon =
  dm_hash :: hash
  dm_io :: "'w devio"
  dm_cancelled :: "u64 \<Rightarrow> err option"
  dm_run :: "'w runner"
  dm_cfg :: Config
  dm_dial :: "'w dial"
  dm_send :: "ExportResponse \<Rightarrow> ('w, err, unit) go"
  dm_build :: "string option"

abbreviation dm_client :: "'w daemon \<Rightarrow> 'w Client" where
  "dm_client d \<equiv> daemon_client (dm_run d)"

datatype request =
    ReqCreateVolume string u64 string
  | ReqListVolumes
  | ReqAttach string
  | ReqDetach string
  | ReqDeleteVolume string bool string
  | ReqCreateSnapshot string string
  | ReqDeleteSnapshot string
  | ReqResizeVolume string u64
  | ReqRollbackVolume string string
  | ReqCreateVolumeFromSnapshot string string string
  | ReqExport string
  | ReqPushVolume string string string string
  | ReqPushSnapshot string string string string
  | ReqPrepareReceive string string u64
  | ReqReceive "ReceiveRequest list"
  | ReqCommitTransfer string bytes
  | ReqAbortTransfer string
  | ReqQueryVolume string
  | ReqGetNodeStatus

datatype event = Request request | Work job | Expiry string | Restart

text \<open>The handler a request is dispatched to; \<open>GetOperation\<close> and \<open>QueryTransfer\<close> only read the tables.\<close>

fun handle :: "'w daemon \<Rightarrow> request \<Rightarrow> 'w server \<Rightarrow> 'w server option" where
  "handle d (ReqCreateVolume vid n op) s = Some (snd (api_CreateVolume (dm_client d) (dm_cfg d) vid n op s))"
| "handle d ReqListVolumes s = Some (snd (api_ListVolumes (dm_client d) (dm_cfg d) s))"
| "handle d (ReqAttach vid) s = Some (snd (api_Attach (dm_client d) (dm_cfg d) vid s))"
| "handle d (ReqDetach vid) s = Some (snd (api_Detach (dm_client d) (dm_cfg d) vid s))"
| "handle d (ReqDeleteVolume vid force op) s = Some (snd (api_DeleteVolume (dm_client d) (dm_cfg d) vid force op s))"
| "handle d (ReqCreateSnapshot vid sid) s = Some (snd (api_CreateSnapshot (dm_client d) (dm_cfg d) vid sid s))"
| "handle d (ReqDeleteSnapshot sid) s = Some (snd (api_DeleteSnapshot (dm_client d) (dm_cfg d) sid s))"
| "handle d (ReqResizeVolume vid n) s = Some (snd (api_ResizeVolume (dm_client d) (dm_cfg d) vid n s))"
| "handle d (ReqRollbackVolume vid sid) s = Some (snd (RollbackVolume (dm_client d) (dm_cfg d) vid sid s))"
| "handle d (ReqCreateVolumeFromSnapshot vid sid op) s =
     Some (snd (CreateVolumeFromSnapshot (dm_client d) (dm_cfg d) vid sid op s))"
| "handle d (ReqExport sid) s =
     Some (snd (api_Export (dm_hash d) (dm_io d) (dm_cancelled d) (dm_client d) (dm_cfg d) (\<lambda>msg. on_host (dm_send d msg)) sid s))"
| "handle d (ReqPushVolume vid tid target op) s = Some (snd (PushVolume (dm_client d) (dm_cfg d) vid tid target op s))"
| "handle d (ReqPushSnapshot sid tid target op) s = Some (snd (PushSnapshot (dm_client d) (dm_cfg d) sid tid target op s))"
| "handle d (ReqPrepareReceive vid tid n) s = Some (snd (api_PrepareReceive (dm_client d) (dm_cfg d) vid tid n s))"
| "handle d (ReqReceive msgs) s = map_option snd (api_Receive (dm_hash d) (dm_io d) msgs s)"
| "handle d (ReqCommitTransfer tid digest) s =
     map_option snd (CommitTransfer (dm_hash d) (dm_client d) (dm_cfg d) (dm_io d) tid digest s)"
| "handle d (ReqAbortTransfer tid) s = Some (AbortTransfer (dm_client d) (dm_cfg d) tid s)"
| "handle d (ReqQueryVolume vid) s = Some (snd (QueryVolume (dm_client d) (dm_cfg d) vid s))"
| "handle d ReqGetNodeStatus s = Some (snd (api_GetNodeStatus (dm_build d) (dm_client d) (dm_cfg d) s))"

text \<open>
  A piece of a job, and whether the job is over: a resolver makes one attempt and waits, every other
  job runs to its end.
\<close>

fun work :: "'w daemon \<Rightarrow> job \<Rightarrow> 'w server \<Rightarrow> bool \<times> 'w server" where
  "work d (RunCreate vid n op) s = (True, runCreate (dm_client d) (dm_cfg d) vid n op s)"
| "work d (RunDelete vid snapshots op) s = (True, runDelete (dm_client d) (dm_cfg d) vid snapshots op s)"
| "work d (RunCopyFromSnapshot vid sid op n) s =
     (True, runCopyFromSnapshot (dm_hash d) (dm_io d) (dm_cancelled d) (dm_client d) (dm_cfg d) vid sid op n s)"
| "work d (RunPush vid tid target op) s =
     (True, runPush (dm_hash d) (dm_io d) (dm_cancelled d) (dm_client d) (dm_cfg d) (dm_dial d) vid tid target op s)"
| "work d (RunSnapshotPush sid tid target op) s =
     (True, runSnapshotPush (dm_hash d) (dm_io d) (dm_cancelled d) (dm_client d) (dm_cfg d) (dm_dial d) sid tid target op s)"
| "work d (ResolveUntilSettled vid tid target) s = tryResolve (dm_client d) (dm_cfg d) (dm_dial d) vid tid target s"
| "work d ResolveRecovered s = (True, resolveRecovered (dm_client d) (dm_cfg d) s)"

text \<open>
  Names lvm admits: where the volumes of the group are read as a whole, at a restart and for the resolvers
  after it, every name in it is one.
\<close>

definition lvm_names :: "lvview \<Rightarrow> bool" where
  "lvm_names v \<longleftrightarrow> (\<forall>n. v n \<noteq> None \<longrightarrow> lv_name_ok n)"

inductive server_step :: "'w daemon \<Rightarrow> ('w \<Rightarrow> lvview) \<Rightarrow> event \<Rightarrow> 'w server \<Rightarrow> 'w server \<Rightarrow> bool" for d view where
  request: "handle d q s = Some s' \<Longrightarrow> server_step d view (Request q) s s'"
| finished: "sv_jobs s = xs @ j # ys \<Longrightarrow> (j = ResolveRecovered \<longrightarrow> lvm_names (view (sv_host s))) \<Longrightarrow>
    work d j (s\<lparr>sv_jobs := xs @ ys\<rparr>) = (True, s') \<Longrightarrow> server_step d view (Work j) s s'"
| retried: "j \<in> set (sv_jobs s) \<Longrightarrow> work d j s = (False, s') \<Longrightarrow> server_step d view (Work j) s s'"
| expired: "grace_expired (dm_client d) (dm_cfg d) tid (sv_transfers s, sv_host s) = (t, w) \<Longrightarrow>
    server_step d view (Expiry tid) s (s\<lparr>sv_transfers := t, sv_host := w\<rparr>)"
| restarted: "lvm_names (view (sv_host s)) \<Longrightarrow> Recover (dm_client d) (dm_cfg d) (sv_host s) = (Inr failed, w) \<Longrightarrow>
    Register (\<lambda>_. Inr ()) (dm_cfg d) w = Inr (creds, s') \<Longrightarrow> server_step d view Restart s s'"

inductive daemon_run :: "'w daemon \<Rightarrow> ('w \<Rightarrow> lvview) \<Rightarrow> 'w \<Rightarrow> 'w server \<Rightarrow> bool" for d view w where
  booted: "Register (\<lambda>_. Inr ()) (dm_cfg d) w = Inr (creds, s) \<Longrightarrow> daemon_run d view w s"
| stepped: "daemon_run d view w s \<Longrightarrow> server_step d view e s s' \<Longrightarrow> daemon_run d view w s'"

text \<open>What a pending job is about: its operation, the snapshot it holds, the volumes it will remove, the names it looks up.\<close>

fun job_ops :: "job \<Rightarrow> string list" where
  "job_ops (RunCreate vid n op) = [op]"
| "job_ops (RunDelete vid snapshots op) = [op]"
| "job_ops (RunCopyFromSnapshot vid sid op n) = [op]"
| "job_ops (RunPush vid tid target op) = [op]"
| "job_ops (RunSnapshotPush sid tid target op) = [op]"
| "job_ops _ = []"

fun job_holds :: "job \<Rightarrow> string list" where
  "job_holds (RunCopyFromSnapshot vid sid op n) = [sid]"
| "job_holds (RunSnapshotPush sid tid target op) = [sid]"
| "job_holds _ = []"

fun job_removes :: "job \<Rightarrow> string list" where
  "job_removes (RunDelete vid snapshots op) = snapshots @ [vid]"
| "job_removes _ = []"

fun job_names :: "job \<Rightarrow> string list" where
  "job_names (RunCopyFromSnapshot vid sid op n) = [vid, sid]"
| "job_names (RunPush vid tid target op) = [vid]"
| "job_names (RunSnapshotPush sid tid target op) = [sid]"
| "job_names (ResolveUntilSettled vid tid target) = [vid]"
| "job_names _ = []"

definition of_jobs :: "(job \<Rightarrow> string list) \<Rightarrow> job list \<Rightarrow> string list" where
  "of_jobs f js = concat (map f js)"

text \<open>
  A copy job checks its target name when it is accepted, not when it runs. Where the name was taken since,
  its \<^verbatim>\<open>lvcreate\<close> fails and it removes what holds the name. It disturbs another part of the daemon where
  that part relies on the volume of this name: a pending job holds it as a snapshot, a pending job is to delete
  it, or a live transfer fills it. In an orderly run no copy job does so.
\<close>

definition transfer_volumes :: "Transfers \<Rightarrow> string set" where
  "transfer_volumes t = {ses_volumeID x | tid x. the_session t tid = Some x}"

fun copies_into :: "string \<Rightarrow> event \<Rightarrow> bool" where
  "copies_into n (Work (RunCopyFromSnapshot vid sid op k)) \<longleftrightarrow> vid = n"
| "copies_into n _ \<longleftrightarrow> False"

definition disturbs :: "event \<Rightarrow> 'w server \<Rightarrow> bool" where
  "disturbs e s \<longleftrightarrow>
     (\<exists>n. copies_into n e \<and>
        (Pinned (sv_pins s) n \<or> n \<in> set (of_jobs job_removes (sv_jobs s)) \<or> n \<in> transfer_volumes (sv_transfers s)))"

inductive orderly_run :: "'w daemon \<Rightarrow> ('w \<Rightarrow> lvview) \<Rightarrow> 'w \<Rightarrow> 'w server \<Rightarrow> bool" for d view w where
  started: "Register (\<lambda>_. Inr ()) (dm_cfg d) w = Inr (creds, s) \<Longrightarrow> orderly_run d view w s"
| continued: "orderly_run d view w s \<Longrightarrow> server_step d view e s s' \<Longrightarrow> \<not> disturbs e s \<Longrightarrow> orderly_run d view w s'"

section \<open>The specification\<close>

text \<open>
  Which volume an event may move from which state to which; whatever is not listed stays as it is. The
  volume of a transfer is the one its session names. A copy that fails removes whatever has its target name.
\<close>

fun permits_request :: "'w server \<Rightarrow> request \<Rightarrow> transition" where
  "permits_request s (ReqAttach vid) = goes vid {Some StateReady} {Some StateAttached}"
| "permits_request s (ReqDetach vid) = goes vid {Some StateAttached} {Some StateReady}"
| "permits_request s (ReqDeleteVolume vid force op) =
     (\<lambda>n a b. goes vid {Some StateReady, Some StateRetired} {Some StateDeleting} n a b \<or>
        force \<and> a = Some StateSnapshot \<and> b = Some StateDeleting \<and> \<not> Pinned (sv_pins s) n)"
| "permits_request s (ReqCreateSnapshot vid sid) = goes sid {None} {Some StateSnapshot}"
| "permits_request s (ReqDeleteSnapshot sid) =
     (\<lambda>n a b. goes sid {Some StateSnapshot} {None} n a b \<and> \<not> Pinned (sv_pins s) n)"
| "permits_request s (ReqRollbackVolume vid sid) = rolls vid (RollbackTempName vid)"
| "permits_request s (ReqPushVolume vid tid target op) = goes vid {Some StateReady} {Some StatePushing}"
| "permits_request s (ReqPrepareReceive vid tid n) = goes vid {None} {Some StateIncoming}"
| "permits_request s (ReqCommitTransfer tid digest) =
     (\<lambda>n a b. \<exists>x. the_session (sv_transfers s) tid = Some x \<and>
        goes (ses_volumeID x) {Some StateIncoming} {None, Some StateReady} n a b)"
| "permits_request s (ReqAbortTransfer tid) =
     (\<lambda>n a b. \<exists>x. the_session (sv_transfers s) tid = Some x \<and> goes (ses_volumeID x) {Some StateIncoming} {None} n a b)"
| "permits_request s _ = stays"

fun permits_job :: "job \<Rightarrow> transition" where
  "permits_job (RunCreate vid n op) = goes vid {None} {Some StateCreating, Some StateReady}"
| "permits_job (RunDelete vid snapshots op) =
     (\<lambda>n a b. n \<in> set (snapshots @ [vid]) \<and> a = Some StateDeleting \<and> b = None)"
| "permits_job (RunCopyFromSnapshot vid sid op n) =
     (\<lambda>m a b. goes vid {None} {Some StateCreating, Some StateReady} m a b \<or> goes vid UNIV {None} m a b)"
| "permits_job (RunPush vid tid target op) =
     goes vid {Some StatePushing, Some StateCommitting} {Some StateCommitting, Some StateReady, Some StateRetired}"
| "permits_job (ResolveUntilSettled vid tid target) =
     goes vid {Some StatePushing, Some StateCommitting} {Some StateReady, Some StateRetired}"
| "permits_job _ = stays"

fun permits :: "'w server \<Rightarrow> event \<Rightarrow> transition" where
  "permits s (Request q) = permits_request s q"
| "permits s (Work j) = permits_job j"
| "permits s (Expiry tid) = permits_request s (ReqAbortTransfer tid)"
| "permits s Restart =
     (\<lambda>n a b. a \<in> Some ` {StateCreating, StateDeleting, StateIncoming, StateRollback} \<and> b = None \<or>
        a \<in> Some ` {StatePushing, StateRollback} \<and> b = Some StateReady \<or>
        a = None \<and> b \<in> Some ` {StateRollback, StateReady})"

section \<open>The invariant\<close>

definition running :: "Table \<Rightarrow> string set" where
  "running t = {op. \<exists>p. t op = Some p \<and> op_Phase p \<in> {Pending, Progressing}}"

text \<open>
  An operation runs exactly while one job of it is pending; a snapshot is pinned exactly as often as
  pending jobs hold it, and is there; what a pending delete will remove is marked for it and for no
  other; a live transfer has an incoming volume of its own; no name stays reserved.
\<close>

definition ops_match :: "Table \<Rightarrow> job list \<Rightarrow> bool" where
  "ops_match t js \<longleftrightarrow> distinct (of_jobs job_ops js) \<and> set (of_jobs job_ops js) = running t \<and> t [] = None"

definition pins_match :: "(string \<Rightarrow> State option) \<Rightarrow> ExportPins \<Rightarrow> job list \<Rightarrow> bool" where
  "pins_match st p js \<longleftrightarrow>
     pins_ok p \<and> (\<forall>k. pin_count p k = int (count_list (of_jobs job_holds js) k)) \<and>
     (\<forall>n \<in> set (of_jobs job_holds js). st n = Some StateSnapshot)"

definition removals_match :: "(string \<Rightarrow> State option) \<Rightarrow> job list \<Rightarrow> bool" where
  "removals_match st js \<longleftrightarrow>
     distinct (of_jobs job_removes js) \<and> (\<forall>n \<in> set (of_jobs job_removes js). st n = Some StateDeleting)"

definition sessions_match :: "int \<Rightarrow> (string \<Rightarrow> State option) \<Rightarrow> Transfers \<Rightarrow> bool" where
  "sessions_match limit st t \<longleftrightarrow>
     table_ok limit (\<lambda>_. False) t \<and>
     (\<forall>tid x. the_session t tid = Some x \<longrightarrow> st (ses_volumeID x) = Some StateIncoming) \<and>
     (\<forall>tid tid' x x'. the_session t tid = Some x \<longrightarrow> the_session t tid' = Some x' \<longrightarrow>
        ses_volumeID x = ses_volumeID x' \<longrightarrow> tid = tid')"

text \<open>The part of the invariant that is about the tables alone.\<close>

definition tables_ok :: "'w server \<Rightarrow> bool" where
  "tables_ok s \<longleftrightarrow>
     ops_match (sv_ops s) (sv_jobs s) \<and> pins_ok (sv_pins s) \<and>
     (\<forall>k. pin_count (sv_pins s) k = int (count_list (of_jobs job_holds (sv_jobs s)) k)) \<and>
     sv_reserved s = newNameReservations"

definition server_ok :: "('w \<Rightarrow> lvview) \<Rightarrow> Config \<Rightarrow> 'w server \<Rightarrow> bool" where
  "server_ok view cfg s \<longleftrightarrow>
     (let st = vstate (view (sv_host s)) in
      wf_view (view (sv_host s)) \<and> ops_match (sv_ops s) (sv_jobs s) \<and> pins_match st (sv_pins s) (sv_jobs s) \<and>
      removals_match st (sv_jobs s) \<and> sessions_match (cfg_MaxInboundTransfers cfg) st (sv_transfers s) \<and>
      list_all lv_name_ok (of_jobs job_names (sv_jobs s)) \<and> sv_reserved s = newNameReservations)"

section \<open>The surroundings\<close>

text \<open>
  Calls that leave the volumes of this host alone, and a daemon whose surroundings do: device nodes, the
  calls to other nodes, the stream of an export and the question for the version of lvm.
\<close>

definition quiet :: "('w \<Rightarrow> lvview) \<Rightarrow> ('w, 'e, 'a) go \<Rightarrow> bool" where
  "quiet view m \<longleftrightarrow> (\<forall>st. keeps (\<lambda>w. wf_view (view w) \<and> vstate (view w) = st) m)"

definition quiet_peer :: "('w \<Rightarrow> lvview) \<Rightarrow> 'w peer \<Rightarrow> bool" where
  "quiet_peer view p \<longleftrightarrow>
     quiet view (p_Receive p) \<and> quiet view (p_CloseAndRecv p) \<and> (\<forall>msg. quiet view (p_Send p msg)) \<and>
     (\<forall>x. quiet view (p_QueryTransfer p x) \<and> quiet view (p_AbortTransfer p x) \<and> quiet view (p_QueryVolume p x) \<and>
        (\<forall>digest. quiet view (p_CommitTransfer p x digest)))"

definition daemon_ok :: "'w daemon \<Rightarrow> ('w \<Rightarrow> lvview) \<Rightarrow> bool" where
  "daemon_ok d view \<longleftrightarrow>
     node (dm_run d) (dm_cfg d) view \<and> 0 \<le> cfg_MaxInboundTransfers (dm_cfg d) \<and> io_frame view (dm_io d) \<and>
     quiet view (GetVersion (dm_client d) no_common) \<and> (\<forall>msg. quiet view (dm_send d msg)) \<and>
     (\<forall>target. quiet view (dm_dial d target) \<and>
        (\<forall>w p w'. dm_dial d target w = (Inr p, w') \<longrightarrow> quiet_peer view p))"

end
