(* ===== verification/ServerSafety.thy ===== *)
theory ServerSafety
  imports ServerRuns
begin

text \<open>
  The events of the daemon keep its invariant and move volumes only as the specification permits:
  first the tables, then one lemma per request and per job.
\<close>

declare on_host_simps [simp del]

text \<open>Updates of the server, in the order of its fields.\<close>

lemma server_updates [simp]:
  fixes s :: "'w server"
  shows
  "s\<lparr>sv_ops := t, sv_host := w\<rparr> = s\<lparr>sv_host := w, sv_ops := t\<rparr>"
  "s\<lparr>sv_pins := p, sv_host := w\<rparr> = s\<lparr>sv_host := w, sv_pins := p\<rparr>"
  "s\<lparr>sv_transfers := x, sv_host := w\<rparr> = s\<lparr>sv_host := w, sv_transfers := x\<rparr>"
  "s\<lparr>sv_reserved := r, sv_host := w\<rparr> = s\<lparr>sv_host := w, sv_reserved := r\<rparr>"
  "s\<lparr>sv_jobs := js, sv_host := w\<rparr> = s\<lparr>sv_host := w, sv_jobs := js\<rparr>"
  "s\<lparr>sv_pins := p, sv_ops := t\<rparr> = s\<lparr>sv_ops := t, sv_pins := p\<rparr>"
  "s\<lparr>sv_transfers := x, sv_ops := t\<rparr> = s\<lparr>sv_ops := t, sv_transfers := x\<rparr>"
  "s\<lparr>sv_reserved := r, sv_ops := t\<rparr> = s\<lparr>sv_ops := t, sv_reserved := r\<rparr>"
  "s\<lparr>sv_jobs := js, sv_ops := t\<rparr> = s\<lparr>sv_ops := t, sv_jobs := js\<rparr>"
  "s\<lparr>sv_transfers := x, sv_pins := p\<rparr> = s\<lparr>sv_pins := p, sv_transfers := x\<rparr>"
  "s\<lparr>sv_reserved := r, sv_pins := p\<rparr> = s\<lparr>sv_pins := p, sv_reserved := r\<rparr>"
  "s\<lparr>sv_jobs := js, sv_pins := p\<rparr> = s\<lparr>sv_pins := p, sv_jobs := js\<rparr>"
  "s\<lparr>sv_reserved := r, sv_transfers := x\<rparr> = s\<lparr>sv_transfers := x, sv_reserved := r\<rparr>"
  "s\<lparr>sv_jobs := js, sv_transfers := x\<rparr> = s\<lparr>sv_transfers := x, sv_jobs := js\<rparr>"
  "s\<lparr>sv_jobs := js, sv_reserved := r\<rparr> = s\<lparr>sv_reserved := r, sv_jobs := js\<rparr>"
  by simp_all

named_theorems job_simps "what pending jobs are about"

lemma of_jobs_simps [simp, job_simps]:
  "of_jobs f [] = []" "of_jobs f (j # js) = f j @ of_jobs f js" "of_jobs f (xs @ ys) = of_jobs f xs @ of_jobs f ys"
  by (simp_all add: of_jobs_def)

section \<open>Operations\<close>

lemma running_Begin: "ops_Begin t op = Inr t' \<Longrightarrow> running t' = insert op (running t) \<and> op \<notin> running t"
  by (auto simp: ops_Begin_def running_def split: if_splits)

lemma running_Progress: "op \<in> running t \<Longrightarrow> running (ops_Progress t op n) = running t"
  by (auto simp: ops_Progress_def running_def split: if_splits)

lemma running_ends: "running (ops_Done t op) = running t - {op}" "running (ops_Fail t op reason) = running t - {op}"
  by (auto simp: ops_Done_def ops_Fail_def running_def split: if_splits)

lemma ops_None:
  "ops_Begin t op = Inr t' \<Longrightarrow> op \<noteq> [] \<Longrightarrow> t' [] = t []"
  "t [] = None \<Longrightarrow> ops_Progress t op n [] = None" "t [] = None \<Longrightarrow> ops_Done t op [] = None"
  "t [] = None \<Longrightarrow> ops_Fail t op reason [] = None"
  by (auto simp: ops_Begin_def ops_Progress_def ops_Done_def ops_Fail_def split: if_splits)

lemma ops_empty: "t [] = None \<Longrightarrow> ops_Done t [] = t" "t [] = None \<Longrightarrow> ops_Fail t [] reason = t"
  by (simp_all add: ops_Done_def ops_Fail_def)

lemma ops_match_begun:
  assumes "ops_match t js" and "ops_Begin t op = Inr t'" and "op \<noteq> []"
  shows "running t' = insert op (running t)" and "ops_match (ops_Fail t' op reason) js"
    and "job_ops j = [op] \<Longrightarrow> ops_match t' (js @ [j])"
  using assms running_Begin [OF assms(2)] ops_None(1) [OF assms(2,3)]
  by (auto simp: ops_match_def running_ends ops_None(4))

section \<open>Pins\<close>

lemma pin_count_Acquire: "pin_count (snd (Acquire p k)) j = pin_count p j + (if j = k then 1 else 0)"
  by (simp add: Acquire_def Let_def pin_count_def)

lemma pin_count_Release:
  "pins_ok p \<Longrightarrow> 0 < pin_count p k \<Longrightarrow> pin_count (snd (Release p k)) j = pin_count p j - (if j = k then 1 else 0)"
  by (auto simp: Release_def Let_def pin_count_def split: option.splits)

lemma pins_ext:
  assumes "pins_ok p" and "pins_ok q" and "\<And>k. pin_count p k = pin_count q k"
  shows "p = q"
proof
  fix k
  show "p k = q k" using assms(1,2) assms(3) [of k]
    by (cases "p k"; cases "q k") (force simp: pins_ok_def pin_count_def)+
qed

lemma Release_Acquire:
  assumes "pins_ok p"
  shows "snd (Release (snd (Acquire p k)) k) = p"
proof (rule pins_ext)
  have a: "pins_ok (snd (Acquire p k))" using assms by (rule export_pins.invar_acquire)
  then show "pins_ok (snd (Release (snd (Acquire p k)) k))" by (rule export_pins.invar_release)
  have "0 \<le> pin_count p k" using assms by (auto simp: pins_ok_def pin_count_def dest: less_imp_le split: option.splits)
  then show "pin_count (snd (Release (snd (Acquire p k)) k)) j = pin_count p j" for j
    using pin_count_Release [OF a] by (auto simp: pin_count_Acquire)
qed (rule assms)

lemma pins_match_hold:
  assumes "pins_match st p js" and "job_holds j = [k]" and "st k = Some StateSnapshot"
  shows "pins_match st (snd (Acquire p k)) (js @ [j])"
  using assms export_pins.invar_acquire by (auto simp: pins_match_def pin_count_Acquire)

lemma pins_match_drop:
  assumes "pins_match st p (xs @ j # ys)" and "job_holds j = [k]"
  shows "pins_match st (snd (Release p k)) (xs @ ys)"
proof -
  have "0 < pin_count p k" using assms by (simp add: pins_match_def)
  then show ?thesis
    using assms export_pins.invar_release by (auto simp: pins_match_def pin_count_Release)
qed

lemma pins_match_held: "pins_match st p js \<Longrightarrow> n \<in> set (of_jobs job_holds js) \<Longrightarrow> Pinned p n"
  using count_list_0_iff [of "of_jobs job_holds js" n] by (auto simp: pins_match_def Pinned_def)

section \<open>States the tables rely on\<close>

text \<open>Moves that take nothing away from the jobs and the transfers.\<close>

definition harmless :: "ExportPins \<Rightarrow> transition \<Rightarrow> bool" where
  "harmless p T \<longleftrightarrow>
     (\<forall>n a b. T n a b \<longrightarrow> a \<noteq> Some StateDeleting \<and> a \<noteq> Some StateIncoming \<and> (a = Some StateSnapshot \<longrightarrow> \<not> Pinned p n))"

lemma harmless_keeps:
  assumes "shift T v v'" and "harmless p T"
  shows "vstate v n = Some StateDeleting \<Longrightarrow> vstate v' n = Some StateDeleting"
    and "vstate v n = Some StateIncoming \<Longrightarrow> vstate v' n = Some StateIncoming"
    and "vstate v n = Some StateSnapshot \<Longrightarrow> Pinned p n \<Longrightarrow> vstate v' n = Some StateSnapshot"
  using assms unfolding shift_def harmless_def by metis+

lemma harmless_pins:
  assumes "shift T v v'" and "harmless p T" and "pins_match (vstate v) p js"
  shows "pins_match (vstate v') p js"
  using assms(3) harmless_keeps(3) [OF assms(1,2)] pins_match_held [OF assms(3)] by (auto simp: pins_match_def)

lemma harmless_removals:
  "shift T v v' \<Longrightarrow> harmless p T \<Longrightarrow> removals_match (vstate v) js \<Longrightarrow> removals_match (vstate v') js"
  using harmless_keeps(1) by (auto simp: removals_match_def)

lemma harmless_sessions:
  "shift T v v' \<Longrightarrow> harmless p T \<Longrightarrow> sessions_match m (vstate v) t \<Longrightarrow> sessions_match m (vstate v') t"
  using harmless_keeps(2) unfolding sessions_match_def by metis

lemma server_ok_host:
  assumes "server_ok view cfg s" and "shift T (view (sv_host s)) (view w)" and "harmless (sv_pins s) T"
  shows "server_ok view cfg (s\<lparr>sv_host := w\<rparr>)"
  using assms(1) harmless_pins [OF assms(2,3)] harmless_removals [OF assms(2,3)] harmless_sessions [OF assms(2,3)]
    shift_wf [OF assms(2)]
  by (simp add: server_ok_def Let_def)

lemma harmless_goes: "a \<notin> {Some StateDeleting, Some StateIncoming, Some StateSnapshot} \<Longrightarrow> harmless p (goes n {a} B)"
  by (auto simp: harmless_def goes_def)

lemma harmless_stays [simp]: "harmless p stays"
  by (simp add: harmless_def stays_def)

section \<open>The daemon\<close>

locale served =
  fixes d :: "'w daemon" and view :: "'w \<Rightarrow> lvview"
  assumes surroundings: "daemon_ok d view"

sublocale served \<subseteq> node "dm_run d" "dm_cfg d" view
  using surroundings by (simp add: daemon_ok_def)

text \<open>An event that keeps the invariant and does what is permitted.\<close>

definition proper :: "'w daemon \<Rightarrow> ('w \<Rightarrow> lvview) \<Rightarrow> event \<Rightarrow> 'w server \<Rightarrow> 'w server \<Rightarrow> bool" where
  "proper d view e s s' \<longleftrightarrow>
     server_ok view (dm_cfg d) s' \<and> shift (permits s e) (view (sv_host s)) (view (sv_host s'))"

lemma proper_host:
  assumes "server_ok view (dm_cfg d) s" and "shift (permits s e) (view (sv_host s)) (view w)"
    and "harmless (sv_pins s) (permits s e)"
  shows "proper d view e s (s\<lparr>sv_host := w\<rparr>)"
  using assms server_ok_host [OF assms] by (simp add: proper_def)

lemma proper_refl: "server_ok view (dm_cfg d) s \<Longrightarrow> proper d view e s s"
  by (simp add: proper_def server_ok_def Let_def)

lemma server_okD:
  assumes "server_ok view cfg s"
  shows "wf_view (view (sv_host s))" and "ops_match (sv_ops s) (sv_jobs s)"
    and "pins_match (vstate (view (sv_host s))) (sv_pins s) (sv_jobs s)"
    and "removals_match (vstate (view (sv_host s))) (sv_jobs s)"
    and "sessions_match (cfg_MaxInboundTransfers cfg) (vstate (view (sv_host s))) (sv_transfers s)"
    and "list_all lv_name_ok (of_jobs job_names (sv_jobs s))" and "sv_reserved s = newNameReservations"
  using assms by (simp_all add: server_ok_def Let_def)

section \<open>Handlers that only change the host\<close>

definition host_only :: "('w \<Rightarrow> lvview) \<Rightarrow> transition \<Rightarrow> ('w server, 'e, 'a) go \<Rightarrow> 'w server \<Rightarrow> bool" where
  "host_only view T m s \<longleftrightarrow> (\<exists>w. snd (m s) = s\<lparr>sv_host := w\<rparr> \<and> shift T (view (sv_host s)) (view w))"

lemma reserved_same: "sv_reserved s = r \<Longrightarrow> s\<lparr>sv_host := w, sv_reserved := r\<rparr> = s\<lparr>sv_host := w\<rparr>"
  by (cases s) simp

lemma host_only_on_host: "shift T (view (sv_host s)) (view (snd (m (sv_host s)))) \<Longrightarrow> host_only view T (on_host m) s"
  by (auto simp: host_only_def on_host_simps)

lemma host_only_mapErr: "host_only view T m s \<Longrightarrow> host_only view T (mapErr g m) s"
  by (auto simp: host_only_def mapErr_def split: prod.splits sum.splits)

lemma host_only_idle:
  "wf_view (view (sv_host s)) \<Longrightarrow> host_only view T (ret a) s" "wf_view (view (sv_host s)) \<Longrightarrow> host_only view T (fail e) s"
  by (auto simp: host_only_def intro!: exI [of _ "sv_host s"])

lemma host_only_demand:
  "wf_view (view (sv_host s)) \<Longrightarrow> (ok \<Longrightarrow> host_only view T m s) \<Longrightarrow> host_only view T (demand ok message m) s"
  by (simp add: demand_def host_only_idle)

lemma shift_reads: "shift stays v v1 \<Longrightarrow> shift T v1 v2 \<Longrightarrow> shift T v v2"
  unfolding shift_stays by (simp add: shift_def)

lemma host_only_seqE:
  assumes "host_only view stays m s"
    and "\<And>a w. m s = (Inr a, s\<lparr>sv_host := w\<rparr>) \<Longrightarrow> wf_view (view w) \<Longrightarrow> host_only view T (f a) (s\<lparr>sv_host := w\<rparr>)"
  shows "host_only view T (seqE m f) s"
proof -
  obtain w where w: "snd (m s) = s\<lparr>sv_host := w\<rparr>" "shift stays (view (sv_host s)) (view w)"
    using assms(1) by (auto simp: host_only_def)
  then obtain r where r: "m s = (r, s\<lparr>sv_host := w\<rparr>)" by (metis prod.collapse)
  show ?thesis
  proof (cases r)
    case (Inl e)
    then show ?thesis using r w(2) by (auto simp: host_only_def seqE_def shift_stays intro!: exI [of _ w] shift_same)
  next
    case (Inr a)
    then have "host_only view T (f a) (s\<lparr>sv_host := w\<rparr>)" using assms(2) r shift_wf [OF w(2)] by simp
    then show ?thesis using r Inr w(2) by (auto simp: host_only_def seqE_def intro: shift_reads)
  qed
qed

lemma proper_host_only:
  assumes "server_ok view (dm_cfg d) s" and "host_only view (permits s e) m s" and "harmless (sv_pins s) (permits s e)"
  shows "proper d view e s (snd (m s))"
  using assms proper_host [OF assms(1)] by (auto simp: host_only_def)

context served
begin

lemma stays_list: "sel \<noteq> [] \<Longrightarrow> wf_view (view w) \<Longrightarrow>
    shift stays (view w) (view (snd (ListLogicalVolumes (dm_client d) (list_opts (cfg_VolumeGroup (dm_cfg d)) sel) w)))"
  using list_frame [OF _ vg_set prod.collapse [symmetric], of sel w] by (simp add: shift_stays)

lemma stays_quiet: "quiet view m \<Longrightarrow> wf_view (view w) \<Longrightarrow> shift stays (view w) (view (snd (m w)))"
  by (simp add: quiet_def keeps_def shift_stays)

lemma quiet_list: "sel \<noteq> [] \<Longrightarrow> quiet view (ListLogicalVolumes (dm_client d) (list_opts (cfg_VolumeGroup (dm_cfg d)) sel))"
  using stays_list by (fastforce simp: quiet_def keeps_def shift_stays)

lemma quiet_reads:
  "quiet view (GetVolume (dm_client d) (dm_cfg d) vid)" "quiet view (VolumeExists (dm_client d) (dm_cfg d) vid)"
  "quiet view (ListVolumes (dm_client d) (dm_cfg d))" "quiet view (GetNodeStatus (dm_client d) (dm_cfg d))"
  using quiet_list [of "sel_name vid"] quiet_list [of "sel_pool (cfg_ThinPool (dm_cfg d))"]
    quiet_list [of "sel_name (cfg_ThinPool (dm_cfg d))"]
  unfolding quiet_def GetVolume_def VolumeExists_def ListVolumes_def GetNodeStatus_def
  by (auto intro!: keeps_intros simp: keeps_ret)

lemma host_only_quiet: "quiet view m \<Longrightarrow> wf_view (view (sv_host s)) \<Longrightarrow> host_only view T (on_host m) s"
  using stays_quiet by (intro host_only_on_host) (auto simp: shift_stays intro: shift_same)

lemmas host_only_intros = host_only_demand host_only_mapErr host_only_on_host host_only_idle

lemmas verb_shifts =
  shift_Attach [OF prod.collapse [symmetric]] shift_Detach [OF prod.collapse [symmetric]]
  shift_ResizeVolume [OF prod.collapse [symmetric]] shift_CreateSnapshot [OF prod.collapse [symmetric]]
  shift_DeleteSnapshot [OF prod.collapse [symmetric]]

text \<open>The verbs on one volume, after the check of its name.\<close>

lemma proper_Attach:
  assumes ok: "server_ok view (dm_cfg d) s"
  shows "proper d view (Request (ReqAttach vid)) s (snd (api_Attach (dm_client d) (dm_cfg d) vid s))"
  unfolding api_Attach_def
  by (rule proper_host_only [OF ok]; (intro host_only_intros)?)
    (use server_okD(1) [OF ok] in \<open>auto simp: volumeIDPattern_iff harmless_def goes_def intro!: verb_shifts\<close>)

lemma proper_Detach:
  assumes ok: "server_ok view (dm_cfg d) s"
  shows "proper d view (Request (ReqDetach vid)) s (snd (api_Detach (dm_client d) (dm_cfg d) vid s))"
  unfolding api_Detach_def
  by (rule proper_host_only [OF ok]; (intro host_only_intros)?)
    (use server_okD(1) [OF ok] in \<open>auto simp: volumeIDPattern_iff harmless_def goes_def intro!: verb_shifts\<close>)

lemma proper_ResizeVolume:
  assumes ok: "server_ok view (dm_cfg d) s"
  shows "proper d view (Request (ReqResizeVolume vid n)) s (snd (api_ResizeVolume (dm_client d) (dm_cfg d) vid n s))"
  unfolding api_ResizeVolume_def
  by (rule proper_host_only [OF ok]; (intro host_only_intros)?)
    (use server_okD(1) [OF ok] in \<open>auto simp: volumeIDPattern_iff intro!: verb_shifts\<close>)

lemma proper_DeleteSnapshot:
  assumes ok: "server_ok view (dm_cfg d) s"
  shows "proper d view (Request (ReqDeleteSnapshot sid)) s (snd (api_DeleteSnapshot (dm_client d) (dm_cfg d) sid s))"
proof -
  have "host_only view (permits s (Request (ReqDeleteSnapshot sid))) (\<lambda>s'. mapErr (\<lambda>e. volumeError e ''deleting snapshot failed'')
      (on_host (DeleteSnapshot (dm_client d) (dm_cfg d) (sv_pins s') sid)) s') s" if "lv_name_ok sid"
    using that server_okD(1) [OF ok] shift_DeleteSnapshot [where pins = "sv_pins s" and sid = sid, OF prod.collapse [symmetric]]
    by (auto simp: host_only_def on_host_simps mapErr_def split: sum.splits)
  then show ?thesis
    unfolding api_DeleteSnapshot_def
    by (intro proper_host_only [OF ok] host_only_demand)
      (use server_okD(1) [OF ok] in \<open>auto simp: volumeIDPattern_iff harmless_def goes_def\<close>)
qed

lemma proper_CreateSnapshot:
  assumes ok: "server_ok view (dm_cfg d) s"
  shows "proper d view (Request (ReqCreateSnapshot vid sid)) s (snd (api_CreateSnapshot (dm_client d) (dm_cfg d) vid sid s))"
  unfolding api_CreateSnapshot_def
  by (intro proper_host_only [OF ok] host_only_demand host_only_seqE host_only_mapErr host_only_quiet quiet_reads)
    (use server_okD(1) [OF ok] in
      \<open>auto simp: volumeIDPattern_iff harmless_def goes_def intro!: host_only_intros verb_shifts simp del: fail_apply\<close>)

lemma proper_reads:
  assumes ok: "server_ok view (dm_cfg d) s"
  shows "proper d view (Request ReqListVolumes) s (snd (api_ListVolumes (dm_client d) (dm_cfg d) s))"
    and "proper d view (Request (ReqQueryVolume vid)) s (snd (QueryVolume (dm_client d) (dm_cfg d) vid s))"
    and "proper d view (Request ReqGetNodeStatus) s (snd (api_GetNodeStatus info (dm_client d) (dm_cfg d) s))"
proof -
  note wf = server_okD(1) [OF ok]
  have version: "quiet view (GetVersion (dm_client d) no_common)" using surroundings by (simp add: daemon_ok_def)
  show "proper d view (Request ReqListVolumes) s (snd (api_ListVolumes (dm_client d) (dm_cfg d) s))"
    unfolding api_ListVolumes_def
    by (intro proper_host_only [OF ok] host_only_seqE host_only_mapErr host_only_quiet quiet_reads host_only_idle wf) simp_all
  show "proper d view (Request ReqGetNodeStatus) s (snd (api_GetNodeStatus info (dm_client d) (dm_cfg d) s))"
    unfolding api_GetNodeStatus_def
    by (intro proper_host_only [OF ok] host_only_seqE host_only_mapErr host_only_quiet quiet_reads version host_only_idle wf)
      simp_all
  have "host_only view stays (QueryVolume (dm_client d) (dm_cfg d) vid) s"
    using stays_quiet [OF quiet_reads(1) wf] by (auto simp: host_only_def on_host_simps QueryVolume_def split: sum.splits)
  then show "proper d view (Request (ReqQueryVolume vid)) s (snd (QueryVolume (dm_client d) (dm_cfg d) vid s))"
    by (intro proper_host_only [OF ok]) simp_all
qed

lemma proper_RollbackVolume:
  assumes ok: "server_ok view (dm_cfg d) s"
  shows "proper d view (Request (ReqRollbackVolume vid sid)) s (snd (RollbackVolume (dm_client d) (dm_cfg d) vid sid s))"
proof -
  note wf = server_okD(1) [OF ok] and free = server_okD(7) [OF ok]
  have "host_only view (rolls vid (RollbackTempName vid)) (\<lambda>s. let temp = RollbackTempName vid in
       case Reserve (sv_reserved s) [vid, temp] of
         (False, r) \<Rightarrow> (Inl (status_Error Aborted ''a rollback of this volume is in progress''), s\<lparr>sv_reserved := r\<rparr>)
       | (True, r) \<Rightarrow>
           let (q, s1) = on_host (rollback_body (dm_client d) (dm_cfg d) vid sid temp) (s\<lparr>sv_reserved := r\<rparr>) in
           (q, s1\<lparr>sv_reserved := res_Release (sv_reserved s1) [vid, temp]\<rparr>)) s" if "lv_name_ok vid" "lv_name_ok sid"
    using shift_rollback_body [OF prod.collapse [symmetric] wf that] free
    by (auto simp: host_only_def on_host_simps Reserve_def newNameReservations_def fun_upd_idem Let_def reserved_same)
  then show ?thesis
    unfolding RollbackVolume_def
    by (intro proper_host_only [OF ok] host_only_demand)
      (use wf in \<open>auto simp: volumeIDPattern_iff harmless_def rolls_def\<close>)
qed

end

section \<open>Requests that start a job\<close>

lemma server_ok_failed:
  assumes ok: "server_ok view cfg s" and op: "ops_Begin (sv_ops s) op = Inr t" "op \<noteq> []"
    and T: "shift T (view (sv_host s)) (view w)" "harmless (sv_pins s) T"
  shows "server_ok view cfg (s\<lparr>sv_host := w, sv_ops := ops_Fail t op reason\<rparr>)"
  using server_ok_host [OF ok T] ops_match_begun(2) [OF server_okD(2) [OF ok] op] by (simp add: server_ok_def Let_def)

lemma server_ok_spawned:
  assumes ok: "server_ok view cfg s" and op: "ops_Begin (sv_ops s) op = Inr t" "op \<noteq> []" "job_ops j = [op]"
    and T: "shift T (view (sv_host s)) (view w)" "harmless (sv_pins s) T"
    and names: "list_all lv_name_ok (job_names j)"
    and p: "job_holds j = [] \<and> p = sv_pins s \<or>
      (\<exists>k. job_holds j = [k] \<and> p = snd (Acquire (sv_pins s) k) \<and> vstate (view w) k = Some StateSnapshot)"
    and r: "distinct (job_removes j)"
      "\<forall>n \<in> set (job_removes j). vstate (view (sv_host s)) n \<noteq> Some StateDeleting \<and> vstate (view w) n = Some StateDeleting"
  shows "server_ok view cfg (s\<lparr>sv_host := w, sv_ops := t, sv_pins := p, sv_jobs := sv_jobs s @ [j]\<rparr>)"
proof -
  let ?st = "vstate (view w)"
  note h = server_okD [OF server_ok_host [OF ok T], simplified]
  have "pins_match ?st p (sv_jobs s @ [j])"
    using p
  proof
    assume "job_holds j = [] \<and> p = sv_pins s"
    then show ?thesis using h(3) by (simp add: pins_match_def)
  qed (use pins_match_hold [OF h(3)] in auto)
  moreover have "removals_match ?st (sv_jobs s @ [j])"
    using h(4) r server_okD(4) [OF ok] by (auto simp: removals_match_def)
  moreover have "ops_match t (sv_jobs s @ [j])"
    by (rule ops_match_begun(3) [OF server_okD(2) [OF ok] op])
  ultimately show ?thesis using h names by (simp add: server_ok_def Let_def)
qed

lemma snd_mapErr: "snd (mapErr g m w) = snd (m w)"
  by (simp add: mapErr_def split: prod.splits sum.splits)

lemma begin_op_cases:
  assumes "seqE (begin_op op) f s = (r, s')"
  obtains (used) "s' = s" | (begun) t where "ops_Begin (sv_ops s) op = Inr t" "f () (s\<lparr>sv_ops := t\<rparr>) = (r, s')"
  using assms by (auto simp: begin_op_def seqE_def split: sum.splits)

context served
begin

lemma quiet_activity:
  "quiet view (DeactivateLogicalVolume (dm_client d) (lv_target (dm_cfg d) n) no_common)"
  "quiet view (ActivateLogicalVolume (dm_client d) (lv_target (dm_cfg d) n) (activate_opts ignore))"
  "quiet view (wrap what (DeactivateLogicalVolume (dm_client d) (lv_target (dm_cfg d) n) no_common))"
  "quiet view (wrap what (ActivateLogicalVolume (dm_client d) (lv_target (dm_cfg d) n) (activate_opts ignore)))"
proof -
  have q: "quiet view m" if "does view pool op m" "op = OpActivate n ignore \<or> op = OpDeactivate n"
    for m :: "('w, 'e, unit) go" and op pool
    unfolding quiet_def
  proof (intro allI keepsI)
    fix st w r w' assume "wf_view (view w) \<and> vstate (view w) = st" and "m w = (r, w')"
    then show "wf_view (view w') \<and> vstate (view w') = st"
      using that effect_active(1,2) [of pool n ignore "view w" "view w'"] by (auto elim!: does_cases)
  qed
  have raw: "quiet view (mapErr OfLvm m) \<Longrightarrow> quiet view m" for m :: "('w, lvm_err, unit) go"
    by (simp add: quiet_def keeps_def snd_mapErr)
  show "quiet view (wrap what (DeactivateLogicalVolume (dm_client d) (lv_target (dm_cfg d) n) no_common))"
    by (rule q [OF deactivate_does]) simp
  show "quiet view (wrap what (ActivateLogicalVolume (dm_client d) (lv_target (dm_cfg d) n) (activate_opts ignore)))"
    by (rule q [OF activate_does]) simp
  show "quiet view (DeactivateLogicalVolume (dm_client d) (lv_target (dm_cfg d) n) no_common)"
    by (rule raw, rule q [OF deactivate_raw_does]) simp
  show "quiet view (ActivateLogicalVolume (dm_client d) (lv_target (dm_cfg d) n) (activate_opts ignore))"
    by (rule raw, rule q [OF activate_raw_does]) simp
qed

lemma releaseExport_host:
  assumes "wf_view (view (sv_host s))"
  obtains w where "releaseExport (dm_client d) (dm_cfg d) sid s = s\<lparr>sv_host := w, sv_pins := snd (Release (sv_pins s) sid)\<rparr>"
    and "shift stays (view (sv_host s)) (view w)"
proof (cases "fst (Release (sv_pins s) sid)")
  case True
  then show ?thesis
    by (intro that [OF _ stays_quiet [OF quiet_activity(1) assms, of sid]]) (simp add: releaseExport_def split_def Let_def)
next
  case False
  then have "releaseExport (dm_client d) (dm_cfg d) sid s = s\<lparr>sv_host := sv_host s, sv_pins := snd (Release (sv_pins s) sid)\<rparr>"
    by (simp add: releaseExport_def split_def Let_def)
  then show ?thesis by (rule that) (use assms in simp)
qed

lemma proper_CreateVolume:
  assumes ok: "server_ok view (dm_cfg d) s"
  shows "proper d view (Request (ReqCreateVolume vid n op)) s (snd (api_CreateVolume (dm_client d) (dm_cfg d) vid n op s))"
proof -
  obtain ex w where w: "VolumeExists (dm_client d) (dm_cfg d) vid (sv_host s) = (ex, w)" by fastforce
  have st: "shift stays (view (sv_host s)) (view w)" using stays_quiet [OF quiet_reads(2) server_okD(1) [OF ok]] w by (metis snd_conv)
  have "proper d view (Request (ReqCreateVolume vid n op)) s (s\<lparr>sv_host := w\<rparr>)"
    by (rule proper_host [OF ok]) (use st in simp_all)
  moreover have "proper d view (Request (ReqCreateVolume vid n op)) s
      (s\<lparr>sv_host := w, sv_ops := t, sv_jobs := sv_jobs s @ [RunCreate vid n op]\<rparr>)"
    if "ops_Begin (sv_ops s) op = Inr t" "op \<noteq> []" for t
    using server_ok_spawned [OF ok that _ st, of "RunCreate vid n op" "sv_pins s"] st by (simp add: proper_def)
  ultimately show ?thesis
    using proper_refl [OF ok] w
    by (auto simp: api_CreateVolume_def demand_def seqE_def mapErr_def on_host_simps begin_op_def spawn_def split: sum.splits)
qed

lemma proper_DeleteVolume:
  assumes ok: "server_ok view (dm_cfg d) s"
  shows "proper d view (Request (ReqDeleteVolume vid force op)) s (snd (api_DeleteVolume (dm_client d) (dm_cfg d) vid force op s))"
proof -
  let ?e = "Request (ReqDeleteVolume vid force op)"
  obtain r w where w: "MarkDeleting (dm_client d) (dm_cfg d) (sv_pins s) vid force (sv_host s) = (r, w)" by fastforce
  have done_ok: "proper d view ?e s (case r of Inl e \<Rightarrow> s\<lparr>sv_host := w, sv_ops := ops_Fail t op (err_Error e)\<rparr>
      | Inr ids \<Rightarrow> s\<lparr>sv_host := w, sv_ops := t, sv_jobs := sv_jobs s @ [RunDelete vid ids op]\<rparr>)"
    if t: "ops_Begin (sv_ops s) op = Inr t" "op \<noteq> []" and "lv_name_ok vid" for t
  proof -
    note m = shift_MarkDeleting [OF w server_okD(1) [OF ok] \<open>lv_name_ok vid\<close>]
    have T: "shift (permits s ?e) (view (sv_host s)) (view w)" "harmless (sv_pins s) (permits s ?e)"
      using m(1) by (auto simp: harmless_def goes_def)
    show ?thesis
    proof (cases r)
      case (Inl e)
      then show ?thesis using server_ok_failed [OF ok t T] T(1) by (simp add: proper_def)
    next
      case (Inr ids)
      then show ?thesis
        using server_ok_spawned [OF ok t _ T, of "RunDelete vid ids op" "sv_pins s"] m(2) [OF Inr] T(1) by (auto simp: proper_def)
    qed
  qed
  show ?thesis
    using proper_refl [OF ok] done_ok w
    by (auto simp: api_DeleteVolume_def demand_def seqE_def on_host_simps begin_op_def spawn_def ops_fail_def
        volumeIDPattern_iff split: sum.splits)
qed

lemma proper_PushVolume:
  assumes ok: "server_ok view (dm_cfg d) s"
  shows "proper d view (Request (ReqPushVolume vid tid target op)) s (snd (PushVolume (dm_client d) (dm_cfg d) vid tid target op s))"
proof -
  let ?e = "Request (ReqPushVolume vid tid target op)"
  obtain r w where w: "MarkPushing (dm_client d) (dm_cfg d) vid tid target (sv_host s) = (r, w)" by fastforce
  have done_ok: "proper d view ?e s (s\<lparr>sv_host := w, sv_ops := ops_Fail t op reason\<rparr>)"
    "proper d view ?e s (s\<lparr>sv_host := w, sv_ops := t, sv_jobs := sv_jobs s @ [RunPush vid tid target op]\<rparr>)"
    if t: "ops_Begin (sv_ops s) op = Inr t" "op \<noteq> []" and "lv_name_ok vid" for t reason
  proof -
    have T: "shift (permits s ?e) (view (sv_host s)) (view w)" "harmless (sv_pins s) (permits s ?e)"
      using shift_MarkPushing [OF w server_okD(1) [OF ok] \<open>lv_name_ok vid\<close>] by (auto simp: harmless_def goes_def)
    show "proper d view ?e s (s\<lparr>sv_host := w, sv_ops := ops_Fail t op reason\<rparr>)"
      using server_ok_failed [OF ok t T] T(1) by (simp add: proper_def)
    show "proper d view ?e s (s\<lparr>sv_host := w, sv_ops := t, sv_jobs := sv_jobs s @ [RunPush vid tid target op]\<rparr>)"
      using server_ok_spawned [OF ok t _ T, of "RunPush vid tid target op" "sv_pins s"] \<open>lv_name_ok vid\<close> T(1)
      by (simp add: proper_def)
  qed
  show ?thesis
    using proper_refl [OF ok] done_ok w
    by (auto simp: PushVolume_def demand_def seqE_def on_host_simps begin_op_def spawn_def ops_fail_def
        volumeIDPattern_iff split: sum.splits)
qed

text \<open>A request that pins a snapshot first: it gives the pin back when it refuses, or leaves it to the job.\<close>

lemma server_ok_refused:
  assumes ok: "server_ok view (dm_cfg d) s" and t: "ops_Begin (sv_ops s) op = Inr t" "op \<noteq> []"
    and w: "shift stays (view (sv_host s)) (view w)"
    and s': "s' = ops_fail op reason (releaseExport (dm_client d) (dm_cfg d) sid
      (s\<lparr>sv_host := w, sv_ops := t, sv_pins := snd (Acquire (sv_pins s) sid)\<rparr>))"
  shows "server_ok view (dm_cfg d) s'" and "shift stays (view (sv_host s)) (view (sv_host s'))"
proof -
  let ?s1 = "s\<lparr>sv_host := w, sv_ops := t, sv_pins := snd (Acquire (sv_pins s) sid)\<rparr>"
  obtain w1 where r: "releaseExport (dm_client d) (dm_cfg d) sid ?s1 = ?s1\<lparr>sv_host := w1, sv_pins := snd (Release (sv_pins ?s1) sid)\<rparr>"
    and w1: "shift stays (view w) (view w1)"
    using releaseExport_host [of ?s1 sid] shift_wf [OF w] by auto
  have st: "shift stays (view (sv_host s)) (view w1)" by (rule shift_reads [OF w w1])
  have "snd (Release (snd (Acquire (sv_pins s) sid)) sid) = sv_pins s"
    using server_okD(3) [OF ok] by (intro Release_Acquire) (simp add: pins_match_def)
  then have "s' = s\<lparr>sv_host := w1, sv_ops := ops_Fail t op reason\<rparr>"
    unfolding s' r by (simp add: ops_fail_def)
  then show "server_ok view (dm_cfg d) s'" and "shift stays (view (sv_host s)) (view (sv_host s'))"
    using server_ok_failed [OF ok t st] st by simp_all
qed

lemma snapshot_read:
  assumes "GetVolume (dm_client d) (dm_cfg d) sid w = (Inr snapshot, w')" and "lv_name_ok sid"
    and "vol_State snapshot = StateSnapshot"
  shows "vstate (view w') sid = Some StateSnapshot"
  using assms(1,2) by (cases rule: GetVolume_cases) (use assms(3) in \<open>auto simp: vstate_def vol_shows_def\<close>)

lemma proper_PushSnapshot:
  assumes ok: "server_ok view (dm_cfg d) s"
  shows "proper d view (Request (ReqPushSnapshot sid tid target op)) s (snd (PushSnapshot (dm_client d) (dm_cfg d) sid tid target op s))"
proof -
  let ?e = "Request (ReqPushSnapshot sid tid target op)" and ?j = "RunSnapshotPush sid tid target op"
  obtain r w where w: "GetVolume (dm_client d) (dm_cfg d) sid (sv_host s) = (r, w)" by fastforce
  have st: "shift stays (view (sv_host s)) (view w)" using stays_quiet [OF quiet_reads(1) server_okD(1) [OF ok]] w by (metis snd_conv)
  have refused: "proper d view ?e s (ops_fail op reason (releaseExport (dm_client d) (dm_cfg d) sid
      (s\<lparr>sv_ops := t, sv_pins := snd (Acquire (sv_pins s) sid), sv_host := w\<rparr>)))"
    if t: "ops_Begin (sv_ops s) op = Inr t" "op \<noteq> []" for t reason
    using server_ok_refused [OF ok t st refl] by (simp add: proper_def)
  have spawned: "proper d view ?e s
      (s\<lparr>sv_ops := t, sv_pins := snd (Acquire (sv_pins s) sid), sv_host := w, sv_jobs := sv_jobs s @ [?j]\<rparr>)"
    if t: "ops_Begin (sv_ops s) op = Inr t" "op \<noteq> []" and "lv_name_ok sid" "r = Inr snapshot" "vol_State snapshot = StateSnapshot"
    for t snapshot
    using server_ok_spawned [OF ok t _ st, of ?j "snd (Acquire (sv_pins s) sid)"] st snapshot_read [of sid "sv_host s" snapshot w] that w
    by (simp add: proper_def)
  show ?thesis
    using proper_refl [OF ok] refused spawned w
    by (auto simp: PushSnapshot_def demand_def seqE_def on_host_simps begin_op_def spawn_def pin_def Let_def
        volumeIDPattern_iff split: sum.splits)
qed

lemma proper_CreateVolumeFromSnapshot:
  assumes ok: "server_ok view (dm_cfg d) s"
  shows "proper d view (Request (ReqCreateVolumeFromSnapshot vid sid op)) s
    (snd (CreateVolumeFromSnapshot (dm_client d) (dm_cfg d) vid sid op s))"
proof -
  let ?e = "Request (ReqCreateVolumeFromSnapshot vid sid op)"
  obtain r w where w: "GetVolume (dm_client d) (dm_cfg d) sid (sv_host s) = (r, w)" by fastforce
  obtain ex w2 where w2: "VolumeExists (dm_client d) (dm_cfg d) vid w = (ex, w2)" by fastforce
  have st: "shift stays (view (sv_host s)) (view w)" using stays_quiet [OF quiet_reads(1) server_okD(1) [OF ok]] w by (metis snd_conv)
  have next_st: "shift stays (view w) (view w2)" using stays_quiet [OF quiet_reads(2) shift_wf [OF st]] w2 by (metis snd_conv)
  have st2: "shift stays (view (sv_host s)) (view w2)" by (rule shift_reads [OF st next_st])
  have same: "vstate (view w2) = vstate (view w)" using next_st by (simp add: shift_stays)
  have refused: "proper d view ?e s (ops_fail op reason (releaseExport (dm_client d) (dm_cfg d) sid
      (s\<lparr>sv_ops := t, sv_pins := snd (Acquire (sv_pins s) sid), sv_host := w'\<rparr>)))"
    if t: "ops_Begin (sv_ops s) op = Inr t" "op \<noteq> []" and "w' = w \<or> w' = w2" for t reason w'
    using server_ok_refused [OF ok t _ refl, of w'] st st2 that(3) by (auto simp: proper_def)
  have spawned: "proper d view ?e s (s\<lparr>sv_ops := t, sv_pins := snd (Acquire (sv_pins s) sid), sv_host := w2,
      sv_jobs := sv_jobs s @ [RunCopyFromSnapshot vid sid op n]\<rparr>)"
    if t: "ops_Begin (sv_ops s) op = Inr t" "op \<noteq> []" and "lv_name_ok sid" "lv_name_ok vid" "r = Inr snapshot"
      "vol_State snapshot = StateSnapshot" for t snapshot n
    using server_ok_spawned [OF ok t _ st2, of "RunCopyFromSnapshot vid sid op n" "snd (Acquire (sv_pins s) sid)"] st2
      snapshot_read [of sid "sv_host s" snapshot w] same that w by (simp add: proper_def)
  show ?thesis
    using proper_refl [OF ok] refused spawned w w2
    by (auto simp: CreateVolumeFromSnapshot_def demand_def seqE_def on_host_simps begin_op_def spawn_def pin_def Let_def
        volumeIDPattern_iff split: sum.splits)
qed

end

section \<open>Exports\<close>

definition calm :: "('w \<Rightarrow> lvview) \<Rightarrow> 'w server \<Rightarrow> 'w server \<Rightarrow> bool" where
  "calm view s0 s \<longleftrightarrow> (\<exists>w. s = s0\<lparr>sv_host := w\<rparr> \<and> shift stays (view (sv_host s0)) (view w))"

lemma keeps_calm: "quiet view m \<Longrightarrow> keeps (calm view s0) (on_host m)"
  unfolding keeps_def
proof (intro allI impI)
  fix s assume q: "quiet view m" and "calm view s0 s"
  then obtain w where w: "s = s0\<lparr>sv_host := w\<rparr>" "wf_view (view w)" "vstate (view w) = vstate (view (sv_host s0))"
    by (auto simp: calm_def shift_stays)
  then have "wf_view (view (snd (m w))) \<and> vstate (view (snd (m w))) = vstate (view w)"
    using q by (simp add: quiet_def keeps_def)
  then show "calm view s0 (snd (on_host m s))" using w by (auto simp: calm_def on_host_simps shift_stays)
qed

lemma calm_host_only: "keeps (calm view s) m \<Longrightarrow> wf_view (view (sv_host s)) \<Longrightarrow> host_only view stays m s"
proof -
  assume k: "keeps (calm view s) m" and wf: "wf_view (view (sv_host s))"
  have "calm view s s" using wf by (auto simp: calm_def intro!: exI [of _ "sv_host s"])
  then have "calm view s (snd (m s))" using k by (simp add: keeps_def)
  then show ?thesis by (simp add: calm_def host_only_def)
qed

context served
begin

lemma quiet_io:
  "quiet view (d_open (dm_io d) p)" "quiet view (d_seek_end (dm_io d) p)" "quiet view (d_seek_start (dm_io d) p)"
  "quiet view (d_read (dm_io d) p off n)" "quiet view (d_openw (dm_io d) p)" "quiet view (d_write (dm_io d) p off data)"
  "quiet view (d_sync (dm_io d) p)"
proof -
  have io: "io_frame view (dm_io d)" using surroundings by (simp add: daemon_ok_def)
  then show "quiet view (d_open (dm_io d) p)" "quiet view (d_seek_end (dm_io d) p)" "quiet view (d_seek_start (dm_io d) p)"
    "quiet view (d_read (dm_io d) p off n)" "quiet view (d_openw (dm_io d) p)" "quiet view (d_write (dm_io d) p off data)"
    by (simp_all add: io_frame_def keeps_reads_def quiet_def)
  have "view (snd (d_sync (dm_io d) p w)) = view w" for w
    using io by (simp add: io_frame_def sync_frame_def)
  then show "quiet view (d_sync (dm_io d) p)" by (simp add: quiet_def keeps_def)
qed

lemma calm_reads: "keeps_reads (calm view s0) (lift_io (dm_io d))"
  by (simp add: keeps_reads_def lift_io_def keeps_calm quiet_io)

lemma export_body_calm:
  assumes "wf_view (view (sv_host s))"
  shows "host_only view stays (export_body H (dm_io d) cancelled (dm_client d) (dm_cfg d) (\<lambda>msg. on_host (dm_send d msg)) sid) s"
proof (rule calm_host_only [rotated])
  show "wf_view (view (sv_host s))" by (rule assms)
  have send: "keeps (calm view s) (on_host (dm_send d msg))" for msg
    using surroundings by (intro keeps_calm) (simp add: daemon_ok_def)
  show "keeps (calm view s) (export_body H (dm_io d) cancelled (dm_client d) (dm_cfg d) (\<lambda>msg. on_host (dm_send d msg)) sid)"
    unfolding export_body_def split_def
    by (intro keeps_intros keeps_calm quiet_reads quiet_activity keeps_ReadDevice calm_reads send)
qed

lemma proper_Export:
  assumes ok: "server_ok view (dm_cfg d) s"
  shows "proper d view (Request (ReqExport sid)) s
    (snd (api_Export H (dm_io d) cancelled (dm_client d) (dm_cfg d) (\<lambda>msg. on_host (dm_send d msg)) sid s))"
proof -
  let ?b = "export_body H (dm_io d) cancelled (dm_client d) (dm_cfg d) (\<lambda>msg. on_host (dm_send d msg)) sid"
  let ?s0 = "pin sid s"
  have "wf_view (view (sv_host ?s0))" using server_okD(1) [OF ok] by (simp add: pin_def)
  then obtain w where w: "snd (?b ?s0) = ?s0\<lparr>sv_host := w\<rparr>" "shift stays (view (sv_host s)) (view w)"
    using export_body_calm by (fastforce simp: host_only_def pin_def)
  let ?s1 = "?s0\<lparr>sv_host := w\<rparr>"
  obtain w1 where r: "releaseExport (dm_client d) (dm_cfg d) sid ?s1 = ?s1\<lparr>sv_host := w1, sv_pins := snd (Release (sv_pins ?s1) sid)\<rparr>"
    and w1: "shift stays (view w) (view w1)"
    using releaseExport_host [of ?s1 sid] shift_wf [OF w(2)] by auto
  have "snd (Release (snd (Acquire (sv_pins s) sid)) sid) = sv_pins s"
    using server_okD(3) [OF ok] by (intro Release_Acquire) (simp add: pins_match_def)
  then have "releaseExport (dm_client d) (dm_cfg d) sid ?s1 = s\<lparr>sv_host := w1\<rparr>"
    unfolding r by (simp add: pin_def)
  moreover have "proper d view (Request (ReqExport sid)) s (s\<lparr>sv_host := w1\<rparr>)"
    by (rule proper_host [OF ok]) (use shift_reads [OF w(2) w1] in simp_all)
  ultimately show ?thesis
    using proper_refl [OF ok] w(1) by (simp add: api_Export_def demand_def split_def Let_def)
qed

end

end
