(* ===== verification/ServerTransfers.thy ===== *)
theory ServerTransfers
  imports ServerSafety
begin

text \<open>The requests of the transfer plane, and the expiry of a transfer, as events of the daemon.\<close>

section \<open>Sessions and their volumes\<close>

lemma sessionsD:
  assumes "sessions_match m st t"
  shows "table_ok m (\<lambda>_. False) t" and "the_session t tid = Some x \<Longrightarrow> st (ses_volumeID x) = Some StateIncoming"
    and "the_session t tid = Some x \<Longrightarrow> the_session t tid' = Some x' \<Longrightarrow> ses_volumeID x = ses_volumeID x' \<Longrightarrow> tid = tid'"
    and "the_session t tid = Some x \<Longrightarrow> \<not> ses_terminal x"
  using assms unfolding sessions_match_def table_ok_def by blast+

text \<open>Sessions that go on keep their volumes.\<close>

lemma sessions_follow:
  assumes "sessions_match m (vstate v) t" and "table_ok m (\<lambda>_. False) t'" and "\<And>k. follows k t t'"
    and "\<And>k x. the_session t' k = Some x \<Longrightarrow> vstate v' (ses_volumeID x) = vstate v (ses_volumeID x)"
  shows "sessions_match m (vstate v') t'"
  unfolding sessions_match_def
proof (intro conjI allI impI)
  fix k x assume "the_session t' k = Some x"
  then show "vstate v' (ses_volumeID x) = Some StateIncoming"
    using assms(3) [of k] assms(4) [of k x] sessionsD(2) [OF assms(1)] unfolding follows_def by metis
next
  fix k k' x x' assume "the_session t' k = Some x" "the_session t' k' = Some x'" "ses_volumeID x = ses_volumeID x'"
  then show "k = k'"
    using assms(3) [of k] assms(3) [of k'] sessionsD(3) [OF assms(1)] unfolding follows_def by metis
qed (rule assms(2))

text \<open>Moves out of the incoming state take nothing from the jobs.\<close>

lemma incoming_jobs:
  assumes ok: "server_ok view cfg s" and "shift (goes n {Some StateIncoming, None} B) (view (sv_host s)) (view w)"
    and "sessions_match (cfg_MaxInboundTransfers cfg) (vstate (view w)) t"
  shows "server_ok view cfg (s\<lparr>sv_host := w, sv_transfers := t\<rparr>)"
proof -
  have "vstate (view w) k = vstate (view (sv_host s)) k" if "vstate (view (sv_host s)) k \<in> {Some StateSnapshot, Some StateDeleting}" for k
    using assms(2) that by (auto simp: shift_def goes_def)
  then show ?thesis
    using ok assms(3) shift_wf [OF assms(2)] by (auto simp: server_ok_def Let_def pins_match_def removals_match_def)
qed

lemma incoming_ended:
  assumes ok: "server_ok view cfg s" and x: "the_session (sv_transfers s) tid = Some x"
    and t: "table_ok (cfg_MaxInboundTransfers cfg) (\<lambda>_. False) t" "the_session t = (the_session (sv_transfers s))(tid := None)"
    and sh: "shift (goes (ses_volumeID x) {Some StateIncoming} B) (view (sv_host s)) (view w)"
  shows "server_ok view cfg (s\<lparr>sv_host := w, sv_transfers := t\<rparr>)"
proof (rule incoming_jobs [OF ok])
  show "shift (goes (ses_volumeID x) {Some StateIncoming, None} B) (view (sv_host s)) (view w)"
    using sh by (rule shift_mono) (auto simp: goes_def)
  note m = server_okD(5) [OF ok]
  have other: "ses_volumeID y \<noteq> ses_volumeID x" if "the_session t k = Some y" for k y
    using that t(2) x sessionsD(3) [OF m, of k y tid x] by (auto split: if_splits)
  then have "vstate (view w) (ses_volumeID y) = vstate (view (sv_host s)) (ses_volumeID y)" if "the_session t k = Some y" for k y
    using that sh by (auto simp: shift_def goes_def)
  then show "sessions_match (cfg_MaxInboundTransfers cfg) (vstate (view w)) t"
    using m t sessionsD(2,3) [OF m] unfolding sessions_match_def
    by (metis fun_upd_apply option.discI)
qed

section \<open>Ending a transfer\<close>

context served
begin

lemma destroy_proper:
  assumes ok: "server_ok view (dm_cfg d) s" and x: "the_session (sv_transfers s) tid = Some x"
    and d: "destroy (dm_client d) (dm_cfg d) tid (sv_transfers s, sv_host s) = (t, w)"
  shows "server_ok view (dm_cfg d) (s\<lparr>sv_host := w, sv_transfers := t\<rparr>)"
    and "shift (goes (ses_volumeID x) {Some StateIncoming} {None}) (view (sv_host s)) (view w)"
proof -
  note m = server_okD(5) [OF ok]
  have live: "\<not> ses_terminal x" "vstate (view (sv_host s)) (ses_volumeID x) = Some StateIncoming"
    using sessionsD(2,4) [OF m x] by auto
  obtain r where r: "RemoveVolume (dm_client d) (dm_cfg d) (ses_volumeID x) (sv_host s) = (r, w)" and t: "t = finish tid (sv_transfers s)"
    using d x live(1) by (auto simp: destroy_def) (metis prod.collapse)
  show sh: "shift (goes (ses_volumeID x) {Some StateIncoming} {None}) (view (sv_host s)) (view w)"
    using shift_RemoveVolume(1) [OF r server_okD(1) [OF ok]] live(2) by simp
  show "server_ok view (dm_cfg d) (s\<lparr>sv_host := w, sv_transfers := t\<rparr>)"
    by (rule incoming_ended [OF ok x _ _ sh]) (use table_ok_finish [OF sessionsD(1) [OF m]] t in auto)
qed

lemma ended_proper:
  assumes ok: "server_ok view (dm_cfg d) s" and e: "e = Request (ReqAbortTransfer tid) \<or> e = Expiry tid"
    and "(t, w) = (sv_transfers s, sv_host s) \<or>
      the_session (sv_transfers s) tid \<noteq> None \<and> destroy (dm_client d) (dm_cfg d) tid (sv_transfers s, sv_host s) = (t, w)"
  shows "proper d view e s (s\<lparr>sv_host := w, sv_transfers := t\<rparr>)"
  using assms(3)
proof
  assume "(t, w) = (sv_transfers s, sv_host s)"
  then show ?thesis using proper_refl [OF ok] by simp
next
  assume "the_session (sv_transfers s) tid \<noteq> None \<and> destroy (dm_client d) (dm_cfg d) tid (sv_transfers s, sv_host s) = (t, w)"
  then obtain x where "the_session (sv_transfers s) tid = Some x" and "destroy (dm_client d) (dm_cfg d) tid (sv_transfers s, sv_host s) = (t, w)"
    by auto
  from destroy_proper [OF ok this] this(1) show ?thesis using e by (auto simp: proper_def)
qed

lemma proper_AbortTransfer:
  assumes ok: "server_ok view (dm_cfg d) s"
  shows "proper d view (Request (ReqAbortTransfer tid)) s (AbortTransfer (dm_client d) (dm_cfg d) tid s)"
proof -
  obtain t w where a: "Abort (dm_client d) (dm_cfg d) tid (sv_transfers s, sv_host s) = (t, w)" by fastforce
  have "proper d view (Request (ReqAbortTransfer tid)) s (s\<lparr>sv_host := w, sv_transfers := t\<rparr>)"
    by (rule ended_proper [OF ok]) (use a in \<open>auto simp: Abort_def split: option.splits if_splits\<close>)
  then show ?thesis using a by (simp add: AbortTransfer_def)
qed

lemma proper_Expiry:
  assumes ok: "server_ok view (dm_cfg d) s"
    and g: "grace_expired (dm_client d) (dm_cfg d) tid (sv_transfers s, sv_host s) = (t, w)"
  shows "proper d view (Expiry tid) s (s\<lparr>sv_host := w, sv_transfers := t\<rparr>)"
  by (rule ended_proper [OF ok]) (use g in \<open>auto simp: grace_expired_def split: option.splits if_splits\<close>)

section \<open>Committing\<close>

lemma shift_land_volume:
  assumes "land_volume (dm_client d) (dm_cfg d) (dm_io d) tid x dev w = (r, w')" and wf: "wf_view (view w)"
    and st: "vstate (view w) (ses_volumeID x) = Some StateIncoming"
  shows "shift (goes (ses_volumeID x) {Some StateIncoming} {Some StateReady}) (view w) (view w')"
proof -
  have sync: "sync_frame view (dm_io d)" using surroundings by (simp add: daemon_ok_def io_frame_def)
  obtain y where y: "view w (ses_volumeID x) = Some y" "obj_state y = Some StateIncoming" using st by (auto simp: vstate_Some_iff)
  consider b where "view w' = (view w)(ses_volumeID x \<mapsto> y\<lparr>o_active := b\<rparr>)" | "landed (ses_volumeID x) tid (view w) (view w')"
    using land_volume_outcome [OF assms(1) wf sync y] by blast
  then show ?thesis
  proof cases
    case 1
    then show ?thesis using active_same [OF y(1) wf] by (auto intro: shift_same)
  next
    case 2
    then show ?thesis using landedD [OF _ wf] st by (intro shift_upd) (auto simp: goes_def)
  qed
qed

lemma commit_land_proper:
  assumes ok: "server_ok view (dm_cfg d) s" and x: "the_session (sv_transfers s) tid = Some x"
    and l: "commit_land (dm_client d) (dm_cfg d) (dm_io d) tid x (sv_transfers s, sv_host s) = (r, (t, w))"
  shows "server_ok view (dm_cfg d) (s\<lparr>sv_host := w, sv_transfers := t\<rparr>)"
    and "shift (goes (ses_volumeID x) {Some StateIncoming} {None, Some StateReady}) (view (sv_host s)) (view w)"
proof -
  let ?v = "ses_volumeID x"
  note m = server_okD(5) [OF ok] and wf = server_okD(1) [OF ok]
  have live: "\<not> ses_terminal x" "vstate (view (sv_host s)) ?v = Some StateIncoming" using sessionsD(2,4) [OF m x] by auto
  obtain q w1 where q: "land_volume (dm_client d) (dm_cfg d) (dm_io d) tid x (ses_device x) (sv_host s) = (q, w1)" by fastforce
  have 1: "shift (goes ?v {Some StateIncoming} {None, Some StateReady}) (view (sv_host s)) (view w1)"
    using shift_land_volume [OF q wf live(2)] by (rule shift_mono) (auto simp: goes_def)
  have 2: "shift (goes ?v {Some StateIncoming} {None, Some StateReady}) (view (sv_host s)) (view (snd (RemoveVolume (dm_client d) (dm_cfg d) ?v w1)))"
    using live(2) shift_RemoveVolume [OF prod.collapse [symmetric] shift_wf [OF 1], of ?v]
    by (intro shift_removed [OF 1]) (auto dest: shift_wf)
  have t: "the_session t = (the_session (sv_transfers s))(tid := None)"
    and sh: "shift (goes ?v {Some StateIncoming} {None, Some StateReady}) (view (sv_host s)) (view w)"
    using l x q live(1) 1 2 by (auto simp: commit_land_def destroy_def Let_def split: sum.splits)
  have "known_id (sv_transfers s) tid" using x by (simp add: known_id_def)
  then have "table_ok (cfg_MaxInboundTransfers (dm_cfg d)) (\<lambda>_. False) t"
    using land_table(1) [OF l sessionsD(1) [OF m]] by simp
  then show "server_ok view (dm_cfg d) (s\<lparr>sv_host := w, sv_transfers := t\<rparr>)" by (rule incoming_ended [OF ok x _ t sh])
  show "shift (goes ?v {Some StateIncoming} {None, Some StateReady}) (view (sv_host s)) (view w)" by (rule sh)
qed

text \<open>A session whose digest is completed stands for the same volume.\<close>

lemma server_ok_session:
  assumes ok: "server_ok view (dm_cfg d) s" and x: "the_session (sv_transfers s) tid = Some x"
  shows "server_ok view (dm_cfg d) (s\<lparr>sv_transfers := set_session tid (x\<lparr>ses_digest := b\<rparr>) (sv_transfers s)\<rparr>)"
proof -
  let ?t = "set_session tid (x\<lparr>ses_digest := b\<rparr>) (sv_transfers s)"
  note m = server_okD(5) [OF ok]
  have "touches tid (sv_transfers s) ?t" using x by (auto simp: touches_def tracks_def)
  then have "table_ok (cfg_MaxInboundTransfers (dm_cfg d)) (\<lambda>_. False) ?t" using touches_ok(1) sessionsD(1) [OF m] by blast
  then have "sessions_match (cfg_MaxInboundTransfers (dm_cfg d)) (vstate (view (sv_host s))) ?t"
    by (rule sessions_follow [OF m]) (use x in \<open>auto intro: follows_set\<close>)
  then show ?thesis using ok by (simp add: server_ok_def Let_def)
qed

lemma proper_CommitTransfer:
  assumes ok: "server_ok view (dm_cfg d) s"
    and c: "CommitTransfer H (dm_client d) (dm_cfg d) (dm_io d) tid digest s = Some (r, s')"
  shows "proper d view (Request (ReqCommitTransfer tid digest)) s s'"
proof -
  let ?e = "Request (ReqCommitTransfer tid digest)" and ?t = "sv_transfers s" and ?w = "sv_host s"
  obtain q t w where q: "Commit H (dm_client d) (dm_cfg d) (dm_io d) tid digest (?t, ?w) = Some (q, (t, w))"
    and s': "s' = s\<lparr>sv_host := w, sv_transfers := t\<rparr>"
    using c by (auto simp: CommitTransfer_def)
  consider (same) "(t, w) = (?t, ?w)"
    | (refused) x b where "the_session ?t tid = Some x"
        "destroy (dm_client d) (dm_cfg d) tid (set_session tid (x\<lparr>ses_digest := b\<rparr>) ?t, ?w) = (t, w)"
    | (landed) x b z where "the_session ?t tid = Some x"
        "commit_land (dm_client d) (dm_cfg d) (dm_io d) tid (x\<lparr>ses_digest := b\<rparr>) (set_session tid (x\<lparr>ses_digest := b\<rparr>) ?t, ?w) = (z, (t, w))"
    using q by (auto simp: Commit_def commit_verify_def Let_def split: option.splits if_splits prod.splits)
  then show ?thesis
  proof cases
    case same
    then show ?thesis using proper_refl [OF ok] s' by simp
  next
    case refused
    let ?s = "s\<lparr>sv_transfers := set_session tid (x\<lparr>ses_digest := b\<rparr>) ?t\<rparr>"
    have "server_ok view (dm_cfg d) (?s\<lparr>sv_host := w, sv_transfers := t\<rparr>) \<and> shift (goes (ses_volumeID x) {Some StateIncoming} {None}) (view ?w) (view w)"
      using destroy_proper [OF server_ok_session [OF ok refused(1), of b], of tid "x\<lparr>ses_digest := b\<rparr>" t w] refused(2) by simp
    then show ?thesis using s' refused(1) by (auto simp: proper_def goes_def elim!: shift_mono)
  next
    case landed
    let ?s = "s\<lparr>sv_transfers := set_session tid (x\<lparr>ses_digest := b\<rparr>) ?t\<rparr>"
    have "server_ok view (dm_cfg d) (?s\<lparr>sv_host := w, sv_transfers := t\<rparr>) \<and>
        shift (goes (ses_volumeID x) {Some StateIncoming} {None, Some StateReady}) (view ?w) (view w)"
      using commit_land_proper [OF server_ok_session [OF ok landed(1), of b], of tid "x\<lparr>ses_digest := b\<rparr>" z t w] landed(2) by simp
    then show ?thesis using s' landed(1) by (auto simp: proper_def)
  qed
qed

end

section \<open>Receiving\<close>

text \<open>Calls that go on with the sessions there are.\<close>

definition goes_on :: "('w \<Rightarrow> lvview) \<Rightarrow> int \<Rightarrow> 'w server \<Rightarrow> 'w server \<Rightarrow> bool" where
  "goes_on view m s s' \<longleftrightarrow>
     (\<exists>w t. s' = s\<lparr>sv_host := w, sv_transfers := t\<rparr> \<and> shift stays (view (sv_host s)) (view w) \<and>
        (\<forall>k. follows k (sv_transfers s) t) \<and> table_ok m (\<lambda>_. False) t)"

lemma goes_onI:
  assumes "shift stays (view (sv_host s)) (view w)" and "\<And>k. follows k (sv_transfers s) t" and "table_ok m (\<lambda>_. False) t"
  shows "goes_on view m s (s\<lparr>sv_host := w, sv_transfers := t\<rparr>)"
  using assms by (auto simp: goes_on_def)

lemma goes_on_trans: "goes_on view m s s1 \<Longrightarrow> goes_on view m s1 s2 \<Longrightarrow> goes_on view m s s2"
proof -
  assume "goes_on view m s s1" and 2: "goes_on view m s1 s2"
  then obtain w t where s1: "s1 = s\<lparr>sv_host := w, sv_transfers := t\<rparr>" "shift stays (view (sv_host s)) (view w)"
    "\<And>k. follows k (sv_transfers s) t" by (auto simp: goes_on_def)
  from 2 obtain w2 t2 where s2: "s2 = s1\<lparr>sv_host := w2, sv_transfers := t2\<rparr>" "shift stays (view w) (view w2)"
    "\<And>k. follows k t t2" "table_ok m (\<lambda>_. False) t2" using s1(1) by (auto simp: goes_on_def)
  have "goes_on view m s (s\<lparr>sv_host := w2, sv_transfers := t2\<rparr>)"
    by (rule goes_onI) (use s1 s2 shift_reads follows_trans in blast)+
  then show ?thesis using s1(1) s2(1) by simp
qed

lemma goes_on_proper:
  assumes ok: "server_ok view (dm_cfg d) s" and "goes_on view (cfg_MaxInboundTransfers (dm_cfg d)) s s'"
  shows "proper d view (Request (ReqReceive msgs)) s s'"
proof -
  obtain w t where s': "s' = s\<lparr>sv_host := w, sv_transfers := t\<rparr>" and sh: "shift stays (view (sv_host s)) (view w)"
    and t: "\<And>k. follows k (sv_transfers s) t" "table_ok (cfg_MaxInboundTransfers (dm_cfg d)) (\<lambda>_. False) t"
    using assms(2) by (auto simp: goes_on_def)
  have "sessions_match (cfg_MaxInboundTransfers (dm_cfg d)) (vstate (view w)) t"
    by (rule sessions_follow [OF server_okD(5) [OF ok] t(2,1)]) (use sh in \<open>simp add: shift_stays\<close>)
  moreover have "server_ok view (dm_cfg d) (s\<lparr>sv_host := w\<rparr>)" by (rule server_ok_host [OF ok sh]) simp
  ultimately have "server_ok view (dm_cfg d) s'" unfolding s' by (simp add: server_ok_def Let_def)
  then show ?thesis using sh s' by (simp add: proper_def)
qed

lemma goes_on_table:
  assumes "table_ok m (\<lambda>_. False) (sv_transfers s)" and "wf_view (view (sv_host s))"
    and "touches tid (sv_transfers s) t" and "\<And>k. follows k (sv_transfers s) t"
  shows "goes_on view m s (s\<lparr>sv_transfers := t\<rparr>)"
  using goes_onI [of view s "sv_host s" t m] touches_ok(1) [OF assms(3,1)] assms(2,4) by simp

lemma receive_loop_goes_on:
  assumes "receive_loop H io tid msgs s = Some (r, s')" and "io_frame view io" and "wf_view (view (sv_host s))"
    and "table_ok m (\<lambda>_. False) (sv_transfers s)"
  shows "goes_on view m s s'"
  using assms
proof (induction H io tid msgs s rule: receive_loop.induct)
  case (5 H io tid off data msgs s)
  obtain q t w where w: "tr_Write H io tid off data (sv_transfers s, sv_host s) = Some (q, (t, w))"
    using tr_Write_total [of H io tid off data "sv_transfers s" "sv_host s"] by auto
  note f = write_follows [OF w 5(3,4)] and tab = touches_ok(1) [OF Write_touches [OF w] 5(5), simplified]
  have g: "goes_on view m s (s\<lparr>sv_host := w, sv_transfers := t\<rparr>)"
    by (rule goes_onI) (use f tab in \<open>auto simp: shift_stays\<close>)
  show ?case
  proof (cases q)
    case (Inl e)
    then show ?thesis using 5(2) w g by (simp add: Let_def)
  next
    case (Inr u)
    then have "goes_on view m (s\<lparr>sv_transfers := t, sv_host := w\<rparr>) s'"
      using 5(2) w f tab by (intro 5(1) [OF w refl refl refl Inr]) (use 5(3) in \<open>auto simp: Let_def\<close>)
    then show ?thesis using goes_on_trans [OF g] by simp
  qed
qed (auto simp: goes_on_def shift_stays intro!: exI [of _ "sv_host _"] exI [of _ "sv_transfers _"])

context served
begin

lemma proper_Receive:
  assumes ok: "server_ok view (dm_cfg d) s" and r: "api_Receive H (dm_io d) msgs s = Some (r, s')"
  shows "proper d view (Request (ReqReceive msgs)) s s'"
proof (cases "\<exists>tid rest. msgs = Header tid # rest")
  case True
  then obtain tid rest where msgs: "msgs = Header tid # rest" by blast
  let ?m = "cfg_MaxInboundTransfers (dm_cfg d)"
  have io: "io_frame view (dm_io d)" using surroundings by (simp add: daemon_ok_def)
  note tab = sessionsD(1) [OF server_okD(5) [OF ok]] and wf = server_okD(1) [OF ok]
  obtain q t where a: "tr_Attach tid (sv_transfers s) = (q, t)" by fastforce
  have g: "goes_on view ?m s (s\<lparr>sv_transfers := t\<rparr>)"
    by (rule goes_on_table [where view = view]) (use tab wf Attach_touches [OF a] attach_follows [OF a] in auto)
  show ?thesis
  proof (cases q)
    case (Inl e)
    then show ?thesis using r msgs a goes_on_proper [OF ok g] by (simp add: api_Receive_def)
  next
    case (Inr u)
    then obtain s1 where l: "receive_loop H (dm_io d) tid rest (s\<lparr>sv_transfers := t\<rparr>) = Some (r, s1)"
      and s': "s' = s1\<lparr>sv_transfers := tr_Detach tid (sv_transfers s1)\<rparr>"
      using r msgs a by (auto simp: api_Receive_def)
    have "goes_on view ?m (s\<lparr>sv_transfers := t\<rparr>) s1"
      by (rule receive_loop_goes_on [OF l io]) (use wf touches_ok(1) [OF Attach_touches [OF a] tab] in auto)
    then have g1: "goes_on view ?m s s1" by (rule goes_on_trans [OF g])
    then have "table_ok ?m (\<lambda>_. False) (sv_transfers s1)" "wf_view (view (sv_host s1))"
      by (auto simp: goes_on_def dest: shift_wf)
    then have "goes_on view ?m s1 s'" unfolding s'
      by (intro goes_on_table [where view = view and tid = tid] Detach_touches detach_follows)
    then show ?thesis using goes_on_proper [OF ok] goes_on_trans [OF g1] by blast
  qed
next
  case False
  then have "s' = s" using r by (auto simp: api_Receive_def split: list.splits ReceiveRequest.splits)
  then show ?thesis using proper_refl [OF ok] by simp
qed

section \<open>Preparing\<close>

lemma prepare_table:
  assumes tab: "table_ok (cfg_MaxInboundTransfers (dm_cfg d)) (\<lambda>_. False) t"
    and r: "prepare_reserve (dm_cfg d) tid vid n t = Inr t1" and l: "prepare_land c (dm_cfg d) tid vid n (t1, w) = (q, (t2, w2))"
  shows "table_ok (cfg_MaxInboundTransfers (dm_cfg d)) (\<lambda>_. False) t2"
proof -
  let ?x = "\<lparr>xf_table = t, xf_host = w, xf_preparing = [], xf_committing = []\<rparr>"
  have "xfer_ok (dm_cfg d) ?x" using tab by (simp add: xfer_ok_def)
  from reserve_ok [OF this] r have "xfer_ok (dm_cfg d) (?x\<lparr>xf_table := t1, xf_preparing := [(tid, vid, n)]\<rparr>)" by simp
  from prepared_ok [OF this, of tid vid n c q "(t2, w2)"] l show ?thesis
    using xfer_okD(1) by fastforce
qed

lemma shift_prepare:
  assumes "prepare_land (dm_client d) (dm_cfg d) tid vid n (t, w) = (r, (t', w'))" and wf: "wf_view (view w)"
    and none: "vstate (view w) vid = None" and x: "the_session t tid = Some x" "\<not> ses_terminal x" "ses_volumeID x = vid"
  shows "shift (goes vid {None} {None, Some StateIncoming}) (view w) (view w')"
    and "t' = finish tid t \<or> vstate (view w') vid = Some StateIncoming \<and> (\<exists>x'. t' = set_session tid x' t \<and> ses_volumeID x' = vid)"
proof -
  let ?T = "goes vid {None} {None, Some StateIncoming}"
  obtain q w1 where q: "wrap (''creating incoming volume '' @ vid) (CreateThinVolume (dm_client d) (cfg_VolumeGroup (dm_cfg d))
      (cfg_ThinPool (dm_cfg d)) vid n (thin_opts [StateTag StateIncoming, transferTagPrefix @ tid] None)) w = (q, w1)" by fastforce
  obtain g w2 where g: "GetVolume (dm_client d) (dm_cfg d) vid w1 = (g, w2)" by fastforce
  have made: "wf_view (view w1) \<and> vstate (view w1) = (vstate (view w))(vid \<mapsto> StateIncoming)"
    if e: "lv_effect (cfg_ThinPool (dm_cfg d)) (OpCreateThin vid n [StateTag StateIncoming, transferTagPrefix @ tid] None) (view w) (view w1)"
    using effect_create(1,2) [OF e wf] by simp
  have 1: "shift ?T (view w) (view w1)"
    by (rule does_cases [OF create_does q]) (use wf made none in \<open>auto intro!: shift_upd simp: goes_def\<close>)
  have 2: "shift ?T (view w) (view w2)"
    using stays_quiet [OF quiet_reads(1) shift_wf [OF 1], of vid] g 1 by (simp add: shift_stays) (simp add: shift_def)
  have 3: "shift ?T (view w) (view (snd (RemoveVolume (dm_client d) (dm_cfg d) vid w2)))"
    using none shift_RemoveVolume [OF prod.collapse [symmetric] shift_wf [OF 2], of vid]
    by (intro shift_removed [OF 2]) (auto dest: shift_wf)
  show "shift ?T (view w) (view w')"
    using assms(1) q g x 1 2 3 by (auto simp: prepare_land_def destroy_def Let_def split: sum.splits)
  have inc: "vstate (view w2) vid = Some StateIncoming" if "q = Inr u" for u
    using that made does_ok [OF create_does q [unfolded that]] stays_quiet [OF quiet_reads(1) shift_wf [OF 1], of vid] g
    by (simp add: shift_stays)
  show "t' = finish tid t \<or> vstate (view w') vid = Some StateIncoming \<and> (\<exists>x'. t' = set_session tid x' t \<and> ses_volumeID x' = vid)"
    using assms(1) q g x inc by (auto simp: prepare_land_def destroy_def armGrace_def Let_def split: sum.splits)
qed

lemma PrepareReceive_proper:
  assumes ok: "server_ok view (dm_cfg d) s" and none: "vstate (view (sv_host s)) vid = None"
    and p: "PrepareReceive (dm_client d) (dm_cfg d) tid vid n (sv_transfers s, sv_host s) = (r, (t, w))"
  shows "server_ok view (dm_cfg d) (s\<lparr>sv_host := w, sv_transfers := t\<rparr>)"
    and "shift (goes vid {None} {Some StateIncoming}) (view (sv_host s)) (view w)"
proof -
  let ?m = "cfg_MaxInboundTransfers (dm_cfg d)" and ?st = "vstate (view (sv_host s))"
  note m = server_okD(5) [OF ok] and wf = server_okD(1) [OF ok]
  have "server_ok view (dm_cfg d) (s\<lparr>sv_host := w, sv_transfers := t\<rparr>) \<and>
      shift (goes vid {None} {None, Some StateIncoming}) (view (sv_host s)) (view w)"
  proof (cases "prepare_reserve (dm_cfg d) tid vid n (sv_transfers s)")
    case (Inl e)
    then have "(t, w) = (sv_transfers s, sv_host s)" using p by (simp add: PrepareReceive_def)
    then show ?thesis using ok wf by simp
  next
    case (Inr t1)
    have t1: "t1 = set_session tid (new_session vid n) (sv_transfers s)" "the_session (sv_transfers s) tid = None"
      using Inr by (auto simp: prepare_reserve_def split: if_splits)
    have l: "prepare_land (dm_client d) (dm_cfg d) tid vid n (t1, sv_host s) = (r, (t, w))"
      using p Inr by (simp add: PrepareReceive_def)
    have tab: "table_ok ?m (\<lambda>_. False) t" by (rule prepare_table [OF sessionsD(1) [OF m] Inr l])
    note sh = shift_prepare [OF l wf none, of "new_session vid n", unfolded t1(1), simplified]
    have sh1: "shift (goes vid {None} {None, Some StateIncoming}) (view (sv_host s)) (view w)"
      using sh(1) by (simp add: new_session_def)
    have kept: "ses_volumeID x \<noteq> vid" "vstate (view w) (ses_volumeID x) = Some StateIncoming"
      if "the_session (sv_transfers s) k = Some x" for k x
    proof -
      show ne: "ses_volumeID x \<noteq> vid" using sessionsD(2) [OF m that] none by auto
      show "vstate (view w) (ses_volumeID x) = Some StateIncoming"
        using sh1 ne sessionsD(2) [OF m that] unfolding shift_def goes_def by metis
    qed
    have "the_session t = the_session (sv_transfers s) \<or> vstate (view w) vid = Some StateIncoming \<and>
        (\<exists>x. the_session t = (the_session (sv_transfers s))(tid \<mapsto> x) \<and> ses_volumeID x = vid)"
      using sh(2) t1(2) by (auto simp: new_session_def fun_upd_idem)
    then have "sessions_match ?m (vstate (view w)) t"
      using tab kept sessionsD(3) [OF m] unfolding sessions_match_def by (auto split: if_splits dest: kept(1))
    moreover have "shift (goes vid {Some StateIncoming, None} {None, Some StateIncoming}) (view (sv_host s)) (view w)"
      using sh1 by (rule shift_mono) (auto simp: goes_def)
    ultimately show ?thesis using incoming_jobs [OF ok] sh1 by blast
  qed
  then show "server_ok view (dm_cfg d) (s\<lparr>sv_host := w, sv_transfers := t\<rparr>)"
    and "shift (goes vid {None} {Some StateIncoming}) (view (sv_host s)) (view w)"
    by (auto simp: shift_def goes_def)
qed

lemma proper_PrepareReceive:
  assumes ok: "server_ok view (dm_cfg d) s"
  shows "proper d view (Request (ReqPrepareReceive vid tid n)) s (snd (api_PrepareReceive (dm_client d) (dm_cfg d) vid tid n s))"
proof -
  let ?e = "Request (ReqPrepareReceive vid tid n)"
  obtain g w1 where g: "GetVolume (dm_client d) (dm_cfg d) vid (sv_host s) = (g, w1)" by fastforce
  have st: "shift stays (view (sv_host s)) (view w1)" using stays_quiet [OF quiet_reads(1) server_okD(1) [OF ok]] g by (metis snd_conv)
  have read: "proper d view ?e s (s\<lparr>sv_host := w1\<rparr>)"
    by (rule proper_host [OF ok]) (use st in \<open>auto simp: shift_stays harmless_def goes_def intro: shift_same\<close>)
  obtain q t w where p: "PrepareReceive (dm_client d) (dm_cfg d) tid vid n (sv_transfers s, w1) = (q, (t, w))" by (metis prod.exhaust)
  have "proper d view ?e s (s\<lparr>sv_host := w, sv_transfers := t\<rparr>)"
    if "g = Inl e" "err_Is e ErrNotFound" "lv_name_ok vid" for e
  proof -
    have "vstate (view (sv_host s)) vid = None"
      using g that(3) by (cases rule: GetVolume_cases) (use that(1,2) in auto)
    then have "vstate (view w1) vid = None" using st by (simp add: shift_stays)
    from PrepareReceive_proper [of "s\<lparr>sv_host := w1\<rparr>", simplified, OF _ this p] read
    show ?thesis using shift_reads [OF st] by (simp add: proper_def)
  qed
  then show ?thesis
    using proper_refl [OF ok] read g p
    by (auto simp: api_PrepareReceive_def demand_def on_host_simps on_transfers_def snd_mapErr volumeIDPattern_iff split: sum.splits)
qed

end

end
