(* ===== verification/ServerJobs.thy ===== *)
theory ServerJobs
  imports ServerSafety
begin

text \<open>
  The background jobs as events of the daemon: each job ends its operation, gives back the snapshot it
  held, and moves the volumes it is about and no others.
\<close>

section \<open>The end of a job\<close>

text \<open>What other jobs and the transfers rely on is left alone.\<close>

lemma server_ok_worked:
  assumes ok: "server_ok view cfg s" and jobs: "sv_jobs s = xs @ j # ys"
    and T: "shift T (view (sv_host s)) (view w)"
    and safe: "\<And>n b. T n (vstate (view (sv_host s)) n) b \<Longrightarrow>
      n \<notin> set (of_jobs job_holds (xs @ ys)) \<union> set (of_jobs job_removes (xs @ ys)) \<union> transfer_volumes (sv_transfers s)"
    and t: "running t = running (sv_ops s) - set (job_ops j)" "t [] = None"
    and p: "job_holds j = [] \<and> p = sv_pins s \<or> (\<exists>k. job_holds j = [k] \<and> p = snd (Release (sv_pins s) k))"
  shows "server_ok view cfg (s\<lparr>sv_host := w, sv_ops := t, sv_pins := p, sv_jobs := xs @ ys\<rparr>)"
proof -
  let ?v = "vstate (view (sv_host s))" and ?v' = "vstate (view w)"
  note o = server_okD [OF ok, unfolded jobs]
  have keep: "?v' n = ?v n"
    if "n \<in> set (of_jobs job_holds (xs @ ys)) \<union> set (of_jobs job_removes (xs @ ys)) \<union> transfer_volumes (sv_transfers s)" for n
    using that T safe [of n "?v' n"] unfolding shift_def by blast
  have ops: "ops_match t (xs @ ys)" using o(2) t by (auto simp: ops_match_def)
  have "removals_match ?v' (xs @ ys)" using o(4) keep by (auto simp: removals_match_def)
  moreover have "?v' (ses_volumeID x) = ?v (ses_volumeID x)" if "the_session (sv_transfers s) tid = Some x" for tid x
    using that by (intro keep) (auto simp: transfer_volumes_def)
  then have "sessions_match (cfg_MaxInboundTransfers cfg) ?v' (sv_transfers s)"
    using o(5) unfolding sessions_match_def by metis
  moreover have "pins_match ?v' p (xs @ ys)"
  proof -
    have "pins_match ?v p (xs @ ys)" using p
    proof
      assume "job_holds j = [] \<and> p = sv_pins s"
      then show ?thesis using o(3) by (simp add: pins_match_def)
    qed (use pins_match_drop [OF o(3)] in auto)
    then show ?thesis using keep by (auto simp: pins_match_def)
  qed
  ultimately show ?thesis using o ops shift_wf [OF T] by (simp add: server_ok_def Let_def)
qed

text \<open>While a job runs, and at its end. The table of operations forgets none.\<close>

lemma ops_dom: "dom (ops_Progress t op k) = dom t" "dom (ops_Done t op) = dom t" "dom (ops_Fail t op reason) = dom t"
  by (auto simp: ops_Progress_def ops_Done_def ops_Fail_def)

lemma dom_None: "dom t = dom t' \<Longrightarrow> t' k = None \<Longrightarrow> t k = None"
  by (metis domIff)

definition during :: "('w \<Rightarrow> lvview) \<Rightarrow> transition \<Rightarrow> 'w server \<Rightarrow> 'w server \<Rightarrow> bool" where
  "during view T s0 s \<longleftrightarrow>
     (\<exists>w t. s = s0\<lparr>sv_host := w, sv_ops := t\<rparr> \<and> shift T (view (sv_host s0)) (view w) \<and>
        running t = running (sv_ops s0) \<and> dom t = dom (sv_ops s0))"

definition ended :: "('w \<Rightarrow> lvview) \<Rightarrow> transition \<Rightarrow> string \<Rightarrow> 'w server \<Rightarrow> 'w server \<Rightarrow> bool" where
  "ended view T op s0 s \<longleftrightarrow>
     (\<exists>w t. s = s0\<lparr>sv_host := w, sv_ops := t\<rparr> \<and> shift T (view (sv_host s0)) (view w) \<and>
        running t = running (sv_ops s0) - {op} \<and> dom t = dom (sv_ops s0))"

text \<open>At the end of a job that held a snapshot.\<close>

definition released :: "('w \<Rightarrow> lvview) \<Rightarrow> transition \<Rightarrow> string \<Rightarrow> string \<Rightarrow> 'w server \<Rightarrow> 'w server \<Rightarrow> bool" where
  "released view T op sid s0 s \<longleftrightarrow>
     (\<exists>w t. s = s0\<lparr>sv_host := w, sv_ops := t, sv_pins := snd (Release (sv_pins s0) sid)\<rparr> \<and>
        shift T (view (sv_host s0)) (view w) \<and> running t = running (sv_ops s0) - {op} \<and> dom t = dom (sv_ops s0))"

lemma during_refl: "wf_view (view (sv_host s)) \<Longrightarrow> during view T s s"
  unfolding during_def by (intro exI [of _ "sv_host s"] exI [of _ "sv_ops s"]) simp

lemma during_host:
  assumes "during view T s0 s" and "\<And>v. shift T v (view (sv_host s)) \<Longrightarrow> shift T v (view w)"
  shows "during view T s0 (s\<lparr>sv_host := w\<rparr>)"
proof -
  obtain w' t where s: "s = s0\<lparr>sv_host := w', sv_ops := t\<rparr>" and h: "shift T (view (sv_host s0)) (view w')"
      "running t = running (sv_ops s0)" "dom t = dom (sv_ops s0)"
    using assms(1) by (auto simp: during_def)
  show ?thesis unfolding during_def s
    by (intro exI [of _ w] exI [of _ t]) (use assms(2) [of "view (sv_host s0)"] in \<open>simp add: h s\<close>)
qed

lemma during_ended:
  assumes "during view T s0 s"
  shows "ended view T op s0 (ops_fail op reason s)" and "ended view T op s0 (ops_finish op s)"
proof -
  obtain w t where s: "s = s0\<lparr>sv_host := w, sv_ops := t\<rparr>" and h: "shift T (view (sv_host s0)) (view w)"
      "running t = running (sv_ops s0)" "dom t = dom (sv_ops s0)"
    using assms by (auto simp: during_def)
  show "ended view T op s0 (ops_fail op reason s)"
    unfolding ended_def ops_fail_def s
    by (intro exI [of _ w] exI [of _ "ops_Fail t op reason"]) (simp add: h running_ends ops_dom)
  show "ended view T op s0 (ops_finish op s)"
    unfolding ended_def ops_finish_def s
    by (intro exI [of _ w] exI [of _ "ops_Done t op"]) (simp add: h running_ends ops_dom)
qed

text \<open>Calls that move volumes along \<open>T\<close>, where moves along \<open>T\<close> compose.\<close>

definition moves_by :: "('w \<Rightarrow> lvview) \<Rightarrow> transition \<Rightarrow> ('w, 'e, 'a) go \<Rightarrow> bool" where
  "moves_by view T m \<longleftrightarrow> (\<forall>w. wf_view (view w) \<longrightarrow> shift T (view w) (view (snd (m w))))"

definition composes :: "transition \<Rightarrow> bool" where
  "composes T \<longleftrightarrow> (\<forall>n a b c. T n a b \<longrightarrow> T n b c \<longrightarrow> a = c \<or> T n a c)"

lemma ended_host:
  assumes "ended view T op s0 s" and "composes T" and "shift T (view (sv_host s)) (view w)"
  shows "ended view T op s0 (s\<lparr>sv_host := w\<rparr>)"
proof -
  obtain w' t where s: "s = s0\<lparr>sv_host := w', sv_ops := t\<rparr>" and h: "shift T (view (sv_host s0)) (view w')"
      "running t = running (sv_ops s0) - {op}" "dom t = dom (sv_ops s0)"
    using assms(1) by (auto simp: ended_def)
  have "shift T (view (sv_host s0)) (view w)"
    by (rule shift_trans [where U = T, OF h(1)]) (use assms(2,3) s in \<open>auto simp: composes_def\<close>)
  then show ?thesis unfolding ended_def s by (intro exI [of _ w] exI [of _ t]) (simp add: h)
qed

lemma moves_by_quiet: "quiet view m \<Longrightarrow> moves_by view T m"
  by (auto simp: moves_by_def quiet_def keeps_def intro!: shift_same)

lemma keeps_during: "moves_by view T m \<Longrightarrow> composes T \<Longrightarrow> keeps (during view T s0) (on_host m)"
  unfolding keeps_def
proof (intro allI impI)
  fix s assume m: "moves_by view T m" "composes T" and "during view T s0 s"
  moreover have "shift T v (view (snd (m (sv_host s))))" if "shift T v (view (sv_host s))" for v
    by (rule shift_trans [where T = T and U = T, OF that]) (use m shift_wf [OF that] in \<open>auto simp: moves_by_def composes_def\<close>)
  ultimately show "during view T s0 (snd (on_host m s))" by (simp add: on_host_simps during_host)
qed

lemma during_progress:
  assumes "during view T s0 s" and "op \<in> running (sv_ops s0)"
  shows "during view T s0 (s\<lparr>sv_ops := ops_Progress (sv_ops s) op k\<rparr>)"
proof -
  obtain w t where s: "s = s0\<lparr>sv_host := w, sv_ops := t\<rparr>" and h: "shift T (view (sv_host s0)) (view w)"
      "running t = running (sv_ops s0)" "dom t = dom (sv_ops s0)"
    using assms(1) by (auto simp: during_def)
  show ?thesis unfolding during_def s
    by (intro exI [of _ w] exI [of _ "ops_Progress t op k"]) (simp add: h assms(2) running_Progress ops_dom)
qed

lemma composes_stays [simp]: "composes stays"
  by (simp add: composes_def stays_def)

lemma composes_goes: "A \<inter> B \<subseteq> B \<Longrightarrow> composes (goes n A B)"
  by (auto simp: composes_def goes_def)

context served
begin

lemma dial_cases:
  assumes "on_host (dm_dial d target) s = (r, s1)" and "during view T s0 s" and "composes T"
  shows "during view T s0 s1" and "r = Inr peer \<Longrightarrow> quiet_peer view peer"
proof -
  have d: "quiet view (dm_dial d target)" "\<And>w p w'. dm_dial d target w = (Inr p, w') \<Longrightarrow> quiet_peer view p"
    using surroundings unfolding daemon_ok_def by blast+
  show "during view T s0 s1"
    using keepsD [OF keeps_during [OF moves_by_quiet [OF d(1)] assms(3)] assms(2,1)] .
  show "r = Inr peer \<Longrightarrow> quiet_peer view peer" using d(2) [of "sv_host s" peer "snd (dm_dial d target (sv_host s))"] assms(1)
    by (metis Pair_inject on_host_simps prod.collapse)
qed

lemma keeps_stream_during:
  assumes "quiet_peer view peer" and "composes T" and "op \<in> running (sv_ops s0)"
  shows "keeps_stream (during view T s0) (dm_io d) peer tid op"
  using assms unfolding keeps_stream_def keeps_reads_def lift_io_def quiet_peer_def
  by (auto intro!: keeps_during moves_by_quiet quiet_io during_progress)

lemma streamVolume_during:
  assumes "quiet_peer view peer" and "composes T" and "op \<in> running (sv_ops s0)" and "during view T s0 s"
  shows "during view T s0 (snd (streamVolume H (dm_io d) cancelled (dm_client d) (dm_cfg d) peer vid tid op ignore s))"
  using keeps_streamVolume [OF keeps_stream_during [OF assms(1-3)] keeps_during keeps_during]
    moves_by_quiet [OF quiet_reads(1)] moves_by_quiet [OF quiet_activity(2)] assms(2,4)
  by (simp add: keeps_def)

lemma calls_during:
  assumes "quiet_peer view peer" and "composes T" and "during view T s0 s"
  shows "during view T s0 (abortTransfer peer tid s)" and "during view T s0 (snd (commitPush peer tid digest s))"
    and "during view T s0 (snd (on_host (p_QueryVolume peer vid) s))"
    and "during view T s0 (snd (on_host (DeactivateLogicalVolume (dm_client d) (lv_target (dm_cfg d) vid) no_common) s))"
proof -
  have k: "keeps (during view T s0) (on_host m)" if "quiet view m" for m :: "('w, 'e, 'a) go"
    using keeps_during [OF moves_by_quiet [OF that] assms(2)] .
  show "during view T s0 (abortTransfer peer tid s)" "during view T s0 (snd (on_host (p_QueryVolume peer vid) s))"
    using assms(1,3) k [of "p_AbortTransfer peer tid"] k [of "p_QueryVolume peer vid"]
    by (simp_all add: quiet_peer_def abortTransfer_def keeps_def)
  show "during view T s0 (snd (commitPush peer tid digest s))"
    by (rule commitPush_keeps [OF k assms(3)]) (use assms(1) in \<open>simp add: quiet_peer_def\<close>)
  show "during view T s0 (snd (on_host (DeactivateLogicalVolume (dm_client d) (lv_target (dm_cfg d) vid) no_common) s))"
    using k [OF quiet_activity(1)] assms(3) by (simp add: keeps_def)
qed

end

section \<open>Pushes\<close>

text \<open>What a push may do to its volume, where \<open>B\<close> are the states it may leave it in.\<close>

abbreviation pushes :: "string \<Rightarrow> State option set \<Rightarrow> transition" where
  "pushes vid B \<equiv> goes vid {Some StatePushing, Some StateCommitting} B"

lemma composes_pushes [simp]: "composes (pushes vid B)"
  by (auto simp: composes_def goes_def)

lemma pushes_mono: "shift (goes vid A B) v v' \<Longrightarrow> A \<subseteq> {Some StatePushing, Some StateCommitting} \<Longrightarrow> B \<subseteq> C \<Longrightarrow>
    shift (pushes vid C) v v'"
  by (erule shift_mono) (auto simp: goes_def)

context served
begin

lemma push_verbs_move:
  assumes "lv_name_ok vid"
  shows "Some StateReady \<in> B \<Longrightarrow> moves_by view (pushes vid B) (AbortPush (dm_client d) (dm_cfg d) vid)"
    and "Some StateRetired \<in> B \<Longrightarrow> moves_by view (pushes vid B) (RetirePushed (dm_client d) (dm_cfg d) vid)"
    and "Some StateCommitting \<in> B \<Longrightarrow> moves_by view (pushes vid B) (MarkCommitting (dm_client d) (dm_cfg d) vid)"
  using shift_AbortPush [OF prod.collapse [symmetric] _ assms] shift_RetirePushed [OF prod.collapse [symmetric] _ assms]
    shift_MarkCommitting [OF prod.collapse [symmetric] _ assms]
  by (auto simp: moves_by_def intro!: pushes_mono)

lemma failPush_ended:
  assumes "lv_name_ok vid" and "Some StateReady \<in> B" and "during view (pushes vid B) s0 s"
  shows "ended view (pushes vid B) op s0 (failPush (dm_client d) (dm_cfg d) vid op cause s)"
proof -
  have "during view (pushes vid B) s0 (snd (on_host (AbortPush (dm_client d) (dm_cfg d) vid) s))"
    using keeps_during [OF push_verbs_move(1) [OF assms(1,2)] composes_pushes] assms(3) by (simp add: keeps_def)
  then show ?thesis unfolding failPush_def by (rule during_ended)
qed

lemma retirePushed_ended:
  assumes "lv_name_ok vid" and "Some StateRetired \<in> B" and "during view (pushes vid B) s0 s"
  shows "ended view (pushes vid B) op s0 (retirePushed (dm_client d) (dm_cfg d) vid op s)"
proof -
  obtain r s1 where r: "on_host (RetirePushed (dm_client d) (dm_cfg d) vid) s = (r, s1)" by fastforce
  have "during view (pushes vid B) s0 s1"
    using keepsD [OF keeps_during [OF push_verbs_move(2) [OF assms(1,2)] composes_pushes] assms(3) r] .
  then show ?thesis unfolding retirePushed_def r by (auto intro: during_ended split: sum.split)
qed

lemma settlePush_ended:
  assumes "lv_name_ok vid" and "{Some StateReady, Some StateRetired} \<subseteq> B" and "quiet_peer view peer"
    and "during view (pushes vid B) s0 s"
  shows "ended view (pushes vid B) op s0 (settlePush (dm_client d) (dm_cfg d) peer committed vid tid op e s)"
  using assms calls_during(1) [OF assms(3) composes_pushes assms(4)]
  by (auto simp: settlePush_def intro!: retirePushed_ended failPush_ended)

lemma resolvePush_ended:
  assumes "lv_name_ok vid" and "{Some StateReady, Some StateRetired} \<subseteq> B" and "quiet_peer view peer"
    and "during view (pushes vid B) s0 s"
  shows "ended view (pushes vid B) op s0 (resolvePush (dm_client d) (dm_cfg d) peer vid tid op e s)"
proof -
  obtain r s1 where r: "on_host (p_QueryVolume peer vid) s = (r, s1)" by fastforce
  have s1: "during view (pushes vid B) s0 s1"
    using calls_during(3) [OF assms(3) composes_pushes assms(4), of vid] r by simp
  then show ?thesis
    using calls_during(4) [OF assms(3) composes_pushes s1] settlePush_ended [OF assms(1-3) s1]
    unfolding resolvePush_def r by (auto intro: during_ended split: sum.split)
qed

lemma finishPush_ended:
  assumes "lv_name_ok vid" and "{Some StateReady, Some StateRetired} \<subseteq> B" and "quiet_peer view peer"
    and "during view (pushes vid B) s0 s"
  shows "ended view (pushes vid B) op s0 (finishPush (dm_client d) (dm_cfg d) peer vid tid op digest s)"
proof -
  obtain oc e s1 where c: "commitPush peer tid digest s = ((oc, e), s1)" by (metis prod.exhaust)
  have s1: "during view (pushes vid B) s0 s1"
    using calls_during(2) [OF assms(3) composes_pushes assms(4), of tid digest] c by simp
  show ?thesis
    unfolding finishPush_def c Let_def
    using assms(1,2) s1 by (cases oc) (auto intro: retirePushed_ended failPush_ended resolvePush_ended [OF assms(1-3)])
qed

lemma runPush_ended:
  assumes "lv_name_ok vid" and B: "B = {Some StateCommitting, Some StateReady, Some StateRetired}"
    and "op \<in> running (sv_ops s)" and "wf_view (view (sv_host s))"
  shows "ended view (pushes vid B) op s
    (runPush H (dm_io d) cancelled (dm_client d) (dm_cfg d) (dm_dial d) vid tid target op s)"
proof -
  let ?D = "during view (pushes vid B) s"
  have fails: "ended view (pushes vid B) op s (failPush (dm_client d) (dm_cfg d) vid op cause s')" if "?D s'" for cause s'
    by (rule failPush_ended [OF assms(1) _ that]) (simp add: B)
  obtain r s1 where r: "on_host (dm_dial d target) s = (r, s1)" by fastforce
  note s1 = dial_cases [OF r during_refl [where view = view, OF assms(4)] composes_pushes [of vid B]]
  show ?thesis
  proof (cases r)
    case (Inl e)
    then show ?thesis using fails s1(1) unfolding runPush_def r by simp
  next
    case (Inr peer)
    note q = s1(2) [OF Inr]
    have aborted: "?D (abortTransfer peer tid s')" if "?D s'" for s'
      by (rule calls_during(1) [OF q composes_pushes that])
    obtain x s2 where x: "streamVolume H (dm_io d) cancelled (dm_client d) (dm_cfg d) peer vid tid op False s1 = (x, s2)" by fastforce
    have s2: "?D s2"
      using streamVolume_during [OF q composes_pushes assms(3) s1(1), where vid = vid] x by (metis snd_conv)
    obtain y s3 where y: "on_host (MarkCommitting (dm_client d) (dm_cfg d) vid) s2 = (y, s3)" by fastforce
    have s3: "?D s3"
      using keepsD [OF keeps_during [OF push_verbs_move(3) [OF assms(1)] composes_pushes] s2 y] by (simp add: B)
    have "ended view (pushes vid B) op s (finishPush (dm_client d) (dm_cfg d) peer vid tid op digest s3)" for digest
      by (rule finishPush_ended [OF assms(1) _ q s3]) (simp add: B)
    then show ?thesis
      using fails aborted s2 s3 y unfolding runPush_def r Inr by (auto simp: x split: sum.split)
  qed
qed

lemma tryResolve_ended:
  assumes "lv_name_ok vid" and B: "B = {Some StateReady, Some StateRetired}"
    and "wf_view (view (sv_host s))"
    and t: "tryResolve (dm_client d) (dm_cfg d) (dm_dial d) vid tid target s = (b, s')"
  shows "if b then ended view (pushes vid B) [] s s' else during view (pushes vid B) s s'"
proof -
  obtain r s1 where r: "on_host (dm_dial d target) s = (r, s1)" by fastforce
  note s1 = dial_cases [OF r during_refl [where view = view, OF assms(3)] composes_pushes [of vid B]]
  show ?thesis
  proof (cases r)
    case (Inl e)
    then show ?thesis using s1(1) t unfolding tryResolve_def r by auto
  next
    case (Inr peer)
    note q = s1(2) [OF Inr]
    obtain x s2 where x: "on_host (p_QueryVolume peer vid) s1 = (x, s2)" by fastforce
    have s2: "during view (pushes vid B) s s2"
      using calls_during(3) [OF q composes_pushes s1(1), of vid] x by simp
    show ?thesis
      using t s2 settlePush_ended [OF assms(1) _ q s2] unfolding tryResolve_def r Inr
      by (cases x) (auto simp: x B)
  qed
qed

lemma ended_released:
  assumes "ended view T op s0 s"
  shows "released view T op sid s0 (releaseExport (dm_client d) (dm_cfg d) sid s)"
proof -
  obtain w t where s: "s = s0\<lparr>sv_host := w, sv_ops := t\<rparr>" and h: "shift T (view (sv_host s0)) (view w)"
      "running t = running (sv_ops s0) - {op}" "dom t = dom (sv_ops s0)"
    using assms by (auto simp: ended_def)
  obtain w1 where r: "releaseExport (dm_client d) (dm_cfg d) sid s = s\<lparr>sv_host := w1, sv_pins := snd (Release (sv_pins s) sid)\<rparr>"
    and w1: "shift stays (view w) (view w1)"
    using releaseExport_host [of s sid] shift_wf [OF h(1)] s by auto
  have "shift T (view (sv_host s0)) (view w1)" using h(1) w1 by (simp add: shift_stays) (simp add: shift_def)
  then show ?thesis
    unfolding released_def r unfolding s by (intro exI [of _ w1] exI [of _ t]) (simp add: h)
qed

text \<open>A snapshot that is pushed stays a snapshot.\<close>

lemma runSnapshotPush_released:
  assumes "op \<in> running (sv_ops s)" and "wf_view (view (sv_host s))"
  shows "released view stays op sid s
    (runSnapshotPush H (dm_io d) cancelled (dm_client d) (dm_cfg d) (dm_dial d) sid tid target op s)"
proof -
  let ?D = "during view stays s"
  have fails: "ended view stays op s (failSnapshotPush op cause s')" if "?D s'" for cause s'
    unfolding failSnapshotPush_def using that by (rule during_ended)
  obtain r s1 where r: "on_host (dm_dial d target) s = (r, s1)" by fastforce
  note s1 = dial_cases [OF r during_refl [where view = view, OF assms(2)] composes_stays]
  show ?thesis
    unfolding runSnapshotPush_def r
  proof (rule ended_released, cases r)
    case (Inr peer)
    note q = s1(2) [OF Inr]
    have aborted: "?D (abortTransfer peer tid s')" if "?D s'" for s'
      by (rule calls_during(1) [OF q composes_stays that])
    obtain x s2 where x: "streamVolume H (dm_io d) cancelled (dm_client d) (dm_cfg d) peer sid tid op True s1 = (x, s2)" by fastforce
    have s2: "?D s2"
      using streamVolume_during [OF q composes_stays assms(1) s1(1), where vid = sid] x by (metis snd_conv)
    have s3: "?D s3" if "commitPush peer tid digest s2 = (oc, s3)" for digest oc s3
      using calls_during(2) [OF q composes_stays s2, of tid digest] that by simp
    show "ended view stays op s (case (r, s1) of
          (Inl e, s1) \<Rightarrow> failSnapshotPush op (Some (Wrap (''dialing '' @ target @ '': '') e [])) s1
        | (Inr peer, s1) \<Rightarrow>
            case streamVolume H (dm_io d) cancelled (dm_client d) (dm_cfg d) peer sid tid op True s1 of
              (Inl e, s2) \<Rightarrow> failSnapshotPush op (Some e) (abortTransfer peer tid s2)
            | (Inr digest, s2) \<Rightarrow>
                let ((outcome, e), s3) = commitPush peer tid digest s2 in
                case outcome of
                  commitLanded \<Rightarrow> ops_finish op s3
                | commitRefused \<Rightarrow> failSnapshotPush op e s3
                | commitUnknown \<Rightarrow>
                    failSnapshotPush op (map_option (\<lambda>e. Wrap ''commit outcome unknown: '' e []) e) (abortTransfer peer tid s3))"
      unfolding Inr using x s2 s3 fails aborted
      by (auto split: sum.split prod.split commitOutcome.split intro: during_ended(2))
  qed (use fails s1(1) in simp)
qed

end

section \<open>Creating and deleting\<close>

context served
begin

lemma runCreate_ended:
  assumes "wf_view (view (sv_host s))"
  shows "ended view (goes vid {None} {Some StateCreating, Some StateReady}) op s (runCreate (dm_client d) (dm_cfg d) vid n op s)"
proof -
  obtain r w where r: "CreateVolume (dm_client d) (dm_cfg d) vid n (sv_host s) = (r, w)" by fastforce
  let ?T = "goes vid {None} {Some StateCreating, Some StateReady}"
  have "during view ?T s (s\<lparr>sv_host := w\<rparr>)"
    unfolding during_def using shift_CreateVolume [OF r assms(1)]
    by (intro exI [of _ w] exI [of _ "sv_ops s"]) simp
  then show ?thesis unfolding runCreate_def on_host_simps r by (auto intro: during_ended split: sum.split)
qed

lemma shift_remove_all:
  assumes "remove_all (dm_client d) (dm_cfg d) targets w = (r, w')" and "wf_view (view w)" and "distinct targets"
    and "\<forall>n \<in> set targets. vstate (view w) n = Some StateDeleting"
  shows "shift (\<lambda>n a b. n \<in> set targets \<and> a = Some StateDeleting \<and> b = None) (view w) (view w')"
  using assms
proof (induction targets arbitrary: w)
  case (Cons n targets)
  obtain q w1 where q: "RemoveVolume (dm_client d) (dm_cfg d) n w = (q, w1)" by fastforce
  have n: "vstate (view w) n = Some StateDeleting" using Cons.prems(4) by simp
  have 1: "shift (goes n {Some StateDeleting} {None}) (view w) (view w1)"
    using shift_RemoveVolume(1) [OF q Cons.prems(2)] n by simp
  show ?case
  proof (cases q)
    case (Inl e)
    then have "w1 = w'" using Cons.prems(1) q by (simp add: seqE_def)
    from 1 [unfolded this] show ?thesis by (rule shift_mono) (auto simp: goes_def)
  next
    case (Inr u)
    then have run: "remove_all (dm_client d) (dm_cfg d) targets w1 = (r, w')" using Cons.prems(1) q by (simp add: seqE_def)
    have "vstate (view w1) m = Some StateDeleting" if "m \<in> set targets" for m
      using shift_RemoveVolume(2) [OF q Cons.prems(2)] Cons.prems(3,4) that by auto
    with Cons.IH [OF run shift_wf [OF 1]] Cons.prems(3)
    have "shift (\<lambda>n a b. n \<in> set targets \<and> a = Some StateDeleting \<and> b = None) (view w1) (view w')" by simp
    with 1 show ?thesis by (rule shift_trans) (auto simp: goes_def)
  qed
qed simp

lemma runDelete_ended:
  assumes "wf_view (view (sv_host s))" and "distinct (snapshots @ [vid])"
    and "\<forall>n \<in> set (snapshots @ [vid]). vstate (view (sv_host s)) n = Some StateDeleting"
  shows "ended view (permits_job (RunDelete vid snapshots op)) op s (runDelete (dm_client d) (dm_cfg d) vid snapshots op s)"
proof -
  obtain r w where r: "remove_all (dm_client d) (dm_cfg d) (snapshots @ [vid]) (sv_host s) = (r, w)" by fastforce
  have "during view (permits_job (RunDelete vid snapshots op)) s (s\<lparr>sv_host := w\<rparr>)"
    unfolding during_def using shift_remove_all [OF r assms]
    by (intro exI [of _ w] exI [of _ "sv_ops s"]) simp
  then show ?thesis unfolding runDelete_def on_host_simps r by (auto intro: during_ended split: sum.split)
qed

end

section \<open>Copying a snapshot\<close>

text \<open>Calls before the last one keep \<open>P\<close>, whatever stops them leaves \<open>R\<close>.\<close>

lemma seqE_within:
  assumes "keeps P m" and "P w" and "\<And>w. P w \<Longrightarrow> R w" and "\<And>a w. P w \<Longrightarrow> R (snd (f a w))"
  shows "R (snd (seqE m f w))"
proof -
  obtain r w1 where m: "m w = (r, w1)" by fastforce
  then have "P w1" using keepsD [OF assms(1,2)] by blast
  then show ?thesis using m assms(3,4) by (cases r) (auto simp: seqE_def)
qed

lemma seqE_snd: "m w = (r, w1) \<Longrightarrow> snd (seqE m f w) = (case r of Inl e \<Rightarrow> w1 | Inr a \<Rightarrow> snd (f a w1))"
  by (simp add: seqE_def split: sum.split)

lemma on_host_result: "m (sv_host s) = (r, w) \<Longrightarrow> on_host m s = (r, s\<lparr>sv_host := w\<rparr>)"
  by (simp add: on_host_simps)

text \<open>A copy under way: its target is there, marked as being created.\<close>

definition copying :: "('w \<Rightarrow> lvview) \<Rightarrow> string \<Rightarrow> transition \<Rightarrow> 'w server \<Rightarrow> 'w server \<Rightarrow> bool" where
  "copying view vid T s0 s \<longleftrightarrow> during view T s0 s \<and> vstate (view (sv_host s)) vid = Some StateCreating"

lemma during_wf: "during view T s0 s \<Longrightarrow> wf_view (view (sv_host s))"
  by (auto simp: during_def dest: shift_wf)

lemma keeps_copying:
  assumes "quiet view m" and "composes T"
  shows "keeps (copying view vid T s0) (on_host m)"
  unfolding keeps_def copying_def
proof (intro allI impI, elim conjE)
  fix s assume s: "during view T s0 s" "vstate (view (sv_host s)) vid = Some StateCreating"
  have "vstate (view (snd (m (sv_host s)))) = vstate (view (sv_host s))"
    using assms(1) during_wf [OF s(1)] by (simp add: quiet_def keeps_def)
  then show "during view T s0 (snd (on_host m s)) \<and> vstate (view (sv_host (snd (on_host m s)))) vid = Some StateCreating"
    using s keeps_during [OF moves_by_quiet [OF assms(1)] assms(2)] by (simp add: keeps_def on_host_simps)
qed

context served
begin

lemma during_moved:
  assumes "during view T s0 s" and "composes T" and "shift T (view (sv_host s)) (view w)"
  shows "during view T s0 (s\<lparr>sv_host := w\<rparr>)"
proof (rule during_host [OF assms(1)])
  fix v assume "shift T v (view (sv_host s))"
  then show "shift T v (view w)"
    using assms(3) by (rule shift_trans) (use assms(2) in \<open>auto simp: composes_def\<close>)
qed

lemma ready_copy:
  assumes p: "copying view vid (goes vid S S) s0 s" and S: "{Some StateCreating, Some StateReady} \<subseteq> S"
  shows "during view (goes vid S S) s0 (snd (on_host (wrap what (ChangeLogicalVolume (dm_client d) (lv_target (dm_cfg d) vid)
      (retag_opts [StateTag StateReady] [StateTag StateCreating] None))) s))"
proof -
  obtain r w where r: "wrap what (ChangeLogicalVolume (dm_client d) (lv_target (dm_cfg d) vid)
      (retag_opts [StateTag StateReady] [StateTag StateCreating] None)) (sv_host s) = (r, w)" by fastforce
  have wf: "wf_view (view (sv_host s))" using p during_wf by (auto simp: copying_def)
  have "can_move vid StateReady [] StateCreating [] (view (sv_host s))"
    using p wf by (simp add: can_move_def copying_def)
  with r have "shift (goes vid S S) (view (sv_host s)) (view w)"
    by (cases rule: retag_cases) (use wf S shift_moves [OF _ wf] in auto)
  moreover have "composes (goes vid S S)" by (auto simp: composes_def goes_def)
  ultimately show ?thesis using p during_moved by (simp add: copying_def on_host_simps r)
qed

lemma copyFromSnapshot_during:
  assumes wf: "wf_view (view (sv_host s))" and s: "view (sv_host s) vid = None" "op \<in> running (sv_ops s)"
    and S: "{None, Some StateCreating, Some StateReady} \<subseteq> S"
  shows "during view (goes vid S S) s (snd (copyFromSnapshot H (dm_io d) cancelled (dm_client d) (dm_cfg d) vid sid op n s))"
proof -
  let ?D = "during view (goes vid S S) s" and ?P = "copying view vid (goes vid S S) s"
  have comp: "composes (goes vid S S)" by (auto simp: composes_def goes_def)
  let ?create = "wrap (''creating copy target '' @ vid) (CreateThinVolume (dm_client d) (cfg_VolumeGroup (dm_cfg d))
      (cfg_ThinPool (dm_cfg d)) vid n (thin_opts [StateTag StateCreating] None))"
  obtain q w where q: "?create (sv_host s) = (q, w)" by fastforce
  have h: "on_host ?create s = (q, s\<lparr>sv_host := w\<rparr>)" using q by (rule on_host_result)
  have made: "wf_view (view w) \<and> vstate (view w) = (vstate (view (sv_host s)))(vid \<mapsto> StateCreating)"
    if e: "lv_effect (cfg_ThinPool (dm_cfg d)) (OpCreateThin vid n [StateTag StateCreating] None) (view (sv_host s)) (view w)"
    using effect_create(1,2) [OF e wf] by simp
  have none: "vstate (view (sv_host s)) vid = None" using s(1) by (simp add: vstate_def)
  have "shift (goes vid S S) (view (sv_host s)) (view w)"
    by (rule does_cases [OF create_does q]) (use wf made none S in \<open>auto intro!: shift_upd simp: goes_def\<close>)
  then have D: "?D (s\<lparr>sv_host := w\<rparr>)"
    by (rule during_moved [OF during_refl [where view = view, OF wf] comp])
  have P: "?P (s\<lparr>sv_host := w\<rparr>)" if "q = Inr u" for u
    by (rule does_cases [OF create_does q]) (use D made that in \<open>auto simp: copying_def\<close>)
  have io: "keeps_reads ?P (lift_io (dm_io d))" "keeps ?P (d_openw (lift_io (dm_io d)) p)" "keeps ?P (d_sync (lift_io (dm_io d)) p)"
    "keeps ?P (d_write (lift_io (dm_io d)) p off data)" for p off data
    by (simp_all add: keeps_reads_def lift_io_def keeps_copying comp quiet_io)
  have progress: "?P s' \<Longrightarrow> ?P (s'\<lparr>sv_ops := ops_Progress (sv_ops s') op k\<rparr>)" for s' k
    using s(2) by (simp add: copying_def during_progress)
  have weak: "?P s' \<Longrightarrow> ?D s'" for s' by (simp add: copying_def)
  note calls = keeps_copying [OF quiet_reads(1) comp] keeps_copying [OF quiet_activity(3) comp]
    keeps_copying [OF quiet_activity(4) comp] keeps_CopyDevice [OF io progress]
  show ?thesis
    unfolding copyFromSnapshot_def seqE_snd [of "on_host ?create" s, OF h]
  proof (cases q)
    case (Inr u)
    show "?D (case q of Inl e \<Rightarrow> s\<lparr>sv_host := w\<rparr> | Inr _ \<Rightarrow> snd ((seqE (on_host (GetVolume (dm_client d) (dm_cfg d) vid)) (\<lambda>target.
     seqE (on_host (wrap (''activating snapshot '' @ sid)
             (ActivateLogicalVolume (dm_client d) (lv_target (dm_cfg d) sid) (activate_opts True)))) (\<lambda>_.
     seqE (on_host (GetVolume (dm_client d) (dm_cfg d) sid)) (\<lambda>snapshot.
     seqE (CopyDevice H (lift_io (dm_io d)) cancelled (vol_Path snapshot) (vol_Path target)
             (\<lambda>k s. s\<lparr>sv_ops := ops_Progress (sv_ops s) op k\<rparr>)) (\<lambda>_.
     seqE (on_host (wrap (''deactivating copy '' @ vid)
             (DeactivateLogicalVolume (dm_client d) (lv_target (dm_cfg d) vid) no_common))) (\<lambda>_.
     on_host (wrap (''readying copy '' @ vid)
       (ChangeLogicalVolume (dm_client d) (lv_target (dm_cfg d) vid)
         (retag_opts [StateTag StateReady] [StateTag StateCreating] None))))))))) (s\<lparr>sv_host := w\<rparr>)))"
      unfolding Inr sum.case
      by (rule seqE_within [where P = ?P and R = ?D], (rule calls | rule P [OF Inr] | erule weak | assumption)+)+
        (use S in \<open>auto intro!: ready_copy\<close>)
  qed (use D in simp)
qed

lemma ended_mono:
  assumes "ended view T op s0 s"
    and "\<And>n b. T n (vstate (view (sv_host s0)) n) b \<Longrightarrow>
      U n (vstate (view (sv_host s0)) n) b \<or> b = vstate (view (sv_host s0)) n"
  shows "ended view U op s0 s"
proof -
  obtain w t where s: "s = s0\<lparr>sv_host := w, sv_ops := t\<rparr>" and h: "shift T (view (sv_host s0)) (view w)"
      "running t = running (sv_ops s0) - {op}" "dom t = dom (sv_ops s0)"
    using assms(1) by (auto simp: ended_def)
  have "shift U (view (sv_host s0)) (view w)" using h(1) assms(2) unfolding shift_def by metis
  then show ?thesis unfolding ended_def s by (intro exI [of _ w] exI [of _ t]) (simp add: h)
qed

lemma runCopy_free:
  assumes wf: "wf_view (view (sv_host s))" and s: "view (sv_host s) vid = None" "op \<in> running (sv_ops s)"
  shows "released view (goes vid {None} {Some StateCreating, Some StateReady}) op sid s
    (runCopyFromSnapshot H (dm_io d) cancelled (dm_client d) (dm_cfg d) vid sid op n s)"
proof -
  let ?S = "{None, Some StateCreating, Some StateReady}" and ?T = "goes vid {None} {Some StateCreating, Some StateReady}"
  obtain r s1 where r: "copyFromSnapshot H (dm_io d) cancelled (dm_client d) (dm_cfg d) vid sid op n s = (r, s1)" by fastforce
  have D: "during view (goes vid ?S ?S) s s1"
    using copyFromSnapshot_during [OF wf s order_refl, of H cancelled sid n] unfolding r by simp
  have none: "vstate (view (sv_host s)) vid = None" using s(1) by (simp add: vstate_def)
  have final: "ended view ?T op s s'" if "ended view (goes vid ?S ?S) op s s'" for s'
    using that by (rule ended_mono) (use none in \<open>auto simp: goes_def\<close>)
  have comp: "composes (goes vid ?S ?S)" by (auto simp: composes_def goes_def)
  have failed: "ended view (goes vid ?S ?S) op s (snd (on_host (RemoveVolume (dm_client d) (dm_cfg d) vid) s'))"
    if e: "ended view (goes vid ?S ?S) op s s'" for s'
  proof -
    obtain w' t where s': "s' = s\<lparr>sv_host := w', sv_ops := t\<rparr>" "shift (goes vid ?S ?S) (view (sv_host s)) (view w')"
      using e by (auto simp: ended_def)
    obtain q w where q: "RemoveVolume (dm_client d) (dm_cfg d) vid w' = (q, w)" by fastforce
    have "vstate (view w') vid \<in> ?S" using spec [where x = vid, OF conjunct2 [OF s'(2) [unfolded shift_def]]] none by (auto simp: goes_def)
    with shift_RemoveVolume(1) [OF q shift_wf [OF s'(2)]] have "shift (goes vid ?S ?S) (view w') (view w)"
      by (auto simp: goes_def elim!: shift_mono)
    then have "ended view (goes vid ?S ?S) op s (s'\<lparr>sv_host := w\<rparr>)"
      by (intro ended_host [OF e comp]) (simp add: s'(1))
    then show ?thesis using q s'(1) by (simp add: on_host_simps)
  qed
  show ?thesis
    unfolding runCopyFromSnapshot_def r
    by (rule ended_released, rule final) (use during_ended [OF D] failed in \<open>auto split: sum.split\<close>)
qed

text \<open>Where the target name is taken nothing is created, and the removal meets what holds the name.\<close>

lemma runCopy_taken:
  assumes wf: "wf_view (view (sv_host s))" and taken: "view (sv_host s) vid \<noteq> None"
  shows "released view (goes vid UNIV {None}) op sid s
    (runCopyFromSnapshot H (dm_io d) cancelled (dm_client d) (dm_cfg d) vid sid op n s)"
proof -
  let ?create = "wrap (''creating copy target '' @ vid) (CreateThinVolume (dm_client d) (cfg_VolumeGroup (dm_cfg d))
      (cfg_ThinPool (dm_cfg d)) vid n (thin_opts [StateTag StateCreating] None))"
  obtain q w where q: "?create (sv_host s) = (q, w)" by fastforce
  from create_does q obtain e where e: "q = Inl e" "view w = view (sv_host s)"
    by (rule does_cases) (use taken effect_create(4) [OF _ wf] in auto)
  have c: "copyFromSnapshot H (dm_io d) cancelled (dm_client d) (dm_cfg d) vid sid op n s = (Inl e, s\<lparr>sv_host := w\<rparr>)"
    using on_host_result [where m = ?create, OF q] e(1) by (simp add: copyFromSnapshot_def seqE_def)
  have "during view (goes vid UNIV {None}) s (s\<lparr>sv_host := w\<rparr>)"
    by (rule during_moved [OF during_refl [where view = view, OF wf]]) (use wf e(2) in \<open>auto simp: composes_def goes_def\<close>)
  then have f: "ended view (goes vid UNIV {None}) op s (ops_fail op (err_Error e) (s\<lparr>sv_host := w\<rparr>))"
    by (rule during_ended)
  obtain r w1 where r: "RemoveVolume (dm_client d) (dm_cfg d) vid w = (r, w1)" by fastforce
  have "shift (goes vid UNIV {None}) (view w) (view w1)"
    using shift_RemoveVolume(1) [OF r] wf e(2) by (auto simp: goes_def elim!: shift_mono)
  then have "ended view (goes vid UNIV {None}) op s (snd (on_host (RemoveVolume (dm_client d) (dm_cfg d) vid)
      (ops_fail op (err_Error e) (s\<lparr>sv_host := w\<rparr>))))"
    using ended_host [OF f, of w1] r by (simp add: on_host_simps ops_fail_def composes_def goes_def)
  then show ?thesis unfolding runCopyFromSnapshot_def c by (simp add: ended_released)
qed

lemma released_mono:
  assumes "released view T op sid s0 s" and "\<And>n a b. T n a b \<Longrightarrow> U n a b"
  shows "released view U op sid s0 s"
proof -
  obtain w t where s: "s = s0\<lparr>sv_host := w, sv_ops := t, sv_pins := snd (Release (sv_pins s0) sid)\<rparr>"
      and h: "shift T (view (sv_host s0)) (view w)" "running t = running (sv_ops s0) - {op}" "dom t = dom (sv_ops s0)"
    using assms(1) by (auto simp: released_def)
  have "shift U (view (sv_host s0)) (view w)" using h(1) assms(2) by (rule shift_mono)
  then show ?thesis unfolding released_def s by (intro exI [of _ w] exI [of _ t]) (simp add: h)
qed

lemma runCopyFromSnapshot_released:
  assumes wf: "wf_view (view (sv_host s))" and op: "op \<in> running (sv_ops s)"
  shows "released view (permits_job (RunCopyFromSnapshot vid sid op n)) op sid s
    (runCopyFromSnapshot H (dm_io d) cancelled (dm_client d) (dm_cfg d) vid sid op n s)"
proof (cases "view (sv_host s) vid = None")
  case True
  from runCopy_free [OF wf this op] show ?thesis by (rule released_mono) simp
next
  case False
  from runCopy_taken [OF wf this] show ?thesis by (rule released_mono) simp
qed

end

section \<open>Jobs keep the invariant\<close>

lemma permits_job_safe:
  assumes ok: "server_ok view cfg s" and jobs: "sv_jobs s = xs @ j # ys" and calm: "\<not> disturbs (Work j) s"
    and p: "permits_job j n (vstate (view (sv_host s)) n) b"
  shows "n \<notin> set (of_jobs job_holds (xs @ ys)) \<union> set (of_jobs job_removes (xs @ ys)) \<union> transfer_volumes (sv_transfers s)"
proof (cases "copies_into n (Work j)")
  case True
  then show ?thesis
    using calm jobs pins_match_held [OF server_okD(3) [OF ok], of n] by (auto simp: disturbs_def)
next
  case False
  let ?st = "vstate (view (sv_host s)) n"
  note o = server_okD [OF ok, unfolded jobs]
  have st: "?st \<noteq> Some StateIncoming \<and> ?st \<noteq> Some StateSnapshot \<and> (?st = Some StateDeleting \<longrightarrow> n \<in> set (job_removes j))"
    using p False by (cases j) (auto simp: goes_def stays_def)
  have "n \<notin> set (of_jobs job_holds (xs @ ys))" using st o(3) by (auto simp: pins_match_def)
  moreover have "n \<notin> set (of_jobs job_removes (xs @ ys))" using st o(4) by (auto simp: removals_match_def)
  moreover have "n \<notin> transfer_volumes (sv_transfers s)" using st o(5) by (auto simp: transfer_volumes_def sessions_match_def)
  ultimately show ?thesis by blast
qed

text \<open>A job that does what it may keeps the invariant where it does not disturb.\<close>

definition fair :: "'w daemon \<Rightarrow> ('w \<Rightarrow> lvview) \<Rightarrow> event \<Rightarrow> 'w server \<Rightarrow> 'w server \<Rightarrow> bool" where
  "fair d view e s s' \<longleftrightarrow>
     (\<not> disturbs e s \<longrightarrow> server_ok view (dm_cfg d) s') \<and> shift (permits s e) (view (sv_host s)) (view (sv_host s'))"

lemma proper_fair: "proper d view e s s' \<Longrightarrow> fair d view e s s'"
  by (simp add: proper_def fair_def)

lemma fair_ended:
  assumes ok: "server_ok view (dm_cfg d) s" and jobs: "sv_jobs s = xs @ j # ys"
    and e: "ended view (permits_job j) op (s\<lparr>sv_jobs := xs @ ys\<rparr>) s'"
    and op: "job_ops j = [op] \<or> job_ops j = [] \<and> op = []" and "job_holds j = []"
  shows "fair d view (Work j) s s'"
proof -
  obtain w t where s': "s' = s\<lparr>sv_host := w, sv_ops := t, sv_jobs := xs @ ys\<rparr>" and h: "shift (permits_job j) (view (sv_host s)) (view w)"
      "running t = running (sv_ops s) - {op}" "dom t = dom (sv_ops s)"
    using e by (auto simp: ended_def)
  have "[] \<notin> running (sv_ops s)" using server_okD(2) [OF ok] by (auto simp: ops_match_def running_def)
  have none: "t [] = None" by (rule dom_None [OF h(3)]) (use server_okD(2) [OF ok] in \<open>simp add: ops_match_def\<close>)
  have "running t = running (sv_ops s) - set (job_ops j)"
    using op \<open>[] \<notin> running (sv_ops s)\<close> unfolding h(2) by (elim disjE conjE) (simp_all only: list.set Diff_insert0 Diff_empty not_False_eq_True)
  from server_ok_worked [OF ok jobs h(1) permits_job_safe [OF ok jobs] this none, where p = "sv_pins s"] assms(5)
  have "server_ok view (dm_cfg d) s'" if "\<not> disturbs (Work j) s" unfolding s' using that by simp
  then show ?thesis using s' h(1) by (simp add: fair_def)
qed

lemma fair_released:
  assumes ok: "server_ok view (dm_cfg d) s" and jobs: "sv_jobs s = xs @ j # ys"
    and e: "released view (permits_job j) op sid (s\<lparr>sv_jobs := xs @ ys\<rparr>) s'"
    and op: "job_ops j = [op]" and sid: "job_holds j = [sid]"
  shows "fair d view (Work j) s s'"
proof -
  obtain w t where s': "s' = s\<lparr>sv_host := w, sv_ops := t, sv_pins := snd (Release (sv_pins s) sid), sv_jobs := xs @ ys\<rparr>"
      and h: "shift (permits_job j) (view (sv_host s)) (view w)" "running t = running (sv_ops s) - {op}" "dom t = dom (sv_ops s)"
    using e by (auto simp: released_def)
  have none: "t [] = None" by (rule dom_None [OF h(3)]) (use server_okD(2) [OF ok] in \<open>simp add: ops_match_def\<close>)
  have "running t = running (sv_ops s) - set (job_ops j)" using h(2) op by simp
  from server_ok_worked [OF ok jobs h(1) permits_job_safe [OF ok jobs] this none, where p = "snd (Release (sv_pins s) sid)"] sid
  have "server_ok view (dm_cfg d) s'" if "\<not> disturbs (Work j) s" unfolding s' using that by simp
  then show ?thesis using s' h(1) by (simp add: fair_def)
qed

lemma proper_during:
  assumes ok: "server_ok view (dm_cfg d) s" and "during view (permits_job j) s s'"
    and j: "j = ResolveUntilSettled vid tid target"
  shows "proper d view (Work j) s s'"
proof -
  obtain w t where s': "s' = s\<lparr>sv_host := w, sv_ops := t\<rparr>" and h: "shift (permits_job j) (view (sv_host s)) (view w)"
      "running t = running (sv_ops s)" "dom t = dom (sv_ops s)"
    using assms(2) by (auto simp: during_def)
  have "harmless (sv_pins s) (permits_job j)" by (auto simp: j harmless_def goes_def)
  have none: "t [] = None" by (rule dom_None [OF h(3)]) (use server_okD(2) [OF ok] in \<open>simp add: ops_match_def\<close>)
  from server_ok_host [OF ok h(1) \<open>harmless (sv_pins s) (permits_job j)\<close>] have "server_ok view (dm_cfg d) s'"
    using h(2) none unfolding s' by (simp add: server_ok_def Let_def ops_match_def)
  then show ?thesis using h(1) s' by (simp add: proper_def)
qed

text \<open>Resolvers hold nothing and run no operation.\<close>

lemma server_ok_resolvers:
  assumes "server_ok view cfg s" and "list_all (\<lambda>j. \<exists>vid tid target. j = ResolveUntilSettled vid tid target \<and> lv_name_ok vid) js"
  shows "server_ok view cfg (s\<lparr>sv_jobs := sv_jobs s @ js\<rparr>)"
proof -
  have "of_jobs job_ops js = []" "of_jobs job_holds js = []" "of_jobs job_removes js = []" "list_all lv_name_ok (of_jobs job_names js)"
    using assms(2) by (induction js) auto
  then show ?thesis
    using assms(1) by (simp add: server_ok_def Let_def ops_match_def pins_match_def removals_match_def)
qed

lemma foldl_spawn: "foldl (\<lambda>s v. spawn (f v) s) s vs = s\<lparr>sv_jobs := sv_jobs s @ map f vs\<rparr>"
  by (induction vs arbitrary: s) (simp_all add: spawn_def)

context served
begin

lemma proper_resolveRecovered:
  assumes ok: "server_ok view (dm_cfg d) s" and jobs: "sv_jobs s = xs @ ResolveRecovered # ys"
    and names: "lvm_names (view (sv_host s))"
  shows "proper d view (Work ResolveRecovered) s (resolveRecovered (dm_client d) (dm_cfg d) (s\<lparr>sv_jobs := xs @ ys\<rparr>))"
proof -
  obtain r w where l: "ListVolumes (dm_client d) (dm_cfg d) (sv_host s) = (r, w)" by fastforce
  let ?s = "s\<lparr>sv_host := w, sv_jobs := xs @ ys\<rparr>"
  have st: "shift stays (view (sv_host s)) (view w)" using stays_quiet [OF quiet_reads(3) server_okD(1) [OF ok]] l by (metis snd_conv)
  have "ended view (permits_job ResolveRecovered) [] (s\<lparr>sv_jobs := xs @ ys\<rparr>) ?s"
    unfolding ended_def using st server_okD(2) [OF ok]
    by (intro exI [of _ w] exI [of _ "sv_ops s"]) (auto simp: ops_match_def running_def)
  then have "fair d view (Work ResolveRecovered) s ?s" by (rule fair_ended [OF ok jobs]) simp_all
  then have p: "proper d view (Work ResolveRecovered) s ?s" by (simp add: proper_def fair_def disturbs_def)
  have more: "proper d view (Work ResolveRecovered) s (?s\<lparr>sv_jobs := sv_jobs ?s @ js\<rparr>)"
    if "list_all (\<lambda>j. \<exists>vid tid target. j = ResolveUntilSettled vid tid target \<and> lv_name_ok vid) js" for js
    using server_ok_resolvers [OF _ that] p by (fastforce simp: proper_def)
  have "lv_name_ok (vol_ID v)" if v: "r = Inr vols" "v \<in> set vols" for vols v
    using l
  proof (cases rule: ListVolumes_cases)
    case (ok vols')
    then obtain x where "view (sv_host s) (vol_ID v) = Some x" using v by fastforce
    then show ?thesis using names by (simp add: lvm_names_def)
  qed (use v in simp)
  then show ?thesis
    using l p more by (cases r) (auto simp: resolveRecovered_def on_host_simps foldl_spawn list_all_iff)
qed

text \<open>
  A job that is run to its end has ended its operation and, where it held a snapshot, given it back.
\<close>

lemma work_ends:
  assumes ok: "server_ok view (dm_cfg d) s" and jobs: "sv_jobs s = xs @ j # ys"
    and w: "work d j (s\<lparr>sv_jobs := xs @ ys\<rparr>) = (True, s')" and j: "j \<noteq> ResolveRecovered"
  obtains (ends) op where "ended view (permits_job j) op (s\<lparr>sv_jobs := xs @ ys\<rparr>) s'"
      and "job_ops j = [op] \<or> job_ops j = [] \<and> op = []" and "job_holds j = []"
  | (gives_back) op sid where "released view (permits_job j) op sid (s\<lparr>sv_jobs := xs @ ys\<rparr>) s'"
      and "job_ops j = [op]" and "job_holds j = [sid]"
proof -
  let ?s = "s\<lparr>sv_jobs := xs @ ys\<rparr>"
  note o = server_okD [OF ok, unfolded jobs]
  have wf: "wf_view (view (sv_host ?s))" using o(1) by simp
  have op: "op \<in> running (sv_ops ?s)" if "job_ops j = [op]" for op using o(2) that by (auto simp: ops_match_def)
  have name: "lv_name_ok n" if "n \<in> set (job_names j)" for n using o(6) that by (simp add: list_all_iff)
  show ?thesis
  proof (cases j)
    case (RunCreate vid n op)
    show ?thesis by (rule ends [of op]) (use w runCreate_ended [OF wf, of vid op n] RunCreate in simp_all)
  next
    case (RunDelete vid snapshots op)
    have "ended view (permits_job j) op ?s (runDelete (dm_client d) (dm_cfg d) vid snapshots op ?s)"
      unfolding RunDelete by (rule runDelete_ended [OF wf]) (use o(4) RunDelete in \<open>auto simp: removals_match_def\<close>)
    then show ?thesis by (intro ends [of op]) (use w RunDelete in simp_all)
  next
    case (RunCopyFromSnapshot vid sid op n)
    show ?thesis
      by (rule gives_back [of op sid])
        (use w op runCopyFromSnapshot_released [OF wf, of op vid sid n "dm_hash d" "dm_cancelled d"]
          RunCopyFromSnapshot in simp_all)
  next
    case (RunPush vid tid target op)
    show ?thesis
      by (rule ends [of op])
        (use w op name runPush_ended [OF _ refl _ wf, of vid op "dm_hash d" "dm_cancelled d" tid target] RunPush in simp_all)
  next
    case (RunSnapshotPush sid tid target op)
    show ?thesis
      by (rule gives_back [of op sid])
        (use w op runSnapshotPush_released [OF _ wf, of op sid "dm_hash d" "dm_cancelled d" tid target]
          RunSnapshotPush in simp_all)
  next
    case (ResolveUntilSettled vid tid target)
    show ?thesis
      by (rule ends [of "[]"])
        (use w name tryResolve_ended [OF _ refl wf, of vid tid target True s'] ResolveUntilSettled in simp_all)
  qed (use j in simp)
qed

lemma fair_Work:
  assumes ok: "server_ok view (dm_cfg d) s" and jobs: "sv_jobs s = xs @ j # ys"
    and names: "j = ResolveRecovered \<longrightarrow> lvm_names (view (sv_host s))"
    and w: "work d j (s\<lparr>sv_jobs := xs @ ys\<rparr>) = (True, s')"
  shows "fair d view (Work j) s s'"
proof (cases "j = ResolveRecovered")
  case True
  then show ?thesis using w names proper_resolveRecovered [OF ok] jobs by (auto intro: proper_fair)
next
  case False
  from ok jobs w False show ?thesis
    by (rule work_ends) (auto intro: fair_ended [OF ok jobs] fair_released [OF ok jobs])
qed

lemma proper_retried:
  assumes ok: "server_ok view (dm_cfg d) s" and j: "j \<in> set (sv_jobs s)" and w: "work d j s = (False, s')"
  shows "proper d view (Work j) s s'"
proof -
  obtain vid tid target where r: "j = ResolveUntilSettled vid tid target" using w by (cases j) auto
  have "lv_name_ok vid" using server_okD(6) [OF ok] j r by (auto simp: list_all_iff of_jobs_def)
  from tryResolve_ended [OF this refl server_okD(1) [OF ok] w [unfolded r work.simps]]
  have "during view (permits_job j) s s'" by (simp add: r)
  then show ?thesis by (rule proper_during [OF ok _ r])
qed

section \<open>Starting\<close>

lemma server_ok_Register:
  assumes "wf_view (view w)" and "Register creds cfg w = Inr (c, s)" and "0 \<le> cfg_MaxInboundTransfers cfg"
  shows "server_ok view cfg s" and "sv_host s = w"
  using assms
  by (auto simp: Register_def server_ok_def Let_def ops_match_def pins_match_def removals_match_def sessions_match_def
      running_def NewTable_def NewExportPins_def NewTransfers_def pins_ok_def pin_count_def table_ok_def
      the_session_def split: sum.splits)

lemma proper_Restart:
  assumes ok: "server_ok view (dm_cfg d) s" and names: "lvm_names (view (sv_host s))"
    and r: "Recover (dm_client d) (dm_cfg d) (sv_host s) = (Inr failed, w)" and reg: "Register creds (dm_cfg d) w = Inr (c, s')"
  shows "proper d view Restart s s'"
proof -
  have T: "shift (permits s Restart) (view (sv_host s)) (view w)"
    using shift_Recover [OF r server_okD(1) [OF ok]] names
    by (auto simp: lvm_names_def recovers_def elim!: shift_mono split: if_splits)
  have "0 \<le> cfg_MaxInboundTransfers (dm_cfg d)" using surroundings by (simp add: daemon_ok_def)
  with server_ok_Register [OF shift_wf [OF T] reg] T show ?thesis by (simp add: proper_def)
qed

end

end
