(* ===== verification/ServerTables.thy ===== *)
theory ServerTables
  imports ServerTransfers ServerJobs
begin

text \<open>
  The tables of the daemon over every run, whatever happens to the volumes: operations, pins and reservations
  agree with the pending jobs. Nothing is asked here of lvm, the devices or the other nodes, and no event is
  left out. The relations between servers are used with a view that shows no volume, so that they are about
  the tables alone.
\<close>

definition blind :: "'w \<Rightarrow> lvview" where
  "blind w = Map.empty"

lemma blind_simps [simp]: "blind w n = None" "wf_view (blind w)" "shift T (blind w) (blind w')" "quiet blind m"
  by (simp_all add: blind_def wf_view_def shift_def quiet_def keeps_def)

abbreviation aside :: "'w server \<Rightarrow> 'w server \<Rightarrow> bool" where
  "aside \<equiv> during blind stays"

lemma aside_refl: "aside s s"
  by (rule during_refl) simp

lemma aside_on_host: "on_host m s = (r, s1) \<Longrightarrow> aside s0 s \<Longrightarrow> aside s0 s1"
  using keepsD [OF keeps_during [OF moves_by_quiet [where view = blind and m = m] composes_stays]] by simp

lemma aside_snd: "aside s0 s \<Longrightarrow> aside s0 (snd (on_host m s))"
  by (rule aside_on_host [OF prod.collapse [symmetric]])

lemma keeps_aside: "keeps (aside s0) (on_host m)"
  by (simp add: keeps_def aside_snd)

section \<open>Jobs\<close>

lemma aside_stream:
  assumes "op \<in> running (sv_ops s0)" and "aside s0 s"
    and "streamVolume H io cancelled c cfg peer vid tid op ignore s = (r, s1)"
  shows "aside s0 s1"
proof -
  have "keeps_stream (aside s0) io peer tid op"
    using assms(1) by (simp add: keeps_stream_def keeps_reads_def lift_io_def keeps_aside during_progress)
  from keepsD [OF keeps_streamVolume [OF this keeps_aside keeps_aside] assms(2,3)] show ?thesis .
qed

lemma aside_commit: "aside s0 s \<Longrightarrow> commitPush peer tid digest s = (r, s1) \<Longrightarrow> aside s0 s1"
  using commitPush_keeps [OF keeps_aside, of s0 s peer tid digest] by simp

lemma push_ends:
  assumes "aside s0 s"
  shows "ended blind stays op s0 (failPush c cfg vid op cause s)" and "ended blind stays op s0 (retirePushed c cfg vid op s)"
    and "aside s0 (abortTransfer peer tid s)" and "ended blind stays op s0 (settlePush c cfg peer committed vid tid op cause s)"
    and "ended blind stays op s0 (resolvePush c cfg peer vid tid op cause s)"
    and "ended blind stays op s0 (finishPush c cfg peer vid tid op digest s)"
proof -
  have f: "ended blind stays op s0 (failPush c cfg vid op cause s)" if "aside s0 s" for cause s
    unfolding failPush_def by (rule during_ended [OF aside_snd [OF that]])
  have r: "ended blind stays op s0 (retirePushed c cfg vid op s)" if "aside s0 s" for s
    unfolding retirePushed_def using that by (auto intro: during_ended aside_on_host split: prod.split sum.split)
  have a: "aside s0 (abortTransfer peer tid s)" if "aside s0 s" for s
    unfolding abortTransfer_def using that by (rule aside_snd)
  have st: "ended blind stays op s0 (settlePush c cfg peer committed vid tid op cause s)" if "aside s0 s" for cause committed s
    using that by (simp add: settlePush_def f r a)
  have re: "ended blind stays op s0 (resolvePush c cfg peer vid tid op cause s)" if "aside s0 s" for cause s
    unfolding resolvePush_def using that
    by (auto intro!: st during_ended aside_snd intro: aside_on_host split: prod.split sum.split)
  show "ended blind stays op s0 (failPush c cfg vid op cause s)" "ended blind stays op s0 (retirePushed c cfg vid op s)"
    "aside s0 (abortTransfer peer tid s)" "ended blind stays op s0 (settlePush c cfg peer committed vid tid op cause s)"
    "ended blind stays op s0 (resolvePush c cfg peer vid tid op cause s)"
    by (rule f r a st re, rule assms)+
  show "ended blind stays op s0 (finishPush c cfg peer vid tid op digest s)"
    unfolding finishPush_def Let_def using assms
    by (auto intro!: f r re dest: aside_commit [rotated] split: prod.split commitOutcome.split)
qed

lemma runPush_ends:
  assumes "op \<in> running (sv_ops s)"
  shows "ended blind stays op s (runPush H io cancelled c cfg dial vid tid target op s)"
proof -
  obtain r s1 where r: "on_host (dial target) s = (r, s1)" by fastforce
  note s1 = aside_on_host [OF r aside_refl]
  show ?thesis
  proof (cases r)
    case (Inl e)
    then show ?thesis using push_ends(1) [OF s1] by (simp add: runPush_def r)
  next
    case (Inr peer)
    obtain x s2 where x: "streamVolume H io cancelled c cfg peer vid tid op False s1 = (x, s2)" by fastforce
    note s2 = aside_stream [OF assms s1 x]
    obtain y s3 where y: "on_host (MarkCommitting c cfg vid) s2 = (y, s3)" by fastforce
    note s3 = aside_on_host [OF y s2]
    show ?thesis
      using x y push_ends(1) [OF push_ends(3) [OF s2]] push_ends(1) [OF push_ends(3) [OF s3]] push_ends(6) [OF s3]
      unfolding runPush_def r Inr by (auto split: sum.split)
  qed
qed

lemma tryResolve_ends:
  assumes "tryResolve c cfg dial vid tid target s = (b, s')"
  shows "if b then ended blind stays [] s s' else aside s s'"
proof -
  obtain r s1 where r: "on_host (dial target) s = (r, s1)" by fastforce
  note s1 = aside_on_host [OF r aside_refl]
  show ?thesis
  proof (cases r)
    case (Inr peer)
    obtain x s2 where x: "on_host (p_QueryVolume peer vid) s1 = (x, s2)" by fastforce
    note s2 = aside_on_host [OF x s1]
    show ?thesis using assms x s2 push_ends(4) [OF s2] unfolding tryResolve_def r Inr by (cases x) auto
  qed (use assms s1 in \<open>auto simp: tryResolve_def r\<close>)
qed

lemma releaseExport_tables:
  obtains w where "releaseExport c cfg sid s = s\<lparr>sv_host := w, sv_pins := snd (Release (sv_pins s) sid)\<rparr>"
proof (cases "fst (Release (sv_pins s) sid)")
  case True
  then show ?thesis
    by (intro that [of "snd (DeactivateLogicalVolume c (lv_target cfg sid) no_common (sv_host s))"])
      (simp add: releaseExport_def split_def Let_def)
next
  case False
  then show ?thesis by (intro that [of "sv_host s"]) (simp add: releaseExport_def split_def Let_def)
qed

lemma ends_released:
  assumes "ended blind stays op s0 s"
  shows "released blind stays op sid s0 (releaseExport c cfg sid s)"
proof -
  obtain w t where s: "s = s0\<lparr>sv_host := w, sv_ops := t\<rparr>" and h: "running t = running (sv_ops s0) - {op}" "dom t = dom (sv_ops s0)"
    using assms by (auto simp: ended_def)
  obtain w1 where r: "releaseExport c cfg sid s = s\<lparr>sv_host := w1, sv_pins := snd (Release (sv_pins s) sid)\<rparr>"
    by (rule releaseExport_tables)
  show ?thesis unfolding released_def r unfolding s by (intro exI [of _ w1] exI [of _ t]) (simp add: h)
qed

lemma runSnapshotPush_releases:
  assumes "op \<in> running (sv_ops s)"
  shows "released blind stays op sid s (runSnapshotPush H io cancelled c cfg dial sid tid target op s)"
proof -
  obtain r s1 where r: "on_host (dial target) s = (r, s1)" by fastforce
  note s1 = aside_on_host [OF r aside_refl]
  have fails: "ended blind stays op s (failSnapshotPush op cause s')" if "aside s s'" for cause s'
    unfolding failSnapshotPush_def using that by (rule during_ended)
  show ?thesis
  proof (cases r)
    case (Inl e)
    then show ?thesis using ends_released [OF fails [OF s1]] by (simp add: runSnapshotPush_def r)
  next
    case (Inr peer)
    obtain x s2 where x: "streamVolume H io cancelled c cfg peer sid tid op True s1 = (x, s2)" by fastforce
    note s2 = aside_stream [OF assms s1 x]
    show ?thesis
      unfolding runSnapshotPush_def r Inr
      by (rule ends_released)
        (use x s2 in \<open>auto intro!: fails push_ends(3) during_ended(2) dest: aside_commit [rotated]
          split: sum.split prod.split commitOutcome.split\<close>)
  qed
qed

lemma runCopy_releases:
  assumes "op \<in> running (sv_ops s)"
  shows "released blind stays op sid s (runCopyFromSnapshot H io cancelled c cfg vid sid op n s)"
proof -
  obtain r s1 where r: "copyFromSnapshot H io cancelled c cfg vid sid op n s = (r, s1)" by fastforce
  have "keeps (aside s) (copyFromSnapshot H io cancelled c cfg vid sid op n)"
    unfolding copyFromSnapshot_def
    by (intro keeps_seqE keeps_aside keeps_CopyDevice)
      (simp_all add: keeps_reads_def lift_io_def keeps_aside during_progress assms)
  from keepsD [OF this aside_refl r] have s1: "aside s s1" .
  have "ended blind stays op s (snd (on_host m s'))" if "ended blind stays op s s'" for s' and m :: "('a, err, unit) go"
    using ended_host [OF that composes_stays, of "snd (m (sv_host s'))"] by (simp add: on_host_simps)
  then show ?thesis
    unfolding runCopyFromSnapshot_def r
    by (intro ends_released) (use during_ended [OF s1] in \<open>auto split: sum.split\<close>)
qed

section \<open>Jobs and the tables\<close>

lemma tables_simps [simp]:
  "tables_ok (s\<lparr>sv_host := w\<rparr>) \<longleftrightarrow> tables_ok s" "tables_ok (s\<lparr>sv_transfers := t\<rparr>) \<longleftrightarrow> tables_ok s"
  by (simp_all add: tables_ok_def)

lemma server_tables: "server_ok view cfg s \<Longrightarrow> tables_ok s"
  by (simp add: server_ok_def tables_ok_def pins_match_def Let_def)

lemma tables_ended:
  assumes ok: "tables_ok s" and jobs: "sv_jobs s = xs @ j # ys" and e: "ended blind stays op (s\<lparr>sv_jobs := xs @ ys\<rparr>) s'"
    and op: "job_ops j = [op] \<or> job_ops j = [] \<and> op = []" and "job_holds j = []"
  shows "tables_ok s'" and "dom (sv_ops s') = dom (sv_ops s)" and "op \<notin> running (sv_ops s')"
proof -
  obtain w t where s': "s' = s\<lparr>sv_host := w, sv_ops := t, sv_jobs := xs @ ys\<rparr>"
      and h: "running t = running (sv_ops s) - {op}" "dom t = dom (sv_ops s)"
    using e by (auto simp: ended_def)
  have o: "ops_match (sv_ops s) (xs @ j # ys)" using ok jobs by (simp add: tables_ok_def)
  have "t [] = None" by (rule dom_None [OF h(2)]) (use o in \<open>simp add: ops_match_def\<close>)
  moreover have "[] \<notin> running (sv_ops s)" using o by (auto simp: ops_match_def running_def)
  ultimately have "ops_match t (xs @ ys)" using o op h(1) by (auto simp: ops_match_def)
  then show "tables_ok s'" using ok jobs assms(5) by (simp add: tables_ok_def s')
  show "dom (sv_ops s') = dom (sv_ops s)" "op \<notin> running (sv_ops s')" by (simp_all add: s' h)
qed

lemma tables_released:
  assumes ok: "tables_ok s" and jobs: "sv_jobs s = xs @ j # ys" and e: "released blind stays op sid (s\<lparr>sv_jobs := xs @ ys\<rparr>) s'"
    and op: "job_ops j = [op]" and sid: "job_holds j = [sid]"
  shows "tables_ok s'" and "dom (sv_ops s') = dom (sv_ops s)" and "op \<notin> running (sv_ops s')"
proof -
  obtain w t where s': "s' = s\<lparr>sv_host := w, sv_ops := t, sv_pins := snd (Release (sv_pins s) sid), sv_jobs := xs @ ys\<rparr>"
      and h: "running t = running (sv_ops s) - {op}" "dom t = dom (sv_ops s)"
    using e by (auto simp: released_def)
  have o: "ops_match (sv_ops s) (xs @ j # ys)" and p: "pins_ok (sv_pins s)"
      "\<And>k. pin_count (sv_pins s) k = int (count_list (of_jobs job_holds (xs @ j # ys)) k)"
    using ok jobs by (simp_all add: tables_ok_def)
  have "t [] = None" by (rule dom_None [OF h(2)]) (use o in \<open>simp add: ops_match_def\<close>)
  then have "ops_match t (xs @ ys)" using o op h(1) by (auto simp: ops_match_def)
  moreover have "0 < pin_count (sv_pins s) sid" using p(2) sid by simp
  then have "pin_count (snd (Release (sv_pins s) sid)) k = int (count_list (of_jobs job_holds (xs @ ys)) k)" for k
    using pin_count_Release [OF p(1)] p(2) sid by simp
  ultimately show "tables_ok s'"
    using ok export_pins.invar_release [OF p(1)] by (simp add: tables_ok_def s')
  show "dom (sv_ops s') = dom (sv_ops s)" "op \<notin> running (sv_ops s')" by (simp_all add: s' h)
qed

lemma blind_ended: "during blind stays s0 (s0\<lparr>sv_host := w\<rparr>)"
  unfolding during_def by (intro exI [of _ w] exI [of _ "sv_ops s0"]) simp

text \<open>A job that is run to its end ends its operation, whatever fails in it.\<close>

lemma tables_Work:
  assumes ok: "tables_ok s" and jobs: "sv_jobs s = xs @ j # ys" and w: "work d j (s\<lparr>sv_jobs := xs @ ys\<rparr>) = (True, s')"
  shows "tables_ok s'" and "op \<in> set (job_ops j) \<Longrightarrow> op \<in> dom (sv_ops s') \<and> op \<notin> running (sv_ops s')"
proof -
  let ?s = "s\<lparr>sv_jobs := xs @ ys\<rparr>"
  have run: "set (job_ops j) \<subseteq> running (sv_ops ?s)" using ok jobs by (auto simp: tables_ok_def ops_match_def)
  then have known: "set (job_ops j) \<subseteq> dom (sv_ops s)" by (auto simp: running_def)
  have host: "ended blind stays op ?s (case on_host m ?s of (Inl e, s1) \<Rightarrow> ops_fail op (f e) s1 | (Inr _, s1) \<Rightarrow> ops_finish op s1)"
    for op f and m :: "('a, err, unit) go"
    by (auto intro: during_ended aside_on_host [OF _ aside_refl] split: prod.split sum.split)
  consider (ends) op' where "ended blind stays op' ?s s'" "job_ops j = [op'] \<or> job_ops j = [] \<and> op' = []" "job_holds j = []"
    | (gives_back) op' sid where "released blind stays op' sid ?s s'" "job_ops j = [op']" "job_holds j = [sid]"
    | (resolves) "j = ResolveRecovered"
  proof (cases j)
    case (RunCreate vid n op')
    show ?thesis by (rule ends [of op']) (use w host RunCreate in \<open>auto simp: runCreate_def\<close>)
  next
    case (RunDelete vid snapshots op')
    show ?thesis by (rule ends [of op']) (use w host RunDelete in \<open>auto simp: runDelete_def\<close>)
  next
    case (RunCopyFromSnapshot vid sid op' n)
    then show ?thesis using w run by (intro gives_back [of op' sid]) (auto intro: runCopy_releases)
  next
    case (RunPush vid tid target op')
    then show ?thesis using w run by (intro ends [of op']) (auto intro: runPush_ends)
  next
    case (RunSnapshotPush sid tid target op')
    then show ?thesis using w run by (intro gives_back [of op' sid]) (auto intro: runSnapshotPush_releases)
  next
    case (ResolveUntilSettled vid tid target)
    then show ?thesis using w tryResolve_ends [of "dm_client d" "dm_cfg d" "dm_dial d" vid tid target ?s True s']
      by (intro ends [of "[]"]) simp_all
  qed
  then have "tables_ok s' \<and> (op \<in> set (job_ops j) \<longrightarrow> op \<in> dom (sv_ops s') \<and> op \<notin> running (sv_ops s'))"
  proof cases
    case ends
    then show ?thesis using tables_ended [OF ok jobs ends(1-3)] known by auto
  next
    case gives_back
    then show ?thesis using tables_released [OF ok jobs gives_back] known by auto
  next
    case resolves
    obtain r w1 where l: "ListVolumes (dm_client d) (dm_cfg d) (sv_host s) = (r, w1)" by fastforce
    have "of_jobs job_ops (map (\<lambda>v. ResolveUntilSettled (f v) (g v) (h v)) vs) = []"
      "of_jobs job_holds (map (\<lambda>v. ResolveUntilSettled (f v) (g v) (h v)) vs) = []" for vs :: "Volume list" and f g h
      by (induction vs) simp_all
    then show ?thesis
      using w ok jobs l resolves
      by (cases r) (auto simp: resolveRecovered_def on_host_simps foldl_spawn tables_ok_def ops_match_def)
  qed
  then show "tables_ok s'" and "op \<in> set (job_ops j) \<Longrightarrow> op \<in> dom (sv_ops s') \<and> op \<notin> running (sv_ops s')" by auto
qed

lemma tables_retried:
  assumes ok: "tables_ok s" and w: "work d j s = (False, s')"
  shows "tables_ok s'"
proof -
  obtain vid tid target where j: "j = ResolveUntilSettled vid tid target" using w by (cases j) auto
  then have "aside s s'" using w tryResolve_ends [of "dm_client d" "dm_cfg d" "dm_dial d" vid tid target s False s'] by simp
  then obtain w t where "s' = s\<lparr>sv_host := w, sv_ops := t\<rparr>" "running t = running (sv_ops s)" "dom t = dom (sv_ops s)"
    by (auto simp: during_def)
  then show ?thesis using ok dom_None [of t "sv_ops s"] by (simp add: tables_ok_def ops_match_def)
qed

section \<open>Requests and the tables\<close>

lemma tables_failed:
  assumes "tables_ok s" and "ops_Begin (sv_ops s) op = Inr t" "op \<noteq> []"
  shows "tables_ok (s\<lparr>sv_ops := ops_Fail t op reason\<rparr>)"
  using assms ops_match_begun(2) [OF _ assms(2,3)] by (simp add: tables_ok_def)

lemma tables_spawned:
  assumes "tables_ok s" and op: "ops_Begin (sv_ops s) op = Inr t" "op \<noteq> []" "job_ops j = [op]"
    and p: "job_holds j = [] \<and> p = sv_pins s \<or> (\<exists>k. job_holds j = [k] \<and> p = snd (Acquire (sv_pins s) k))"
  shows "tables_ok (s\<lparr>sv_ops := t, sv_pins := p, sv_jobs := sv_jobs s @ [j]\<rparr>)"
  using assms(1) ops_match_begun(3) [OF _ op] p export_pins.invar_acquire
  by (auto simp: tables_ok_def pin_count_Acquire)

lemma tables_host_only: "host_only blind T m s \<Longrightarrow> tables_ok s \<Longrightarrow> tables_ok (snd (m s))"
  by (auto simp: host_only_def)

lemma host_only_blind: "host_only blind T (on_host m) s"
  by (rule host_only_on_host) simp

lemmas blind_intros = tables_host_only host_only_demand host_only_seqE host_only_mapErr host_only_blind host_only_idle

lemma tables_verbs:
  assumes "tables_ok s"
  shows "tables_ok (snd (api_ListVolumes c cfg s))" and "tables_ok (snd (api_Attach c cfg vid s))"
    and "tables_ok (snd (api_Detach c cfg vid s))" and "tables_ok (snd (api_ResizeVolume c cfg vid n s))"
    and "tables_ok (snd (api_CreateSnapshot c cfg vid sid s))" and "tables_ok (snd (api_DeleteSnapshot c cfg sid s))"
    and "tables_ok (snd (QueryVolume c cfg vid s))" and "tables_ok (snd (api_GetNodeStatus info c cfg s))"
proof -
  show "tables_ok (snd (api_ListVolumes c cfg s))" "tables_ok (snd (api_Attach c cfg vid s))"
    "tables_ok (snd (api_Detach c cfg vid s))" "tables_ok (snd (api_ResizeVolume c cfg vid n s))"
    "tables_ok (snd (api_GetNodeStatus info c cfg s))"
    unfolding api_ListVolumes_def api_Attach_def api_Detach_def api_ResizeVolume_def api_GetNodeStatus_def
    by (intro blind_intros assms; simp)+
  show "tables_ok (snd (api_CreateSnapshot c cfg vid sid s))"
    using assms by (auto simp: api_CreateSnapshot_def demand_def seqE_def mapErr_def on_host_simps split: sum.split prod.split)
  show "tables_ok (snd (api_DeleteSnapshot c cfg sid s))" "tables_ok (snd (QueryVolume c cfg vid s))"
    using assms by (auto simp: api_DeleteSnapshot_def QueryVolume_def demand_def snd_mapErr on_host_simps split: sum.split)
qed

lemma tables_Rollback: "tables_ok s \<Longrightarrow> tables_ok (snd (RollbackVolume c cfg vid sid s))"
  by (auto simp: RollbackVolume_def demand_def on_host_simps Reserve_def Let_def tables_ok_def newNameReservations_def fun_upd_idem)

lemma tables_begun:
  assumes "tables_ok s"
  shows "tables_ok (snd (api_CreateVolume c cfg vid n op s))" and "tables_ok (snd (api_DeleteVolume c cfg vid force op s))"
    and "tables_ok (snd (PushVolume c cfg vid tid target op s))"
proof -
  have fails: "tables_ok (s\<lparr>sv_host := w, sv_ops := ops_Fail t op reason\<rparr>)"
    and spawns: "job_ops j = [op] \<Longrightarrow> job_holds j = [] \<Longrightarrow> tables_ok (s\<lparr>sv_host := w, sv_ops := t, sv_jobs := sv_jobs s @ [j]\<rparr>)"
    if "ops_Begin (sv_ops s) op = Inr t" "op \<noteq> []" for w t reason j
    using tables_failed [of "s\<lparr>sv_host := w\<rparr>", simplified, OF assms that]
      tables_spawned [of "s\<lparr>sv_host := w\<rparr>", simplified, OF assms that, of j "sv_pins s"] by simp_all
  show "tables_ok (snd (api_CreateVolume c cfg vid n op s))"
    using assms spawns
    by (auto simp: api_CreateVolume_def demand_def seqE_def mapErr_def on_host_simps begin_op_def spawn_def split: sum.split prod.split)
  show "tables_ok (snd (api_DeleteVolume c cfg vid force op s))" "tables_ok (snd (PushVolume c cfg vid tid target op s))"
    using assms fails spawns
    by (auto simp: api_DeleteVolume_def PushVolume_def demand_def seqE_def on_host_simps begin_op_def spawn_def ops_fail_def
        split: sum.split prod.split)
qed

text \<open>A pin that is given back.\<close>

lemma tables_refused:
  assumes "tables_ok s" and "ops_Begin (sv_ops s) op = Inr t" "op \<noteq> []"
  shows "tables_ok (ops_fail op reason (releaseExport c cfg sid (s\<lparr>sv_host := w, sv_ops := t, sv_pins := snd (Acquire (sv_pins s) sid)\<rparr>)))"
proof -
  let ?s = "s\<lparr>sv_host := w, sv_ops := t, sv_pins := snd (Acquire (sv_pins s) sid)\<rparr>"
  obtain w1 where "releaseExport c cfg sid ?s = ?s\<lparr>sv_host := w1, sv_pins := snd (Release (sv_pins ?s) sid)\<rparr>"
    by (rule releaseExport_tables)
  moreover have "snd (Release (snd (Acquire (sv_pins s) sid)) sid) = sv_pins s"
    using assms(1) by (intro Release_Acquire) (simp add: tables_ok_def)
  ultimately have "ops_fail op reason (releaseExport c cfg sid ?s) = s\<lparr>sv_host := w1, sv_ops := ops_Fail t op reason\<rparr>"
    by (simp add: ops_fail_def)
  then show ?thesis using tables_failed [of "s\<lparr>sv_host := w1\<rparr>", simplified, OF assms] by simp
qed

lemma tables_pinned:
  assumes "tables_ok s"
  shows "tables_ok (snd (PushSnapshot c cfg sid tid target op s))" and "tables_ok (snd (CreateVolumeFromSnapshot c cfg vid sid op s))"
proof -
  have spawns: "tables_ok (s\<lparr>sv_host := w, sv_ops := t, sv_pins := snd (Acquire (sv_pins s) sid), sv_jobs := sv_jobs s @ [j]\<rparr>)"
    if "ops_Begin (sv_ops s) op = Inr t" "op \<noteq> []" "job_ops j = [op]" "job_holds j = [sid]" for w t j
    using tables_spawned [of "s\<lparr>sv_host := w\<rparr>", simplified, OF assms that(1-3), of "snd (Acquire (sv_pins s) sid)"] that(4) by simp
  show "tables_ok (snd (PushSnapshot c cfg sid tid target op s))" "tables_ok (snd (CreateVolumeFromSnapshot c cfg vid sid op s))"
    using assms tables_refused [OF assms] spawns
    by (auto simp: PushSnapshot_def CreateVolumeFromSnapshot_def demand_def seqE_def on_host_simps begin_op_def spawn_def pin_def
        Let_def split: sum.split prod.split)
qed

lemma tables_Export:
  assumes "tables_ok s"
  shows "tables_ok (snd (api_Export H io cancelled c cfg (\<lambda>msg. on_host (send msg)) sid s))"
proof -
  let ?b = "export_body H io cancelled c cfg (\<lambda>msg. on_host (send msg)) sid" and ?s0 = "pin sid s"
  have k: "keeps (calm blind ?s0) (on_host m)" for m :: "('a, 'e, 'b) go" by (rule keeps_calm) simp
  have "keeps (calm blind ?s0) ?b"
    unfolding export_body_def split_def
    by (intro keeps_intros keeps_ReadDevice k) (simp_all add: keeps_reads_def lift_io_def k)
  then obtain w where w: "snd (?b ?s0) = ?s0\<lparr>sv_host := w\<rparr>"
    using calm_host_only [of blind ?s0 ?b] by (auto simp: host_only_def)
  let ?s1 = "?s0\<lparr>sv_host := w\<rparr>"
  obtain w1 where "releaseExport c cfg sid ?s1 = ?s1\<lparr>sv_host := w1, sv_pins := snd (Release (sv_pins ?s1) sid)\<rparr>"
    by (rule releaseExport_tables)
  moreover have "snd (Release (snd (Acquire (sv_pins s) sid)) sid) = sv_pins s"
    using assms by (intro Release_Acquire) (simp add: tables_ok_def)
  ultimately have "releaseExport c cfg sid ?s1 = s\<lparr>sv_host := w1\<rparr>" by (simp add: pin_def)
  then show ?thesis using assms w by (simp add: api_Export_def demand_def split_def Let_def)
qed

lemma tables_receive_loop: "receive_loop H io tid msgs s = Some (r, s') \<Longrightarrow> tables_ok s \<Longrightarrow> tables_ok s'"
proof (induction H io tid msgs s rule: receive_loop.induct)
  case (5 H io tid off data msgs s)
  then show ?case by (auto simp: Let_def split: option.splits sum.splits)
qed auto

lemma tables_transfers:
  assumes "tables_ok s"
  shows "tables_ok (snd (api_PrepareReceive c cfg vid tid n s))" and "tables_ok (AbortTransfer c cfg tid s)"
    and "CommitTransfer H c cfg io tid digest s = Some (r, s') \<Longrightarrow> tables_ok s'"
    and "api_Receive H io msgs s = Some (r, s') \<Longrightarrow> tables_ok s'"
proof -
  show "tables_ok (snd (api_PrepareReceive c cfg vid tid n s))"
    using assms
    by (auto simp: api_PrepareReceive_def demand_def on_host_simps on_transfers_def snd_mapErr split_def Let_def split: sum.split)
  show "tables_ok (AbortTransfer c cfg tid s)" "CommitTransfer H c cfg io tid digest s = Some (r, s') \<Longrightarrow> tables_ok s'"
    using assms by (auto simp: AbortTransfer_def CommitTransfer_def split_def Let_def)
  show "api_Receive H io msgs s = Some (r, s') \<Longrightarrow> tables_ok s'"
    using assms
    by (auto simp: api_Receive_def dest!: tables_receive_loop split: list.splits ReceiveRequest.splits prod.splits sum.splits)
qed

section \<open>Every run\<close>

lemma tables_Register: "Register creds cfg w = Inr (c, s) \<Longrightarrow> tables_ok s"
  by (auto simp: Register_def tables_ok_def ops_match_def running_def NewTable_def NewExportPins_def pins_ok_def pin_count_def
      split: sum.splits)

lemma tables_request:
  assumes ok: "tables_ok s" and h: "handle d q s = Some s'"
  shows "tables_ok s'"
  using h
  by (cases q) (auto intro: tables_verbs [OF ok] tables_begun [OF ok] tables_pinned [OF ok] tables_Export [OF ok]
      tables_Rollback [OF ok] tables_transfers [OF ok])

lemma tables_step: "server_step d view e s s' \<Longrightarrow> tables_ok s \<Longrightarrow> tables_ok s'"
  by (erule server_step.cases) (auto dest: tables_request tables_Work(1) tables_retried tables_Register)

lemma tables_run: "daemon_run d view w s \<Longrightarrow> tables_ok s"
  by (induction rule: daemon_run.induct) (auto dest: tables_Register tables_step)

end
