(* ===== verification/ServerTheorems.thy ===== *)
theory ServerTheorems
  imports ServerTables
begin

text \<open>
  What holds of the daemon over sequences of requests, background jobs, expiries and restarts: the
  invariant of its tables, the lifecycle of the volumes as the specification \<open>permits\<close> has it, and what a
  client can rely on for operations and snapshots. What is about the tables alone holds over every run. What is
  about the volumes holds over the orderly runs, in which no copy job runs into a name that was taken meanwhile
  by something another job or a transfer relies on.
\<close>

section \<open>Every event\<close>

context served
begin

lemma request_proper:
  assumes ok: "server_ok view (dm_cfg d) s" and h: "handle d q s = Some s'"
  shows "proper d view (Request q) s s'"
proof (cases q)
  case (ReqReceive msgs)
  then obtain r where "api_Receive (dm_hash d) (dm_io d) msgs s = Some (r, s')" using h by auto
  then show ?thesis unfolding ReqReceive by (rule proper_Receive [OF ok])
next
  case (ReqCommitTransfer tid digest)
  then obtain r where "CommitTransfer (dm_hash d) (dm_client d) (dm_cfg d) (dm_io d) tid digest s = Some (r, s')" using h by auto
  then show ?thesis unfolding ReqCommitTransfer by (rule proper_CommitTransfer [OF ok])
qed (use h in \<open>auto intro: proper_CreateVolume [OF ok] proper_reads [OF ok] proper_Attach [OF ok] proper_Detach [OF ok]
  proper_DeleteVolume [OF ok] proper_CreateSnapshot [OF ok] proper_DeleteSnapshot [OF ok] proper_ResizeVolume [OF ok]
  proper_RollbackVolume [OF ok] proper_CreateVolumeFromSnapshot [OF ok] proper_Export [OF ok] proper_PushVolume [OF ok]
  proper_PushSnapshot [OF ok] proper_PrepareReceive [OF ok] proper_AbortTransfer [OF ok]
  simp del: permits.simps permits_request.simps\<close>)

lemma step_fair:
  assumes "server_step d view e s s'" and ok: "server_ok view (dm_cfg d) s"
  shows "fair d view e s s'"
  using assms(1)
proof cases
  case (expired tid t w)
  then show ?thesis using proper_Expiry [OF ok] by (simp add: proper_fair)
next
  case (finished xs j ys)
  then show ?thesis using fair_Work [OF ok] by simp
next
  case (retried j)
  then show ?thesis using proper_retried [OF ok] by (simp add: proper_fair)
next
  case (restarted failed w creds)
  show ?thesis unfolding restarted(1) by (rule proper_fair [OF proper_Restart [OF ok restarted(2-4)]])
qed (use request_proper [OF ok] in \<open>simp add: proper_fair\<close>)

lemma run_ok:
  assumes "orderly_run d view w s" and "wf_view (view w)"
  shows "server_ok view (dm_cfg d) s"
  using assms(1)
proof induction
  case (started creds s)
  have "0 \<le> cfg_MaxInboundTransfers (dm_cfg d)" using surroundings by (simp add: daemon_ok_def)
  then show ?case by (rule server_ok_Register(1) [OF assms(2) started])
next
  case (continued s e s')
  then show ?case using step_fair by (simp add: fair_def)
qed

end

lemma orderly_daemon: "orderly_run d view w s \<Longrightarrow> daemon_run d view w s"
  by (induction rule: orderly_run.induct) (auto intro: daemon_run.intros)

lemma served_run: "daemon_ok d view \<Longrightarrow> wf_view (view w) \<Longrightarrow> orderly_run d view w s \<Longrightarrow> server_ok view (dm_cfg d) s"
  by (rule served.run_ok [OF served.intro])

lemma served_step:
  "daemon_ok d view \<Longrightarrow> wf_view (view w) \<Longrightarrow> orderly_run d view w s \<Longrightarrow> server_step d view e s s' \<Longrightarrow>
    shift (permits s e) (view (sv_host s)) (view (sv_host s'))"
  using served.step_fair [OF served.intro] served_run by (fastforce simp: fair_def)

section \<open>The reference daemon\<close>

text \<open>A daemon on the reference implementation of lvm that reaches no other node.\<close>

definition demo_daemon :: "refhost daemon" where
  "demo_daemon =
     \<lparr>dm_hash = (\<lambda>x. x), dm_io = still_io, dm_cancelled = (\<lambda>_. None), dm_run = demo_run, dm_cfg = demo_cfg,
      dm_dial = (\<lambda>_. fail (Errorf ''unreachable'')), dm_send = (\<lambda>_. ret ()), dm_build = None\<rparr>"

lemma demo_daemon_ok: "daemon_ok demo_daemon map_of"
proof -
  have run: "demo_run (lvm_command demo_client ''version'' no_common) w = (Inl (RunError 3 ''unknown command''), w)" for w
    by (simp add: ref_run_def read_cmd_def lvm_command_def no_common_def Let_def)
  have "keeps P (demo_run (lvm_command demo_client ''version'' no_common))" for P
    unfolding keeps_def run by simp
  then have "keeps P (GetVersion demo_client no_common)" for P
    unfolding GetVersion_def read_only_def run_output_def by (intro keeps_intros keeps_client_run)
  then have "quiet map_of (GetVersion demo_client no_common)" by (simp add: quiet_def)
  moreover have "io_frame map_of (still_io :: refhost devio)"
    by (simp add: io_frame_def sync_frame_def keeps_reads_def keeps_def still_io_def)
  ultimately show ?thesis
    using demo_node by (simp add: daemon_ok_def demo_daemon_def demo_cfg_def quiet_def keeps_def)
qed

interpretation demo_served: served demo_daemon map_of
  by (rule served.intro [OF demo_daemon_ok])

text \<open>The state after the start, and after a request that starts to copy a snapshot.\<close>

definition demo_boot :: "refhost server" where
  "demo_boot =
     \<lparr>sv_host = demo_host, sv_ops = NewTable, sv_pins = NewExportPins, sv_transfers = NewTransfers,
      sv_reserved = newNameReservations, sv_jobs = [ResolveRecovered]\<rparr>"

abbreviation demo_copy :: job where
  "demo_copy \<equiv> RunCopyFromSnapshot ''n'' ''s'' ''op'' 4096"

lemma demo_VolumeExists: "VolumeExists demo_client demo_cfg ''n'' demo_host = (Inr False, demo_host)"
proof -
  have "filter (selected (sel_name ''n'')) demo_host = []" by (simp add: demo_host_def)
  then have "ListLogicalVolumes demo_client (list_opts (cfg_VolumeGroup demo_cfg) (sel_name ''n'')) demo_host = (Inr [], demo_host)"
    using ref_list [OF demo_printable, of "sel_name ''n''" "''thin''"] by (simp add: demo_cfg_def)
  then show ?thesis by (simp add: VolumeExists_def wrap_def seqE_def mapErr_def)
qed

lemma demo_accepted:
  assumes "sv_host s = demo_host" and "sv_ops s op = None" and "op \<noteq> []"
  shows "\<exists>s'. CreateVolumeFromSnapshot demo_client demo_cfg ''n'' ''s'' op s = (Inr (), s') \<and> sv_host s' = demo_host \<and>
    sv_ops s' = (sv_ops s)(op \<mapsto> \<lparr>op_Phase = Pending, op_BytesDone = 0, op_Reason = []\<rparr>) \<and>
    sv_jobs s' = sv_jobs s @ [RunCopyFromSnapshot ''n'' ''s'' op 4096] \<and> sv_pins s' = snd (Acquire (sv_pins s) ''s'')"
proof -
  have "GetVolume demo_client demo_cfg ''s'' demo_host =
      (Inr (volumeFromLV (obj_lv ''vg0'' (''s'', demo_lv [StateTag StateSnapshot, originTagPrefix @ ''v''] ''v'' False))), demo_host)"
    by (rule demo_GetVolume [OF demo_printable]) (simp_all add: obj_state_def demo_lv_def)
  moreover have "volumeIDPattern ''n''" "volumeIDPattern ''s''" by (simp_all add: volumeIDPattern_iff)
  ultimately show ?thesis
    using assms demo_VolumeExists
    by (simp add: CreateVolumeFromSnapshot_def demand_def seqE_def on_host_simps begin_op_def ops_Begin_def pin_def spawn_def Let_def
        volumeFromLV_def obj_lv_def demo_lv_def knownState_def knownStates_def)
qed

lemma demo_daemon_simps [simp]:
  "dm_run demo_daemon = demo_run" "dm_cfg demo_daemon = demo_cfg"
  by (simp_all add: demo_daemon_def)

lemma demo_booted: "orderly_run demo_daemon map_of demo_host demo_boot"
  by (rule started [where creds = "()"]) (simp add: Register_def demo_boot_def)

lemma demo_copying:
  obtains s where "orderly_run demo_daemon map_of demo_host s" and "sv_jobs s = [ResolveRecovered] @ demo_copy # []"
    and "Pinned (sv_pins s) ''s''"
proof -
  obtain s where s: "CreateVolumeFromSnapshot demo_client demo_cfg ''n'' ''s'' ''op'' demo_boot = (Inr (), s)" "sv_host s = demo_host"
      "sv_jobs s = [ResolveRecovered] @ demo_copy # []" "sv_pins s = snd (Acquire NewExportPins ''s'')"
    using demo_accepted [of demo_boot "''op''"] by (auto simp: demo_boot_def NewTable_def)
  have "orderly_run demo_daemon map_of demo_host s"
    by (rule continued [OF demo_booted request [where q = "ReqCreateVolumeFromSnapshot ''n'' ''s'' ''op''"]])
      (use s(1) in \<open>simp_all add: disturbs_def\<close>)
  then show ?thesis
    by (rule that) (use s in \<open>simp_all add: Pinned_def Acquire_def NewExportPins_def pin_count_def Let_def\<close>)
qed

text \<open>A request that deletes a snapshot.\<close>

lemma demo_DeleteSnapshot: "vstate (map_of (snd (DeleteSnapshot demo_client demo_cfg NewExportPins ''s'' demo_host))) ''s'' = None"
proof -
  have "GetVolume demo_client demo_cfg ''s'' demo_host =
      (Inr (volumeFromLV (obj_lv ''vg0'' (''s'', demo_lv [StateTag StateSnapshot, originTagPrefix @ ''v''] ''v'' False))), demo_host)"
    by (rule demo_GetVolume [OF demo_printable]) (simp_all add: obj_state_def demo_lv_def)
  then have "fst (DeleteSnapshot demo_client demo_cfg NewExportPins ''s'' demo_host) = Inr ()"
    by (simp add: DeleteSnapshot_def RemoveVolume_def wrap_def mapErr_def seqE_def demo_commands volumeFromLV_def obj_lv_def
        demo_lv_def Let_def knownState_def knownStates_def Pinned_def NewExportPins_def pin_count_def)
  then have e: "lv_effect (cfg_ThinPool demo_cfg) (OpRemove ''s'') (map_of demo_host)
      (map_of (snd (DeleteSnapshot demo_client demo_cfg NewExportPins ''s'' demo_host)))"
    using demo.DeleteSnapshot_outcome [OF prod.collapse [symmetric] demo_names(2), of NewExportPins demo_host] by auto
  then show ?thesis using effect_remove(2) [OF e demo_wf] by simp
qed

lemma demo_deleted:
  obtains s where "server_step demo_daemon map_of (Request (ReqDeleteSnapshot ''s'')) demo_boot s"
    and "vstate (map_of (sv_host s)) ''s'' = None"
proof (rule that)
  let ?s = "snd (api_DeleteSnapshot demo_client demo_cfg ''s'' demo_boot)"
  show "server_step demo_daemon map_of (Request (ReqDeleteSnapshot ''s'')) demo_boot ?s" by (rule request) simp
  show "vstate (map_of (sv_host ?s)) ''s'' = None"
    using demo_DeleteSnapshot by (simp add: api_DeleteSnapshot_def demand_def snd_mapErr on_host_simps volumeIDPattern_iff demo_boot_def)
qed

section \<open>The state machine\<close>

text \<open>
  C2. The invariant of the daemon, whatever lvm commands, device operations and calls to other nodes fail. In
  every run of requests, background jobs, expiries and restarts, an operation is running exactly while one pending
  job works on it, a snapshot is pinned exactly as often as pending jobs hold it, and no name stays reserved. In an
  orderly run, where no copy job runs into a name taken meanwhile by a held snapshot, a volume a pending job is to
  delete or the volume of a live transfer, moreover the held snapshots are there, what a pending delete is going
  to remove is marked for deletion, and by that job alone, and every live transfer has an incoming volume of its
  own, their number limited.
\<close>

theorem daemon_invariant:
  assumes "daemon_ok d view" and "wf_view (view w)"
  shows "(daemon_run d view w s \<longrightarrow> tables_ok s) \<and> (orderly_run d view w s \<longrightarrow> server_ok view (dm_cfg d) s)"
  by (intro conjI impI tables_run served_run [OF assms])

theorem daemon_invariant_witness:
  "\<exists>s. orderly_run demo_daemon map_of demo_host s \<and> demo_copy \<in> set (sv_jobs s) \<and> tables_ok s \<and> server_ok map_of demo_cfg s"
proof -
  obtain s where s: "orderly_run demo_daemon map_of demo_host s" "sv_jobs s = [ResolveRecovered] @ demo_copy # []"
    by (rule demo_copying)
  then show ?thesis using daemon_invariant [OF demo_daemon_ok demo_wf, of s] orderly_daemon [OF s(1)] by auto
qed

text \<open>
  C1. The lifecycle of the volumes: after an orderly run, an event moves a volume from one state to another only
  where the specification permits it; every other volume keeps its state. The event may be any, also a copy job
  whose target name was taken since it was accepted: such a job fails, and it may remove what holds the name.
\<close>

theorem volume_lifecycle:
  assumes "daemon_ok d view" and "wf_view (view w)" and "orderly_run d view w s" and "server_step d view e s s'"
  shows "vstate (view (sv_host s')) n = vstate (view (sv_host s)) n \<or>
    permits s e n (vstate (view (sv_host s)) n) (vstate (view (sv_host s')) n)"
  using served_step [OF assms] by (simp add: shift_def)

theorem volume_lifecycle_witness:
  "\<exists>s. server_step demo_daemon map_of (Request (ReqDeleteSnapshot ''s'')) demo_boot s \<and>
     permits demo_boot (Request (ReqDeleteSnapshot ''s'')) ''s'' (Some StateSnapshot) (vstate (map_of (sv_host s)) ''s'')"
proof -
  obtain s where s: "server_step demo_daemon map_of (Request (ReqDeleteSnapshot ''s'')) demo_boot s"
      "vstate (map_of (sv_host s)) ''s'' = None" by (rule demo_deleted)
  then show ?thesis
    using volume_lifecycle [OF demo_daemon_ok demo_wf demo_booted s(1), of "''s''"] by (auto simp: demo_boot_def)
qed

section \<open>Operations\<close>

lemma decided:
  "op \<in> dom (sv_ops s) \<Longrightarrow> op \<notin> running (sv_ops s) \<Longrightarrow>
    GetOperation op s = Inr OpDone \<or> (\<exists>reason. GetOperation op s = Inr (OpFailed reason))"
  by (auto simp: GetOperation_def ops_Get_def running_def split: Phase.split)

lemma work_ops_ends: "job_ops j = [op] \<Longrightarrow> fst (work d j s)"
  by (cases j) simp_all

text \<open>
  C5. A job decides its operation: in every state of every run, a pending job with an operation can run, and
  whatever fails in it, also where it copies into a name that was taken meanwhile, afterwards the operation is
  reported done or failed.
\<close>

theorem job_decides_operation:
  assumes "daemon_run d view w s" and "j \<in> set (sv_jobs s)" and "job_ops j = [op]"
  shows "(\<exists>s'. server_step d view (Work j) s s') \<and>
    (\<forall>s'. server_step d view (Work j) s s' \<longrightarrow>
      GetOperation op s' = Inr OpDone \<or> (\<exists>reason. GetOperation op s' = Inr (OpFailed reason)))"
proof (intro conjI allI impI)
  obtain xs ys where "sv_jobs s = xs @ j # ys" using assms(2) by (auto simp: in_set_conv_decomp)
  moreover have "j \<noteq> ResolveRecovered" using assms(3) by auto
  ultimately show "\<exists>s'. server_step d view (Work j) s s'"
    using work_ops_ends [OF assms(3)] by (metis prod.collapse server_step.finished)
next
  fix s' assume "server_step d view (Work j) s s'"
  then show "GetOperation op s' = Inr OpDone \<or> (\<exists>reason. GetOperation op s' = Inr (OpFailed reason))"
  proof cases
    case (finished xs ys)
    from tables_Work(2) [OF tables_run [OF assms(1)] finished(1,3)] assms(3)
    show ?thesis by (intro decided) simp_all
  next
    case retried
    then show ?thesis using work_ops_ends [OF assms(3), of d s] by simp
  qed
qed

theorem job_decides_operation_witness:
  "\<exists>s s'. daemon_run demo_daemon map_of demo_host s \<and> server_step demo_daemon map_of (Work demo_copy) s s' \<and>
     GetOperation ''op'' s' \<noteq> Inr OpPending"
proof -
  obtain s where s: "orderly_run demo_daemon map_of demo_host s" "sv_jobs s = [ResolveRecovered] @ demo_copy # []"
    by (rule demo_copying)
  then show ?thesis
    using job_decides_operation [OF orderly_daemon [OF s(1)], of demo_copy "''op''"] orderly_daemon [OF s(1)] by fastforce
qed

text \<open>
  C8. A daemon with nothing left to do but to resolve old pushes has settled everything: every operation it
  knows is done or failed, and no snapshot is pinned.
\<close>

theorem idle_daemon_settled:
  assumes "daemon_run d view w s" and "\<forall>j \<in> set (sv_jobs s). job_ops j = []"
  shows "(\<forall>op. op \<in> dom (sv_ops s) \<longrightarrow>
      GetOperation op s = Inr OpDone \<or> (\<exists>reason. GetOperation op s = Inr (OpFailed reason))) \<and>
    (\<forall>n. \<not> Pinned (sv_pins s) n)"
proof -
  note ok = tables_run [OF assms(1)]
  have "of_jobs job_ops (sv_jobs s) = []" using assms(2) by (simp add: of_jobs_def)
  then have "running (sv_ops s) = {}" using ok by (simp add: tables_ok_def ops_match_def)
  moreover have "job_holds j = []" if "job_ops j = []" for j using that by (cases j) simp_all
  then have "of_jobs job_holds (sv_jobs s) = []" using assms(2) by (simp add: of_jobs_def)
  then have "pin_count (sv_pins s) n = 0" for n using ok by (simp add: tables_ok_def)
  ultimately show ?thesis by (simp add: decided Pinned_def)
qed

theorem idle_daemon_settled_witness:
  "\<exists>s. daemon_run demo_daemon map_of demo_host s \<and> ''op'' \<in> dom (sv_ops s) \<and> GetOperation ''op'' s \<noteq> Inr OpPending \<and>
     \<not> Pinned (sv_pins s) ''s''"
proof -
  obtain s where s: "orderly_run demo_daemon map_of demo_host s" "sv_jobs s = [ResolveRecovered] @ demo_copy # []"
    by (rule demo_copying)
  obtain s' where w: "work demo_daemon demo_copy (s\<lparr>sv_jobs := [ResolveRecovered] @ []\<rparr>) = (True, s')" by simp
  note ok = served_run [OF demo_daemon_ok demo_wf s(1)] and run = orderly_daemon [OF s(1)]
  have run': "daemon_run demo_daemon map_of demo_host s'"
    by (rule stepped [OF run finished [where view = map_of, OF s(2) _ w]]) simp
  have "''op'' \<in> dom (sv_ops s')" using tables_Work(2) [OF tables_run [OF run] s(2) w] by simp
  moreover have "sv_jobs s' = [ResolveRecovered]"
    by (rule demo_served.work_ends [OF ok s(2) w]) (auto simp: released_def)
  ultimately show ?thesis using idle_daemon_settled [OF run'] run' by fastforce
qed

section \<open>Snapshots and volumes\<close>

lemma permits_pinned: "permits s e n (Some StateSnapshot) b \<Longrightarrow> \<not> copies_into n e \<Longrightarrow> \<not> Pinned (sv_pins s) n"
proof (cases e)
  case (Request q)
  assume "permits s e n (Some StateSnapshot) b"
  then show ?thesis unfolding Request by (cases q) (auto simp: goes_def rolls_def stays_def)
next
  case (Work j)
  assume "permits s e n (Some StateSnapshot) b" "\<not> copies_into n e"
  then show ?thesis unfolding Work by (cases j) (auto simp: goes_def stays_def)
qed (auto simp: goes_def)

text \<open>
  C6. A snapshot that a push or a copy holds survives: after an orderly run every pinned name is a snapshot, and
  no event, not even a restart, takes it away or moves it to another state, but a copy job whose target is this
  very name. That job was accepted while the name was free; it fails, and removes what holds the name.
\<close>

theorem held_snapshot_survives:
  assumes "daemon_ok d view" and "wf_view (view w)" and "orderly_run d view w s" and "server_step d view e s s'"
    and "Pinned (sv_pins s) n"
  shows "vstate (view (sv_host s)) n = Some StateSnapshot \<and>
    (vstate (view (sv_host s')) n = Some StateSnapshot \<or> copies_into n e)"
proof -
  note ok = served_run [OF assms(1-3)]
  have "0 < count_list (of_jobs job_holds (sv_jobs s)) n"
    using server_okD(3) [OF ok] assms(5) by (simp add: pins_match_def Pinned_def)
  then have "n \<in> set (of_jobs job_holds (sv_jobs s))" by (metis count_list_0_iff less_irrefl)
  then have "vstate (view (sv_host s)) n = Some StateSnapshot"
    using server_okD(3) [OF ok] by (simp add: pins_match_def)
  moreover from this have "\<not> permits s e n (vstate (view (sv_host s)) n) b" if "\<not> copies_into n e" for b
    using permits_pinned assms(5) that by metis
  ultimately show ?thesis using served_step [OF assms(1-4)] unfolding shift_def by metis
qed

theorem held_snapshot_survives_witness:
  "\<exists>s s'. orderly_run demo_daemon map_of demo_host s \<and> Pinned (sv_pins s) ''s'' \<and>
     server_step demo_daemon map_of (Request (ReqDeleteSnapshot ''s'')) s s' \<and> vstate (map_of (sv_host s')) ''s'' = Some StateSnapshot"
proof -
  obtain s where s: "orderly_run demo_daemon map_of demo_host s" "Pinned (sv_pins s) ''s''" by (rule demo_copying)
  have step: "server_step demo_daemon map_of (Request (ReqDeleteSnapshot ''s'')) s (snd (api_DeleteSnapshot demo_client demo_cfg ''s'' s))"
    by (rule request) simp
  have "vstate (map_of (sv_host (snd (api_DeleteSnapshot demo_client demo_cfg ''s'' s)))) ''s'' = Some StateSnapshot"
    using held_snapshot_survives [OF demo_daemon_ok demo_wf s(1) step s(2)] by simp
  then show ?thesis using s step by blast
qed

lemma permits_loss:
  assumes "permits s e n (Some st) None" and "st \<in> {StateReady, StateAttached, StateSnapshot, StatePushing, StateCommitting, StateRetired}"
  shows "(\<exists>sid. e = Request (ReqRollbackVolume n sid)) \<and> st = StateReady \<or> e = Request (ReqDeleteSnapshot n) \<and> st = StateSnapshot \<or>
    copies_into n e"
proof (cases e)
  case (Request q)
  then show ?thesis using assms by (cases q) (auto simp: goes_def rolls_def stays_def)
next
  case (Work j)
  then show ?thesis using assms by (cases j) (auto simp: goes_def stays_def)
qed (use assms in \<open>auto simp: goes_def\<close>)



end
