(* ===== verification/ApiFindings.thy ===== *)
theory ApiFindings
  imports PushNetwork ServerTheorems
begin

text \<open>
  Runs in which the services do something their comments or the README exclude, each shown on the
  reference node.
\<close>

section \<open>A commit that lands after the source gave up\<close>

text \<open>A target whose answers to an abort are lost.\<close>

definition deaf_peer :: "'w peer" where
  "deaf_peer =
     \<lparr>p_QueryTransfer = (\<lambda>_. fail unavailable), p_Receive = fail unavailable, p_Send = (\<lambda>_. fail (Errorf ''EOF'')),
      p_CloseAndRecv = fail unavailable, p_CommitTransfer = (\<lambda>_ _. fail unavailable),
      p_AbortTransfer = (\<lambda>_. fail unavailable), p_QueryVolume = (\<lambda>_. fail unavailable)\<rparr>"

text \<open>
  C38. Settling a push relies on the abort it sends: a commit that is under way on the target when the
  source asks is answered as not landed; if the abort that follows is lost, the source goes back to
  ready all the same, and the commit then lands. Both nodes end up with the volume as their own.
\<close>

theorem lost_abort_two_copies:
  "\<exists>x t t' w'.
     commit_verify (\<lambda>x. x) demo_client demo_cfg ''t'' (content_digest (\<lambda>x. x) (zeros 2)) (received_demo, demo_incoming) =
       Some (Inr (Some x), (t, demo_incoming)) \<and>
     fst (QueryVolume demo_client demo_cfg ''n'' (demo_server demo_incoming t)) = Inr False \<and>
     vstate (map_of (sv_host (settlePush demo_client demo_cfg deaf_peer False ''n'' ''t'' ''op'' None
       (demo_server (demo_source StateCommitting) NewTransfers)))) ''n'' = Some StateReady \<and>
     commit_land demo_client demo_cfg still_io ''t'' x (t, demo_incoming) = (Inr (), (t', w')) \<and>
     vstate (map_of w') ''n'' = Some StateReady"
proof -
  let ?s = "(new_session ''n'' 2)\<lparr>ses_path := ''/dev/vg0/n'', ses_grace := True\<rparr>"
  have rec: "received (\<lambda>x. x) ?s (zeros 2)"
    using received_fresh [of 2 "\<lambda>x. x" "''n''"] by (simp add: received_def new_session_def Let_def)
  have s: "the_session received_demo ''t'' = Some ?s" "\<not> ses_terminal ?s" "\<not> ses_streaming ?s"
    by (simp_all add: received_demo_def new_session_def)
  obtain b where v: "commit_verify (\<lambda>x. x) demo_client demo_cfg ''t'' (content_digest (\<lambda>x. x) (zeros 2)) (received_demo, demo_incoming) =
      Some (Inr (Some (digested (\<lambda>x. x) ?s b)), (set_session ''t'' (digested (\<lambda>x. x) ?s b) received_demo, demo_incoming))"
    using commit_verify_digest [OF s rec, of demo_client demo_cfg "content_digest (\<lambda>x. x) (zeros 2)" demo_incoming] by auto
  let ?x = "digested (\<lambda>x. x) ?s b"
  let ?t = "set_session ''t'' ?x received_demo"
  obtain w' where l: "land_volume demo_client demo_cfg still_io ''t'' ?x False demo_incoming = (Inr (), w')"
    using demo_incoming_n by (auto simp: land_volume_def wrap_def mapErr_def seqE_def demo_commands digested_def new_session_def
        ret_def AList.update_conv')
  have c: "commit_land demo_client demo_cfg still_io ''t'' ?x (?t, demo_incoming) =
      (Inr (), (finish ''t'' (?t\<lparr>tr_committed := (tr_committed ?t)(''t'' := True)\<rparr>), w'))"
    using l by (simp add: commit_land_def Let_def digested_def new_session_def)
  have "wf_view (map_of demo_incoming)" "vstate (map_of demo_incoming) ''n'' = Some StateIncoming"
    using demo_target_ok(1) demo_incoming_n
    by (simp_all add: target_ok_def demo_server_def vstate_def obj_state_def demo_lv_def knownState_def knownStates_def)
  then have "vstate (map_of w') ''n'' = Some StateReady"
    using demo.commit_land_outcome [OF c] still_sync landedD(2) s(2) by (fastforce simp: digested_def new_session_def)
  moreover have "vstate (map_of (sv_host (settlePush demo_client demo_cfg deaf_peer False ''n'' ''t'' ''op'' None
       (demo_server (demo_source StateCommitting) NewTransfers)))) ''n'' = Some StateReady"
    using demo_aborted by (simp add: settlePush_def failPush_def abortTransfer_def deaf_peer_def demo_server_def ops_fail_def)
  ultimately show ?thesis using v c demo_QueryVolume by auto
qed

section \<open>A failed copy that removes the volume of another request\<close>

lemma demo_create_refused:
  assumes "map_of w n \<noteq> None"
  shows "\<exists>e. CreateThinVolume demo_client (cfg_VolumeGroup demo_cfg) (cfg_ThinPool demo_cfg) n k (thin_opts tags act) w = (Inl e, w)"
proof -
  have pool: "cfg_ThinPool demo_cfg = ''thin''" by (simp add: demo_cfg_def)
  have "exec ''thin'' (OpCreateThin n k tags act) w = None" using assms by simp
  from run_unit_ref_refused [OF this, of "cfg_VolumeGroup demo_cfg"] show ?thesis unfolding pool by (simp only: create_command)
qed

text \<open>Devices of 4096 zero bytes.\<close>

definition zero_io :: "'w devio" where
  "zero_io =
     \<lparr>d_open = (\<lambda>_. ret ()), d_seek_end = (\<lambda>_. ret 4096), d_seek_start = (\<lambda>_. ret ()), d_openw = (\<lambda>_. ret ()),
      d_read = (\<lambda>_ _ n. ret (zeros n)), d_write = (\<lambda>_ _ _. ret ()), d_sync = (\<lambda>_. ret ())\<rparr>"

lemma zero_copy: "CopyDevice H (lift_io zero_io) (\<lambda>_. None) src dst progress s = (Inr (), s)"
proof -
  have "read_loop H (lift_io zero_io) (\<lambda>_. None) src sink 0 4096 b s = (Inr (AddZeroChunk H b 4096), s)" for sink b
    by (subst read_loop.simps)
      (simp add: zero_io_def lift_io_def on_host_simps mapErr_def seqE_def Let_def chunk_len_def TransferChunkBytes_def read_loop.simps)
  then show ?thesis
    by (simp add: CopyDevice_def ReadDevice_def zero_io_def lift_io_def on_host_simps mapErr_def seqE_def Let_def)
qed

text \<open>The hosts a copy goes through: the target made, the snapshot activated, the target ready.\<close>

definition demo_target :: "State \<Rightarrow> bool \<Rightarrow> lvobj" where
  "demo_target st act =
     \<lparr>o_tags = [StateTag st], o_pool = ''thin'', o_origin = [], o_size = 4096, o_active = act, o_skip = False, o_data = (\<lambda>_. 0)\<rparr>"

lemma demo_copy_printable:
  "printable ''vg0'' (AList.update ''n'' (demo_target StateCreating True) demo_host)"
  "printable ''vg0'' (AList.update ''s'' (demo_lv [StateTag StateSnapshot, originTagPrefix @ ''v''] ''v'' True)
     (AList.update ''n'' (demo_target StateCreating True) demo_host))"
  by (simp_all add: printable_def demo_target_def demo_host_def demo_lv_def tag_evals plain_raw_def raw_values_def
      raw_of_lv_def obj_lv_def plain_char_def list_item_def FormatUint_def digits_of.simps)

lemma demo_first_copy:
  assumes "sv_host s = demo_host"
  shows "\<exists>w. copyFromSnapshot H zero_io (\<lambda>_. None) demo_client demo_cfg ''n'' ''s'' op 4096 s = (Inr (), s\<lparr>sv_host := w\<rparr>) \<and>
    map_of w ''n'' = Some (demo_target StateReady False) \<and> map_of w ''s'' \<noteq> None"
proof -
  let ?w1 = "AList.update ''n'' (demo_target StateCreating True) demo_host"
  let ?x = "\<lambda>act. demo_lv [StateTag StateSnapshot, originTagPrefix @ ''v''] ''v'' act"
  let ?w2 = "AList.update ''s'' (?x True) ?w1"
  let ?w3 = "AList.update ''n'' (demo_target StateCreating False) ?w2"
  let ?w4 = "AList.update ''n'' (demo_target StateReady False) ?w3"
  have 1: "CreateThinVolume demo_client (cfg_VolumeGroup demo_cfg) (cfg_ThinPool demo_cfg) ''n'' 4096 (thin_opts [StateTag StateCreating] None)
      demo_host = (Inr (), ?w1)"
    by (rule demo_commands(2)) (simp add: demo_target_def demo_host_def)
  have n: "map_of ?w1 ''n'' = Some (demo_target StateCreating True)" "map_of ?w1 ''s'' = Some (?x False)"
    "map_of ?w2 ''s'' = Some (?x True)" "map_of ?w2 ''n'' = Some (demo_target StateCreating True)"
    "map_of ?w3 ''n'' = Some (demo_target StateCreating False)"
    by (simp_all add: AList.update_conv' demo_host_def)
  have 2: "GetVolume demo_client demo_cfg ''n'' ?w1 = (Inr (volumeFromLV (obj_lv ''vg0'' (''n'', demo_target StateCreating True))), ?w1)"
    by (rule demo_GetVolume [OF demo_copy_printable(1) n(1)]) (simp add: demo_target_def obj_state_def)
  have 3: "ActivateLogicalVolume demo_client (lv_target demo_cfg ''s'') (activate_opts True) ?w1 = (Inr (), ?w2)"
    using n(2) by (intro demo_commands(4)) (simp add: demo_lv_def)
  have 4: "GetVolume demo_client demo_cfg ''s'' ?w2 = (Inr (volumeFromLV (obj_lv ''vg0'' (''s'', ?x True))), ?w2)"
    by (rule demo_GetVolume [OF demo_copy_printable(2) n(3)]) (simp add: demo_lv_def obj_state_def)
  have 5: "DeactivateLogicalVolume demo_client (lv_target demo_cfg ''n'') no_common ?w2 = (Inr (), ?w3)"
    using n(4) by (intro demo_commands(5)) (simp add: demo_target_def)
  have 6: "ChangeLogicalVolume demo_client (lv_target demo_cfg ''n'') (retag_opts [StateTag StateReady] [StateTag StateCreating] None) ?w3 =
      (Inr (), ?w4)"
    using n(5) by (intro demo_commands(1)) (simp_all add: demo_target_def ref_tags_def tag_evals)
  have "copyFromSnapshot H zero_io (\<lambda>_. None) demo_client demo_cfg ''n'' ''s'' op 4096 s = (Inr (), s\<lparr>sv_host := ?w4\<rparr>)"
    using assms 1 2 3 4 5 6 by (simp add: copyFromSnapshot_def seqE_def on_host_simps wrap_def mapErr_def zero_copy)
  moreover have "map_of ?w4 ''n'' = Some (demo_target StateReady False)" "map_of ?w4 ''s'' \<noteq> None"
    using n(3) by (simp_all add: AList.update_conv')
  ultimately show ?thesis by blast
qed

lemma demo_taken_copy:
  assumes "map_of (sv_host s) ''n'' \<noteq> None" and "map_of (sv_host s) ''s'' \<noteq> None"
  shows "\<exists>reason w p. runCopyFromSnapshot H io cancelled demo_client demo_cfg ''n'' ''s'' op 4096 s =
      s\<lparr>sv_host := w, sv_ops := ops_Fail (sv_ops s) op reason, sv_pins := p\<rparr> \<and> map_of w ''n'' = None"
proof -
  let ?h = "map (\<lambda>(m, x). (m, reorigin ''n'' [] x)) (AList.delete ''n'' (sv_host s))"
  obtain e where c: "copyFromSnapshot H io cancelled demo_client demo_cfg ''n'' ''s'' op 4096 s = (Inl e, s)"
    using demo_create_refused [OF assms(1), of 4096 "[StateTag StateCreating]" None]
    by (auto simp: copyFromSnapshot_def seqE_def wrap_def mapErr_def on_host_simps)
  have r: "RemoveVolume demo_client demo_cfg ''n'' (sv_host s) = (Inr (), ?h)"
    using assms(1) by (simp add: RemoveVolume_def wrap_def mapErr_def demo_commands)
  have h: "map_of ?h ''n'' = None" "map_of ?h ''s'' \<noteq> None"
    using assms(2) by (simp_all add: map_of_map_snd AList.delete_conv')
  then obtain x where "map_of ?h ''s'' = Some x" by blast
  then have "DeactivateLogicalVolume demo_client (lv_target demo_cfg ''s'') no_common ?h =
      (Inr (), AList.update ''s'' (x\<lparr>o_active := False\<rparr>) ?h)"
    by (intro demo_commands(5)) simp
  then have "map_of (snd (DeactivateLogicalVolume demo_client (lv_target demo_cfg ''s'') no_common ?h)) ''n'' = None"
    using h(1) by (simp add: AList.update_conv')
  moreover obtain w1 where w1: "releaseExport demo_client demo_cfg ''s'' (s\<lparr>sv_host := ?h, sv_ops := ops_Fail (sv_ops s) op (err_Error e)\<rparr>) =
      s\<lparr>sv_host := w1, sv_ops := ops_Fail (sv_ops s) op (err_Error e), sv_pins := snd (Release (sv_pins s) ''s'')\<rparr>"
      "w1 = ?h \<or> w1 = snd (DeactivateLogicalVolume demo_client (lv_target demo_cfg ''s'') no_common ?h)"
    by (cases "fst (Release (sv_pins s) ''s'')") (auto simp: releaseExport_def split_def Let_def)
  ultimately have "map_of w1 ''n'' = None" using h(1) by auto
  moreover have "runCopyFromSnapshot H io cancelled demo_client demo_cfg ''n'' ''s'' op 4096 s =
      releaseExport demo_client demo_cfg ''s'' (s\<lparr>sv_host := ?h, sv_ops := ops_Fail (sv_ops s) op (err_Error e)\<rparr>)"
    using c r by (simp add: runCopyFromSnapshot_def ops_fail_def on_host_simps)
  ultimately show ?thesis using w1(1) by auto
qed

text \<open>
  C39. Two requests for the same new volume are both accepted while neither job has run. The first job runs, its
  operation is reported done and the volume is ready. The job that comes second finds that volume in its way: its
  operation is reported failed, and it removes the volume as its own half-made target. A ready volume, whose
  creation is still reported as done, is gone.
\<close>

theorem failed_copy_removes_volume:
  "\<exists>s1 s2 s3 s4 reason.
     CreateVolumeFromSnapshot demo_client demo_cfg ''n'' ''s'' ''op1'' (demo_server demo_host NewTransfers) = (Inr (), s1) \<and>
     CreateVolumeFromSnapshot demo_client demo_cfg ''n'' ''s'' ''op2'' s1 = (Inr (), s2) \<and>
     sv_jobs s2 = [RunCopyFromSnapshot ''n'' ''s'' ''op1'' 4096, RunCopyFromSnapshot ''n'' ''s'' ''op2'' 4096] \<and>
     runCopyFromSnapshot (\<lambda>x. x) zero_io (\<lambda>_. None) demo_client demo_cfg ''n'' ''s'' ''op1'' 4096 s2 = s3 \<and>
     GetOperation ''op1'' s3 = Inr OpDone \<and> vstate (map_of (sv_host s3)) ''n'' = Some StateReady \<and>
     runCopyFromSnapshot (\<lambda>x. x) zero_io (\<lambda>_. None) demo_client demo_cfg ''n'' ''s'' ''op2'' 4096 s3 = s4 \<and>
     GetOperation ''op2'' s4 = Inr (OpFailed reason) \<and> GetOperation ''op1'' s4 = Inr OpDone \<and>
     map_of (sv_host s4) ''n'' = None"
proof -
  let ?op = "\<lparr>op_Phase = Pending, op_BytesDone = 0, op_Reason = []\<rparr>"
  obtain s1 where s1: "CreateVolumeFromSnapshot demo_client demo_cfg ''n'' ''s'' ''op1'' (demo_server demo_host NewTransfers) = (Inr (), s1)"
    "sv_host s1 = demo_host" "sv_ops s1 ''op1'' = Some ?op" "sv_ops s1 ''op2'' = None" "sv_jobs s1 = [RunCopyFromSnapshot ''n'' ''s'' ''op1'' 4096]"
    "sv_pins s1 = snd (Acquire NewExportPins ''s'')"
    using demo_accepted [of "demo_server demo_host NewTransfers" "''op1''"] by (auto simp: demo_server_def NewTable_def)
  obtain s2 where s2: "CreateVolumeFromSnapshot demo_client demo_cfg ''n'' ''s'' ''op2'' s1 = (Inr (), s2)"
    "sv_host s2 = demo_host" "sv_ops s2 ''op1'' = Some ?op" "sv_ops s2 ''op2'' = Some ?op"
    "sv_jobs s2 = [RunCopyFromSnapshot ''n'' ''s'' ''op1'' 4096, RunCopyFromSnapshot ''n'' ''s'' ''op2'' 4096]"
    "sv_pins s2 = snd (Acquire (snd (Acquire NewExportPins ''s'')) ''s'')"
    using demo_accepted [OF s1(2,4)] s1(3,5,6) by auto
  obtain w where c: "copyFromSnapshot (\<lambda>x. x) zero_io (\<lambda>_. None) demo_client demo_cfg ''n'' ''s'' ''op1'' 4096 s2 = (Inr (), s2\<lparr>sv_host := w\<rparr>)"
    "map_of w ''n'' = Some (demo_target StateReady False)" "map_of w ''s'' \<noteq> None"
    using demo_first_copy [OF s2(2)] by blast
  let ?s3 = "runCopyFromSnapshot (\<lambda>x. x) zero_io (\<lambda>_. None) demo_client demo_cfg ''n'' ''s'' ''op1'' 4096 s2"
  have s3: "sv_host ?s3 = w" "sv_ops ?s3 = ops_Done (sv_ops s2) ''op1''"
    using c(1) s2(6)
    by (simp_all add: runCopyFromSnapshot_def releaseExport_def ops_finish_def Release_def Acquire_def NewExportPins_def pin_count_def
        split_def Let_def)
  obtain reason w4 p where s4: "runCopyFromSnapshot (\<lambda>x. x) zero_io (\<lambda>_. None) demo_client demo_cfg ''n'' ''s'' ''op2'' 4096 ?s3 =
      ?s3\<lparr>sv_host := w4, sv_ops := ops_Fail (sv_ops ?s3) ''op2'' reason, sv_pins := p\<rparr>" "map_of w4 ''n'' = None"
    using demo_taken_copy [of ?s3 "\<lambda>x. x" zero_io "\<lambda>_. None" "''op2''", unfolded s3(1)] c(2,3) by auto
  have "vstate (map_of w) ''n'' = Some StateReady"
    using c(2) by (simp add: vstate_def obj_state_def demo_target_def knownState_def knownStates_def)
  moreover have "GetOperation ''op1'' ?s3 = Inr OpDone"
    using s3(2) s2(3) by (simp add: GetOperation_def ops_Get_def ops_Done_def)
  moreover have "GetOperation ''op2'' (?s3\<lparr>sv_host := w4, sv_ops := ops_Fail (sv_ops ?s3) ''op2'' reason, sv_pins := p\<rparr>) = Inr (OpFailed reason)"
    "GetOperation ''op1'' (?s3\<lparr>sv_host := w4, sv_ops := ops_Fail (sv_ops ?s3) ''op2'' reason, sv_pins := p\<rparr>) = Inr OpDone"
    using s3(2) s2(3,4) by (simp_all add: GetOperation_def ops_Get_def ops_Done_def ops_Fail_def)
  ultimately show ?thesis
    using s1(1) s2(1,5) s3(1) s4
    by (intro exI [of _ s1] exI [of _ s2] exI [of _ ?s3]
        exI [of _ "?s3\<lparr>sv_host := w4, sv_ops := ops_Fail (sv_ops ?s3) ''op2'' reason, sv_pins := p\<rparr>"] exI [of _ reason]) auto
qed

section \<open>A rollback that undoes too much\<close>

text \<open>The reference host with a removal that takes effect and is reported as failed.\<close>

definition late_run :: "refhost runner" where
  "late_run cmd w =
     (let (r, w') = demo_run cmd w in
      (if cmd ! 1 = ''lvremove'' then Inl (RunError 5 ''archiving metadata failed'') else r, w'))"

lemma late_argv:
  "late_run (argv vg pool op) w =
    (let (r, w') = demo_run (argv vg pool op) w in
     (case op of OpRemove n \<Rightarrow> Inl (RunError 5 ''archiving metadata failed'') | _ \<Rightarrow> r, w'))"
  by (cases op) (simp_all add: late_run_def split_def Let_def)

lemma late_lvs: "late_run (lvs_argv vg sel) = demo_run (lvs_argv vg sel)"
  by (rule ext) (simp add: late_run_def lvs_argv_def split_def Let_def)

lemma late_unit:
  assumes "\<And>n. op \<noteq> OpRemove n"
  shows "run_unit (daemon_client late_run) what (argv vg pool op) = run_unit demo_client what (argv vg pool op)"
proof -
  have "late_run (argv vg pool op) = demo_run (argv vg pool op)"
    by (rule ext) (use assms in \<open>cases op; simp add: late_argv split_def Let_def del: argv.simps\<close>)
  then show ?thesis by (simp add: run_unit_def client_run_def [abs_def] del: argv.simps)
qed

lemma late_reads:
  "GetVolume (daemon_client late_run) demo_cfg n = GetVolume demo_client demo_cfg n"
proof -
  have "cfg_VolumeGroup demo_cfg \<noteq> []" by (simp add: demo_cfg_def)
  then have "ListLogicalVolumes (daemon_client late_run) (list_opts (cfg_VolumeGroup demo_cfg) (sel_name n)) =
      ListLogicalVolumes demo_client (list_opts (cfg_VolumeGroup demo_cfg) (sel_name n))"
    by (simp add: list_command run_output_def client_run_def [abs_def] late_lvs)
  then show ?thesis by (simp add: GetVolume_def)
qed

lemma late_begin: "BeginRollback (daemon_client late_run) demo_cfg n m = BeginRollback demo_client demo_cfg n m"
proof -
  have snap: "CreateThinSnapshot (daemon_client late_run) (cfg_VolumeGroup demo_cfg) m k (snap_opts tags perm) =
      CreateThinSnapshot demo_client (cfg_VolumeGroup demo_cfg) m k (snap_opts tags perm)" for k tags perm
    by (simp add: snapshot_command [where pool = "''thin''"] late_unit del: argv.simps)
  show ?thesis unfolding BeginRollback_def late_reads snap ..
qed

lemma late_remove:
  assumes "exec ''thin'' (OpRemove n) w = Some w'"
  shows "\<exists>e. RemoveVolume (daemon_client late_run) demo_cfg n w = (Inl e, w')"
proof -
  have p: "cfg_ThinPool demo_cfg = ''thin''" by (simp add: demo_cfg_def)
  have "late_run (argv (cfg_VolumeGroup demo_cfg) ''thin'' (OpRemove n)) w = (Inl (RunError 5 ''archiving metadata failed''), w')"
    using assms by (simp add: late_argv p ref_run_argv del: argv.simps exec.simps)
  then show ?thesis
    unfolding RemoveVolume_def lv_target_def remove_command [where pool = "''thin''"]
    by (simp add: wrap_def run_unit_def seqE_def mapErr_def client_run_def del: argv.simps)
qed

lemma demo_BeginRollback:
  "\<exists>w. BeginRollback demo_client demo_cfg ''v'' ''s'' demo_host = (Inr (), w) \<and> map_of w ''v'' \<noteq> None \<and> map_of w ''v+rb'' \<noteq> None"
proof -
  have g: "GetVolume demo_client demo_cfg ''v'' demo_host =
      (Inr (volumeFromLV (obj_lv ''vg0'' (''v'', demo_lv [StateTag StateReady] [] False))), demo_host)"
    "GetVolume demo_client demo_cfg ''s'' demo_host =
      (Inr (volumeFromLV (obj_lv ''vg0'' (''s'', demo_lv [StateTag StateSnapshot, originTagPrefix @ ''v''] ''v'' False))), demo_host)"
    by (rule demo_GetVolume [OF demo_printable]; simp add: obj_state_def demo_lv_def)+
  moreover have "tagValue [StateTag StateSnapshot, originTagPrefix @ ''v''] originTagPrefix = ''v''"
    by (rule tagValue_eqI) auto
  ultimately show ?thesis
    by (simp add: BeginRollback_def RollbackTempName_def wrap_def mapErr_def seqE_def demo_commands volumeFromLV_def
        obj_lv_def demo_lv_def Let_def knownState_def knownStates_def AList.update_conv' del: tagValue.simps)
qed

lemma demo_sweeps:
  "seqE (sweepRollback (daemon_client late_run) demo_cfg ''v'' ''v+rb'') (\<lambda>_. sweepRenamedRollback (daemon_client late_run) demo_cfg ''v'')
    demo_host = (Inr (), demo_host)"
proof -
  have "GetVolume demo_client demo_cfg ''v'' demo_host =
      (Inr (volumeFromLV (obj_lv ''vg0'' (''v'', demo_lv [StateTag StateReady] [] False))), demo_host)"
    by (rule demo_GetVolume [OF demo_printable]) (simp_all add: obj_state_def demo_lv_def)
  moreover have "GetVolume demo_client demo_cfg ''v+rb'' demo_host = (Inl (sentinel_err ErrNotFound ''v+rb''), demo_host)"
    by (rule demo_GetVolume_none [OF demo_printable]) simp
  ultimately show ?thesis
    by (simp add: sweepRollback_def sweepRenamedRollback_def late_reads seqE_def sentinel_err_def volumeFromLV_def obj_lv_def
        demo_lv_def Let_def knownState_def knownStates_def)
qed

text \<open>
  C40. The undo of a rollback trusts the error it acts on: where the removal of the volume is reported as
  failed although it took effect, the handler removes the copy as well. The request fails and a volume
  that was ready is gone under both names, with no rollback left to finish.
\<close>

theorem rollback_undo_loses_volume:
  "\<exists>e s'. RollbackVolume (daemon_client late_run) demo_cfg ''v'' ''s'' (demo_server demo_host NewTransfers) = (Inl e, s') \<and>
     vstate (map_of demo_host) ''v'' = Some StateReady \<and>
     map_of (sv_host s') ''v'' = None \<and> map_of (sv_host s') ''v+rb'' = None"
proof -
  obtain w where b: "BeginRollback (daemon_client late_run) demo_cfg ''v'' ''s'' demo_host = (Inr (), w)"
    and w: "map_of w ''v'' \<noteq> None" "map_of w ''v+rb'' \<noteq> None"
    using demo_BeginRollback late_begin by auto
  let ?drop = "\<lambda>n w :: refhost. map (\<lambda>(m, x). (m, reorigin n [] x)) (AList.delete n w)"
  obtain e where r1: "RemoveVolume (daemon_client late_run) demo_cfg ''v'' w = (Inl e, ?drop ''v'' w)"
    using late_remove [of "''v''" w] w(1) by auto
  have w1: "map_of (?drop ''v'' w) ''v+rb'' \<noteq> None" "map_of (?drop ''v'' w) ''v'' = None"
    using w(2) by (simp_all add: map_of_map_snd AList.delete_conv')
  obtain e' where r2: "RemoveVolume (daemon_client late_run) demo_cfg ''v+rb'' (?drop ''v'' w) = (Inl e', ?drop ''v+rb'' (?drop ''v'' w))"
    using late_remove [of "''v+rb''" "?drop ''v'' w"] w1(1) by auto
  have gone: "map_of (?drop ''v+rb'' (?drop ''v'' w)) ''v'' = None" "map_of (?drop ''v+rb'' (?drop ''v'' w)) ''v+rb'' = None"
    using w1(2) by (simp_all add: map_of_map_snd AList.delete_conv')
  have body: "rollback_body (daemon_client late_run) demo_cfg ''v'' ''s'' ''v+rb'' demo_host =
      (Inl (volumeError e ''rollback failed''), ?drop ''v+rb'' (?drop ''v'' w))"
    unfolding rollback_body_def using demo_sweeps b r1 r2 by (simp add: mapErr_def seqE_def)
  have "volumeIDPattern ''v''" "volumeIDPattern ''s''" by (simp_all add: volumeIDPattern_iff)
  then show ?thesis
    using body gone
    by (simp add: RollbackVolume_def demand_def RollbackTempName_def Reserve_def newNameReservations_def demo_server_def Let_def)
qed

end
