(* ===== verification/TransferRoundtrip.thy ===== *)
theory TransferRoundtrip
  imports TargetNode
begin

text \<open>
  A transfer from end to end: the device of the sender is read, its frames go through the stream handler of
  the target, and the transfer is committed with the digest that the reader computed.
\<close>

section \<open>A stream through the handler\<close>

definition frame_message :: "Frame \<Rightarrow> ReceiveRequest" where
  "frame_message f = Content (fr_Offset f) (fr_Data f)"

lemma receive_loop_writes:
  assumes "write_all H io tid fs (sv_transfers s, sv_host s) = Some (Inr (), (t', w'))"
  shows "receive_loop H io tid (map frame_message fs) s = Some (Inr (), s\<lparr>sv_transfers := t', sv_host := w'\<rparr>)"
  using assms
proof (induction fs arbitrary: s)
  case (Cons f fs)
  obtain q t w where w: "tr_Write H io tid (fr_Offset f) (fr_Data f) (sv_transfers s, sv_host s) = Some (q, (t, w))"
    using tr_Write_total [of H io tid "fr_Offset f" "fr_Data f" "sv_transfers s" "sv_host s"] by auto
  then show ?case
    using Cons.prems Cons.IH [of "s\<lparr>sv_transfers := t, sv_host := w\<rparr>"] by (cases q) (auto simp: frame_message_def Let_def)
qed simp

lemma write_all_frame:
  assumes "write_all H io tid fs (t, w) = Some (r, (t', w'))" and "io_frame view io" and "wf_view (view w)"
  shows "wf_view (view w') \<and> vstate (view w') = vstate (view w)"
  using assms(1,3)
proof (induction fs arbitrary: t w)
  case (Cons f fs)
  obtain q t1 w1 where w: "tr_Write H io tid (fr_Offset f) (fr_Data f) (t, w) = Some (q, (t1, w1))"
    using tr_Write_total [of H io tid "fr_Offset f" "fr_Data f" t w] by auto
  note kept = write_follows [OF w assms(2) Cons.prems(2)]
  show ?case
  proof (cases q)
    case (Inl e)
    then show ?thesis using Cons.prems(1) w kept by auto
  next
    case (Inr u)
    then show ?thesis using Cons.IH [of t1 w1] Cons.prems(1) w kept by auto
  qed
qed simp

text \<open>The session of a transfer that was prepared and has not been attached to.\<close>

definition prepared_session :: "string \<Rightarrow> string \<Rightarrow> nat \<Rightarrow> session" where
  "prepared_session vid path n = armGrace ((new_session vid (of_nat n))\<lparr>ses_path := path\<rparr>)"

text \<open>What the stream handler leaves behind after all the frames of a content.\<close>

lemma Receive_content:
  assumes io: "io_frame view io" and wf: "wf_view (view (sv_host s))"
    and ses: "the_session (sv_transfers s) tid = Some (prepared_session vid path (length xs))"
    and small: "length xs < 2 ^ 63" and lands: "lands io path get" and zero: "get (sv_host s) = zeros (length xs)"
  obtains s1 x where "api_Receive H io (Header tid # map frame_message (frames_from 0 xs)) s = Some (Inr (), s1)"
    and "the_session (sv_transfers s1) tid = Some x" and "\<not> ses_terminal x" and "\<not> ses_streaming x"
    and "ses_volumeID x = vid" and "unat (ses_sizeBytes x) = length xs" and "received H x xs"
    and "get (sv_host s1) = xs" and "wf_view (view (sv_host s1))"
    and "vstate (view (sv_host s1)) = vstate (view (sv_host s))"
proof -
  let ?p = "prepared_session vid path (length xs)"
  let ?x = "?p\<lparr>ses_streaming := True, ses_grace := False\<rparr>"
  let ?t = "set_session tid ?x (sv_transfers s)"
  have n: "unat (of_nat (length xs) :: u64) = length xs" using small by (simp add: unat_of_nat take_bit_eq_mod)
  have att: "tr_Attach tid (sv_transfers s) = (Inr (), ?t)"
    using ses by (simp add: tr_Attach_def prepared_session_def armGrace_def new_session_def)
  have "received H ?x (get (sv_host s))"
    using received_fresh [of "of_nat (length xs)" H vid] small zero n
    by (simp add: received_def prepared_session_def armGrace_def new_session_def Let_def)
  moreover have "lands io (ses_path ?x) get" using lands by (simp add: prepared_session_def armGrace_def)
  moreover have "get (sv_host s) = [] @ zeros (length xs)" using zero by simp
  moreover have "unat (ses_nextOffset ?x) \<le> length []" by (simp add: prepared_session_def armGrace_def new_session_def)
  ultimately obtain x' w' where w: "write_all H io tid (frames_from 0 xs) (?t, sv_host s) = Some (Inr (), (set_session tid x' ?t, w'))"
    and rec: "received H x' (get w')" and g: "get w' = xs"
    and x': "x' = ?x\<lparr>ses_device := ses_device x', ses_digest := ses_digest x', ses_nextOffset := ses_nextOffset x'\<rparr>"
    using write_rest [of ?t tid ?x H get "sv_host s" io "[]" xs 0] by auto
  have f: "ses_terminal x' = False" "ses_streaming x' = True" "ses_volumeID x' = vid" "ses_sizeBytes x' = of_nat (length xs)"
    by (subst x', simp add: prepared_session_def armGrace_def new_session_def)+
  let ?d = "armGrace (x'\<lparr>ses_streaming := False\<rparr>)"
  let ?s1 = "s\<lparr>sv_transfers := tr_Detach tid (set_session tid x' ?t), sv_host := w'\<rparr>"
  have r: "api_Receive H io (Header tid # map frame_message (frames_from 0 xs)) s = Some (Inr (), ?s1)"
    using att receive_loop_writes [of H io tid "frames_from 0 xs" "s\<lparr>sv_transfers := ?t\<rparr>"] w
    by (simp add: api_Receive_def)
  have "the_session (sv_transfers ?s1) tid = Some ?d" using f by (simp add: tr_Detach_def)
  moreover have "received H ?d xs" using rec g by (simp add: received_def armGrace_def)
  ultimately show ?thesis
    using that [OF r] f g n write_all_frame [OF w io wf] by (simp add: armGrace_def)
qed

section \<open>The round trip\<close>

text \<open>The outcome of a commit is that of landing the volume, where the digest is right.\<close>

lemma Commit_lands:
  assumes s: "the_session t tid = Some x" "\<not> ses_terminal x" "\<not> ses_streaming x" and rec: "received H x xs"
  obtains r st where "Commit H c cfg io tid digest (t, w) = Some (r, st)"
    and "digest = content_digest H xs \<Longrightarrow> is_err r = is_err (fst (land_volume c cfg io tid x (ses_device x) w))"
proof -
  obtain b where v: "commit_verify H c cfg tid digest (t, w) =
    Some (if digest = content_digest H xs
          then (Inr (Some (digested H x b)), (set_session tid (digested H x b) t, w))
          else (Inl (sentinel_err ErrDigestMismatch tid), destroy c cfg tid (t, w)))"
    using commit_verify_digest [OF s rec, of c cfg digest w] by blast
  have l: "land_volume c cfg io tid (digested H x b) = land_volume c cfg io tid x" and d: "ses_device (digested H x b) = ses_device x"
    by (simp_all add: land_volume_def digested_def fun_eq_iff)
  obtain q w1 where q: "land_volume c cfg io tid x (ses_device x) w = (q, w1)" by fastforce
  show ?thesis
  proof (cases "digest = content_digest H xs")
    case True
    then show ?thesis
      using v q l d by (cases q) (auto simp: Commit_def commit_land_def Let_def intro: that)
  next
    case False
    then show ?thesis using v by (cases "destroy c cfg tid (t, w)") (auto simp: Commit_def intro: that)
  qed
qed

text \<open>
  C27. A content survives the transfer. The sender reads a device with the bytes \<open>xs\<close>; the target has a
  freshly prepared transfer whose incoming volume of that size is zeroed and whose device calls
  succeed. The frames that the sender's reader hands out are all accepted by the stream handler and
  leave exactly \<open>xs\<close> on the volume. Every commit after that returns: with another digest than the one
  the reader computed it is refused as a mismatch and the volume is not readied; with that digest it
  succeeds exactly when the sync and the two lvm commands of the landing do; and when it succeeds the
  transfer is committed and the volume is ready and still holds \<open>xs\<close>.
\<close>

theorem transfer_roundtrip:
  assumes node: "node run cfg view" and io: "io_frame view io" and wf: "wf_view (view (sv_host s))"
    and src: "serves sio spath xs"
    and ses: "the_session (sv_transfers s) tid = Some (prepared_session vid path (length xs))"
    and st: "vstate (view (sv_host s)) vid = Some StateIncoming"
    and dev: "lands io path (\<lambda>w. lv_bytes (length xs) vid (view w))"
    and zero: "lv_bytes (length xs) vid (view (sv_host s)) = zeros (length xs)"
  shows "\<exists>sum frames s1 x.
    ReadDevice H sio (\<lambda>_. None) spath (\<lambda>f fs. (Inr (), fs @ [f])) [] = (Inr (of_nat (length xs), sum), frames) \<and>
    api_Receive H io (Header tid # map frame_message frames) s = Some (Inr (), s1) \<and>
    lv_bytes (length xs) vid (view (sv_host s1)) = xs \<and>
    the_session (sv_transfers s1) tid = Some x \<and> ses_volumeID x = vid \<and>
    (\<forall>digest. \<exists>r s2. CommitTransfer H (daemon_client run) cfg io tid digest s1 = Some (r, s2) \<and>
       (digest \<noteq> sum \<longrightarrow>
          r = Inl (transferError (sentinel_err ErrDigestMismatch tid) ''committing transfer failed'') \<and>
          vstate (view (sv_host s2)) vid \<in> {None, Some StateIncoming}) \<and>
       (digest = sum \<longrightarrow>
          is_err r = is_err (fst (land_volume (daemon_client run) cfg io tid x (ses_device x) (sv_host s1)))) \<and>
       (\<not> is_err r \<longrightarrow> tr_committed (sv_transfers s2) tid \<and> vstate (view (sv_host s2)) vid = Some StateReady \<and>
          lv_bytes (length xs) vid (view (sv_host s2)) = xs))"
proof -
  let ?get = "\<lambda>w. lv_bytes (length xs) vid (view w)" and ?c = "daemon_client run"
  have small: "length xs < 2 ^ 63" using src by (simp add: serves_def)
  obtain s1 x where r: "api_Receive H io (Header tid # map frame_message (frames_from 0 xs)) s = Some (Inr (), s1)"
    and x: "the_session (sv_transfers s1) tid = Some x" "\<not> ses_terminal x" "\<not> ses_streaming x"
      "ses_volumeID x = vid" "unat (ses_sizeBytes x) = length xs" and rec: "received H x xs"
    and g: "?get (sv_host s1) = xs" and wf1: "wf_view (view (sv_host s1))"
    and st1: "vstate (view (sv_host s1)) vid = Some StateIncoming"
    using Receive_content [OF io wf ses small dev zero, of H] st by metis
  have sync: "sync_frame view io" using io by (simp add: io_frame_def)
  have "\<exists>r s2. CommitTransfer H ?c cfg io tid digest s1 = Some (r, s2) \<and>
      (digest \<noteq> content_digest H xs \<longrightarrow>
         r = Inl (transferError (sentinel_err ErrDigestMismatch tid) ''committing transfer failed'') \<and>
         vstate (view (sv_host s2)) vid \<in> {None, Some StateIncoming}) \<and>
      (digest = content_digest H xs \<longrightarrow>
         is_err r = is_err (fst (land_volume ?c cfg io tid x (ses_device x) (sv_host s1)))) \<and>
      (\<not> is_err r \<longrightarrow> tr_committed (sv_transfers s2) tid \<and> vstate (view (sv_host s2)) vid = Some StateReady \<and>
         ?get (sv_host s2) = xs)" for digest
  proof -
    obtain q t w where c: "Commit H ?c cfg io tid digest (sv_transfers s1, sv_host s1) = Some (q, (t, w))"
      and e: "digest = content_digest H xs \<Longrightarrow> is_err q = is_err (fst (land_volume ?c cfg io tid x (ses_device x) (sv_host s1)))"
      using Commit_lands [OF x(1-3) rec, of ?c cfg io digest "sv_host s1"] by (metis prod.collapse)
    note out = Commit_outcome [OF node wf1 sync x(1-3) _ _ c, unfolded x(4,5) g, OF rec st1]
    have ct: "CommitTransfer H ?c cfg io tid digest s1 =
        Some (case q of Inl e \<Rightarrow> Inl (transferError e ''committing transfer failed'') | Inr _ \<Rightarrow> Inr (),
          s1\<lparr>sv_transfers := t, sv_host := w\<rparr>)"
      using c by (simp add: CommitTransfer_def)
    show ?thesis
    proof (cases q)
      case (Inl er)
      then show ?thesis using ct out e by auto
    next
      case (Inr u)
      then have l: "landed vid tid (view (sv_host s1)) (view w)" "digest = content_digest H xs" "tr_committed t tid"
        using out lv_bytes_cong [of "view w" vid "view (sv_host s1)"] landedD(3) [OF _ wf1] g by fastforce+
      then show ?thesis
        using Inr ct e landedD(2,3) [OF l(1) wf1] lv_bytes_cong [of "view w" vid "view (sv_host s1)"] g by auto
    qed
  qed
  then show ?thesis
    using ReadDevice_frames [OF src, of H] r g x(1,4)
    by (intro exI [of _ "content_digest H xs"] exI [of _ "frames_from 0 xs"] exI [of _ s1] exI [of _ x]) blast
qed

text \<open>The device node of one volume of the reference host.\<close>

definition vol_io :: "string \<Rightarrow> refhost devio" where
  "vol_io vid =
     still_io\<lparr>d_write := (\<lambda>_ off data w.
       case map_of w vid of
         None \<Rightarrow> (if data = [] then Inr () else Inl (OsError ''no such device''), w)
       | Some x \<Rightarrow> (Inr (), AList.update vid (x\<lparr>o_data := (\<lambda>i.
             if unat off \<le> i \<and> i < unat off + length data then data ! (i - unat off) else o_data x i)\<rparr>) w))\<rparr>"

lemma vol_put:
  assumes "unat off + length data \<le> n"
  shows "map (\<lambda>i. if unat off \<le> i \<and> i < unat off + length data then data ! (i - unat off) else f i) [0..<n] =
    put off data (map f [0..<n])"
  using assms by (intro nth_equalityI) (auto simp: put_def nth_append)

lemma vol_lands: "lands (vol_io vid) path (\<lambda>w. lv_bytes n vid (map_of w))"
  by (auto simp: lands_def vol_io_def still_io_def ret_def lv_bytes_def AList.update_conv' vol_put put_def
      split: option.splits)

lemma vol_frame: "io_frame map_of (vol_io vid)"
proof -
  have "wf_view ((map_of w)(vid \<mapsto> x\<lparr>o_data := d\<rparr>)) \<and> vstate ((map_of w)(vid \<mapsto> x\<lparr>o_data := d\<rparr>)) = vstate (map_of w)"
    if "wf_view (map_of w)" "map_of w vid = Some x" for w :: refhost and x d
    using that by (auto simp: wf_view_def vstate_def obj_state_def fun_eq_iff)
  then show ?thesis
    by (auto simp: io_frame_def sync_frame_def keeps_reads_def keeps_def vol_io_def still_io_def AList.update_conv'
        split: option.splits)
qed

lemma vol_land:
  assumes "map_of w (ses_volumeID x) \<noteq> None"
  shows "\<not> is_err (fst (land_volume demo_client demo_cfg (vol_io vid) tid x dev w))"
  using assms
  by (auto simp: land_volume_def wrap_def mapErr_def seqE_def demo_commands vol_io_def still_io_def ret_def AList.update_conv')

theorem transfer_roundtrip_witness:
  "\<exists>sum frames s1 s2.
     ReadDevice (\<lambda>x. x) (fixed_io [7, 0] (\<lambda>w _ _. w)) (\<lambda>_. None) ''/dev/vg0/s'' (\<lambda>f fs. (Inr (), fs @ [f])) [] =
       (Inr (2, sum), frames) \<and>
     api_Receive (\<lambda>x. x) (vol_io ''n'') (Header ''t'' # map frame_message frames)
       (demo_server demo_made (set_session ''t'' demo_session NewTransfers)) = Some (Inr (), s1) \<and>
     CommitTransfer (\<lambda>x. x) demo_client demo_cfg (vol_io ''n'') ''t'' sum s1 = Some (Inr (), s2) \<and>
     tr_committed (sv_transfers s2) ''t'' \<and> vstate (map_of (sv_host s2)) ''n'' = Some StateReady \<and>
     lv_bytes 2 ''n'' (map_of (sv_host s2)) = [7, 0]"
proof -
  let ?s = "demo_server demo_made (set_session ''t'' demo_session NewTransfers)"
  have len: "length [7, 0 :: u8] = 2" by simp
  have h: "wf_view (map_of (sv_host ?s))" "vstate (map_of (sv_host ?s)) ''n'' = Some StateIncoming"
    "the_session (sv_transfers ?s) ''t'' = Some (prepared_session ''n'' ''/dev/vg0/n'' (length [7, 0 :: u8]))"
    "lv_bytes (length [7, 0 :: u8]) ''n'' (map_of (sv_host ?s)) = zeros (length [7, 0 :: u8])"
    using demo_made_wf demo_made_state
    by (simp_all add: demo_server_def demo_session_def prepared_session_def lv_bytes_def demo_made_n zeros_def)
  have "serves (fixed_io [7, 0 :: u8] (\<lambda>w _ _. w)) ''/dev/vg0/s'' [7, 0]" by (rule fixed_serves) simp
  from transfer_roundtrip [OF demo_node vol_frame h(1) this h(3,2) vol_lands h(4), of "\<lambda>x. x"]
  show ?thesis
  proof (elim exE conjE)
    fix sum frames s1 x
    assume r: "ReadDevice (\<lambda>x. x) (fixed_io [7, 0] (\<lambda>w _ _. w)) (\<lambda>_. None) ''/dev/vg0/s'' (\<lambda>f fs. (Inr (), fs @ [f])) [] =
         (Inr (of_nat (length [7, 0 :: u8]), sum), frames)"
      "api_Receive (\<lambda>x. x) (vol_io ''n'') (Header ''t'' # map frame_message frames) ?s = Some (Inr (), s1)"
      and b: "lv_bytes (length [7, 0 :: u8]) ''n'' (map_of (sv_host s1)) = [7, 0]" and x: "ses_volumeID x = ''n''"
      and c: "\<forall>digest. \<exists>r s2. CommitTransfer (\<lambda>x. x) demo_client demo_cfg (vol_io ''n'') ''t'' digest s1 = Some (r, s2) \<and>
        (digest \<noteq> sum \<longrightarrow>
           r = Inl (transferError (sentinel_err ErrDigestMismatch ''t'') ''committing transfer failed'') \<and>
           vstate (map_of (sv_host s2)) ''n'' \<in> {None, Some StateIncoming}) \<and>
        (digest = sum \<longrightarrow>
           is_err r = is_err (fst (land_volume demo_client demo_cfg (vol_io ''n'') ''t'' x (ses_device x) (sv_host s1)))) \<and>
        (\<not> is_err r \<longrightarrow> tr_committed (sv_transfers s2) ''t'' \<and> vstate (map_of (sv_host s2)) ''n'' = Some StateReady \<and>
           lv_bytes (length [7, 0 :: u8]) ''n'' (map_of (sv_host s2)) = [7, 0])"
    have "map_of (sv_host s1) (ses_volumeID x) \<noteq> None"
      using b unfolding x lv_bytes_def by (cases "map_of (sv_host s1) ''n''") simp_all
    from vol_land [OF this, of "''n''" "''t''" "ses_device x"] spec [OF c, of sum]
    obtain q s2 where q: "CommitTransfer (\<lambda>x. x) demo_client demo_cfg (vol_io ''n'') ''t'' sum s1 = Some (q, s2)" "\<not> is_err q"
      and s2: "tr_committed (sv_transfers s2) ''t''" "vstate (map_of (sv_host s2)) ''n'' = Some StateReady"
      "lv_bytes 2 ''n'' (map_of (sv_host s2)) = [7, 0]"
      unfolding len by (elim exE conjE) simp
    have "q = Inr ()" using q(2) by (cases q) simp_all
    then show ?thesis using r q(1) s2 unfolding len
      by (intro exI [of _ sum] exI [of _ frames] exI [of _ s1] exI [of _ s2]) simp
  qed
qed

end
