(* ===== verification/Spec2Isabelle.thy ===== *)
theory Spec2Isabelle
  imports TestPki ApiFindings TransferRoundtrip
begin

text \<open>
  \<^bold>\<open>beanstore\<close>: a daemon that manages thin logical volumes on one node and moves them between nodes.

  The program has four layers. The package \<^verbatim>\<open>lvm\<close> turns typed calls into command lines of the lvm tools
  and parses what they print. The package \<^verbatim>\<open>internal/storage\<close> gives every volume a state, persisted as an
  lvm tag, and implements the verbs on it; a restart reads the states back and settles what was
  interrupted. The package \<^verbatim>\<open>internal/api\<close> offers the verbs as grpc services, runs the long ones in the
  background and pushes volumes to other nodes. \<^verbatim>\<open>cmd/beanstore\<close> starts the process.

  \<^bold>\<open>Style of the model.\<close> A Go function that may fail is a function from the state of the world to an error
  or a value, and a new state (\<open>go\<close> in \<^verbatim>\<open>Prelude\<close>; \<open>seqE\<close> is \<^verbatim>\<open>if err != nil { return err }\<close>). Errors are the
  values of \<open>err\<close> in \<^verbatim>\<open>Volumes\<close>, with wrapping, so that \<^verbatim>\<open>errors.Is\<close> and \<^verbatim>\<open>errors.As\<close> are functions on them.
  Sizes and offsets are 64-bit words. What is outside the repository is an argument: the program that
  runs an lvm command line (\<open>runner\<close>), the device nodes (\<open>devio\<close>), the hash function, the configuration
  package, the grpc transport (\<open>peer\<close>) and the system around the daemon. The world is a type variable.

  \<^bold>\<open>The lvm package\<close>: \<^verbatim>\<open>GoStd\<close> and \<^verbatim>\<open>GoJson\<close> hold what is used of the Go library; \<^verbatim>\<open>LvmClient\<close>, \<^verbatim>\<open>LvmLv\<close>, \<^verbatim>\<open>LvmVg\<close>
  and \<^verbatim>\<open>LvmPv\<close> follow \<^verbatim>\<open>client.go\<close>, \<^verbatim>\<open>errors.go\<close>, \<^verbatim>\<open>options.go\<close>, \<^verbatim>\<open>version.go\<close>, \<^verbatim>\<open>lv.go\<close>, \<^verbatim>\<open>vg.go\<close> and \<^verbatim>\<open>pv.go\<close> command by
  command. \<^verbatim>\<open>LvmReport\<close> shows that the json report of \<^verbatim>\<open>lvs\<close> parses back to the volumes it was printed
  for, and how failures are classified.

  \<^bold>\<open>The interface to lvm.\<close> \<^verbatim>\<open>LvmHost\<close> states as the locale \<open>node\<close> what the storage layer relies on: what the command
  lines it issues do to the volumes of the group, seen through a view of the world. Any command may
  fail, and a failed command changed nothing or took effect as a whole. The theorems hold for every
  host that meets this contract. \<^verbatim>\<open>RefLvm\<close> is an executable implementation of the lvm commands that are
  used; it interprets the locale, and the witnesses run on it.

  \<^bold>\<open>Storage.\<close> \<^verbatim>\<open>Config\<close> (validation and layering), \<^verbatim>\<open>Tables\<close> (export pins, operations, name reservations),
  \<^verbatim>\<open>Volumes\<close> with the proofs in \<^verbatim>\<open>VolumeVerbs\<close> and \<^verbatim>\<open>VolumeTheorems\<close> (create, attach, detach, delete,
  snapshot, resize, status), \<^verbatim>\<open>Pushes\<close> (the source's states of a push), \<^verbatim>\<open>Rollback\<close>, \<^verbatim>\<open>Recover\<close> (the scan at
  startup), \<^verbatim>\<open>Digest\<close> (content digest, reader, copy) and \<^verbatim>\<open>Setup\<close>. \<^verbatim>\<open>Transfers\<close> models the table of inbound
  transfers; \<^verbatim>\<open>TransferTable\<close> its calls as a step relation with the invariant of all interleavings,
  \<^verbatim>\<open>TransferContent\<close> and \<^verbatim>\<open>TransferTheorems\<close> what frames and commits do. In the step relation the host may
  change in any way between two calls: what is shown over it is about the table alone. The end of a
  transfer whose timer fires while it is being stopped is the abort step there, not the expiry, which is
  that of an armed timer. \<^verbatim>\<open>TransferRoundtrip\<close> follows one transfer from the reader of the sender through the stream
  handler to the commit: what lands is exactly what was read.

  \<^bold>\<open>The services.\<close> \<^verbatim>\<open>Grpc\<close> and \<^verbatim>\<open>ApiStatus\<close> hold statuses, identifiers and authorization, \<^verbatim>\<open>ApiHandlers\<close> every
  handler with its background job over the state of a server (the host and the four volatile tables),
  \<^verbatim>\<open>ApiPush\<close> the push and the resolver. \<^verbatim>\<open>Logging\<close> and \<^verbatim>\<open>Daemon\<close> complete the process: credentials, the
  order of the start, the stop and the exit code. \<^verbatim>\<open>TestPki\<close> is the certificate authority of the tests.

  \<^bold>\<open>The daemon as a state machine.\<close> \<^verbatim>\<open>ServerRuns\<close> states the events of a running daemon as the step relation
  \<open>server_step\<close>: a request of any kind, a pending background job, the expiry of a grace period, a restart on
  the same host; \<open>daemon_run\<close> are the reachable states. It also holds the specification, \<open>permits\<close>: which event
  may move which volume from which state to which, and two invariants: \<open>tables_ok\<close> of the operations, the pins
  and the reservations, and \<open>server_ok\<close>, which ties the tables to the volumes. \<^verbatim>\<open>Lifecycle\<close> reduces every storage
  verb to its move of states. \<^verbatim>\<open>ServerSafety\<close> (the locale \<open>served\<close>: a daemon whose device nodes and peers leave
  the volumes of this host alone; the requests), \<^verbatim>\<open>ServerTransfers\<close> (the transfer requests) and \<^verbatim>\<open>ServerJobs\<close> (the
  jobs and the restart) show that each event keeps \<open>server_ok\<close> and does what is permitted; \<^verbatim>\<open>ServerTables\<close> shows
  that each event keeps \<open>tables_ok\<close>, with nothing assumed of the host. \<^verbatim>\<open>ServerTheorems\<close> concludes for all runs: the
  volumes follow the lifecycle, a job decides its operation, an idle daemon has settled everything, a held
  snapshot survives, and no volume in use disappears unasked. An event runs its calls as one sequence; a
  crash in the middle of one is a run in which the remaining commands fail without effect, followed by a
  restart. Assumed of a restart and of the resolver it starts is that the group holds names lvm admits.
  \<open>GetOperation\<close> and \<open>QueryTransfer\<close> only read the tables and are no events.

  \<^bold>\<open>Orderly runs.\<close> The target name of an accepted copy is not reserved. A copy job that finds its name taken
  fails and removes what holds the name (\<^verbatim>\<open>ApiFindings\<close> runs it): a ready volume, but also a pinned snapshot, a
  volume a pending delete is to remove, or the volume of a live transfer. In the last three cases the
  tables no longer agree with the volumes. \<open>orderly_run\<close> are the runs in which these three have not happened;
  \<open>server_ok\<close> and the theorems that rest on it hold after them, for every next event, such a copy job
  included: \<open>permits\<close> allows it to remove what holds its target name, and the theorems on held snapshots and
  on volumes in use name it (\<open>copies_into\<close>). What holds of the tables alone, that jobs decide their operations and that
  an idle daemon has settled, holds in every run.

  \<^bold>\<open>What the services guarantee.\<close> \<^verbatim>\<open>ApiFrames\<close> and \<^verbatim>\<open>ApiStreams\<close> collect which parts of the server state a call
  and a stream leave alone.
  \<^verbatim>\<open>PushSafety\<close> states as the locale \<open>push_link\<close> what a source relies on when it calls the target, and
  proves the push job and the resolver against it; \<^verbatim>\<open>TargetNode\<close> shows what the transfer handlers of a
  node do to a volume it receives; \<^verbatim>\<open>PushNetwork\<close> puts two nodes together over a network that loses
  requests and responses, and discharges the locale: after a push at most one node has the volume, and a
  resolver that is answered settles the source to match the target.
  There a call that reaches the target runs to its end before the source goes on. \<^verbatim>\<open>ApiRollback\<close> proves
  the rollback request and the sweeps that resume an interrupted one. \<^verbatim>\<open>ApiFindings\<close> holds runs in which
  the services do what their comments exclude: a commit still under way when the source gives up, two
  copies into one name, and a removal that took effect and reports a failure.

  \<^bold>\<open>Loops.\<close> Loops over lists and bounded retries (five attempts of a push, three of finishing a
  rollback) are structural recursions with the bounds of the code. The loops that fill the gap before
  a frame run on 64-bit words and are \<open>partial_function (option)\<close>; that they end is proved. The resolver
  after a restart loops until the target answers, as a \<open>partial_function (option)\<close> as well.

  \<^bold>\<open>Not modelled.\<close> Generated protobuf code and the grpc transport itself, the text of log lines (what
  recovery logs as failed is its result), time (delays are not observable, the expiry of a grace
  period is an event), and the memory model: a handler is one sequence of calls, except for the transfer
  table, whose calls interleave in \<^verbatim>\<open>TransferTable\<close>. The cryptography behind certificates and digests, the
  configuration library and the systemd notifier are arguments. How grpc calls the two interceptors is
  \<open>dispatch\<close> in \<^verbatim>\<open>ApiStatus\<close>, after its documentation. Smaller simplifications: bytes of a report that are not UTF-8
  are kept, where \<^verbatim>\<open>encoding/json\<close> replaces them; the offset of a device write stays a 64-bit word, whose conversion to
  \<^verbatim>\<open>int64\<close> is left to the device (\<open>d_write\<close>); attaching a detail to a status is taken to succeed, which it does for
  every status but OK.
\<close>

end
